(* ===== verification/Chess_Prelude.thy ===== *)
theory Chess_Prelude
  imports Main
begin

text \<open>
  Shared vocabulary of the development. The engine addresses its board as a JavaScript
  array of arrays indexed by numbers; this theory fixes how that is read in HOL:
  \<^item> a coordinate is a pair of \<open>int\<close>s (row, column), because the numbers come from
    socket messages and may be negative or out of range;
  \<^item> \<open>js_index xs i\<close> is the JavaScript read \<open>xs[i]\<close>: \<open>None\<close> stands for
    \<open>undefined\<close>;
  \<^item> \<open>grid_get\<close>, \<open>grid_map_at\<close>, \<open>cells\<close> and \<open>map_cells\<close> read, update,
    enumerate (row-major, the order of two nested \<open>forEach\<close> loops) and map a grid;
  \<^item> \<open>nat_to_string\<close>, \<open>int_to_string\<close> are JavaScript's decimal rendering of a
    number in a template string, with the parser \<open>string_to_nat\<close> used for round trips.
  The lemmas are generic facts about these operations that the component theories share.
\<close>

named_theorems grid_simps "characteristic equations of the grid operations"

type_synonym coord = "int \<times> int"

section \<open>JavaScript array reads and grids\<close>

definition js_index :: "'a list \<Rightarrow> int \<Rightarrow> 'a option" where
  "js_index xs i = (if 0 \<le> i \<and> nat i < length xs then Some (xs ! nat i) else None)"

definition grid_get :: "'a list list \<Rightarrow> coord \<Rightarrow> 'a option" where
  "grid_get g k = (case js_index g (fst k) of None \<Rightarrow> None | Some row \<Rightarrow> js_index row (snd k))"

definition grid_map_at :: "'a list list \<Rightarrow> coord \<Rightarrow> ('a \<Rightarrow> 'a) \<Rightarrow> 'a list list" where
  "grid_map_at g k f =
     (case grid_get g k of
        None \<Rightarrow> g
      | Some x \<Rightarrow> g[nat (fst k) := (g ! nat (fst k))[nat (snd k) := f x]])"

definition cells :: "'a list list \<Rightarrow> (coord \<times> 'a) list" where
  "cells g = concat (map (\<lambda>r. map (\<lambda>c. ((int r, int c), g ! r ! c)) [0..<length (g ! r)])
                        [0..<length g])"

definition map_cells :: "(coord \<Rightarrow> 'a \<Rightarrow> 'b) \<Rightarrow> 'a list list \<Rightarrow> 'b list list" where
  "map_cells f g = map (\<lambda>r. map (\<lambda>c. f (int r, int c) (g ! r ! c)) [0..<length (g ! r)])
                       [0..<length g]"

text \<open>\<open>for (i = 0; i < n; i++) for (j = 0; j < n; j++)\<close>: the coordinates of an
  \<open>n \<times> n\<close> square in row-major order.\<close>

definition square_coords :: "nat \<Rightarrow> coord list" where
  "square_coords n = concat (map (\<lambda>i. map (\<lambda>j. (int i, int j)) [0..<n]) [0..<n])"

text \<open>A grid is square of side \<open>n\<close> when it has \<open>n\<close> rows of \<open>n\<close> cells.\<close>

definition square :: "nat \<Rightarrow> 'a list list \<Rightarrow> bool" where
  "square n g \<longleftrightarrow> length g = n \<and> list_all (\<lambda>row. length row = n) g"

section \<open>Decimal rendering of numbers\<close>

definition digit_char :: "nat \<Rightarrow> char" where
  "digit_char d = char_of (48 + d)"

fun nat_to_string :: "nat \<Rightarrow> string" where
  "nat_to_string n =
     (if n < 10 then [digit_char n] else nat_to_string (n div 10) @ [digit_char (n mod 10)])"

declare nat_to_string.simps [simp del]

definition int_to_string :: "int \<Rightarrow> string" where
  "int_to_string i = (if i < 0 then CHR ''-'' # nat_to_string (nat (- i)) else nat_to_string (nat i))"

definition digit_val :: "char \<Rightarrow> nat option" where
  "digit_val c = (let n = (of_char c :: nat) in if 48 \<le> n \<and> n < 58 then Some (n - 48) else None)"

fun digits_val :: "nat \<Rightarrow> string \<Rightarrow> nat option" where
  "digits_val acc [] = Some acc"
| "digits_val acc (c # cs) =
     (case digit_val c of None \<Rightarrow> None | Some d \<Rightarrow> digits_val (10 * acc + d) cs)"

definition string_to_nat :: "string \<Rightarrow> nat option" where
  "string_to_nat s = (if s = [] then None else digits_val 0 s)"

section \<open>Lemmas on array reads and grids\<close>

lemma js_index_Some [grid_simps]:
  "js_index xs i = Some x \<longleftrightarrow> 0 \<le> i \<and> nat i < length xs \<and> xs ! nat i = x"
  by (auto simp: js_index_def)

lemma js_index_None [grid_simps]:
  "js_index xs i = None \<longleftrightarrow> i < 0 \<or> length xs \<le> nat i"
  by (auto simp: js_index_def)

lemma js_index_nat [simp]: "i < length xs \<Longrightarrow> js_index xs (int i) = Some (xs ! i)"
  by (simp add: js_index_def)

lemma grid_get_Some [grid_simps]:
  "grid_get g (r, c) = Some x \<longleftrightarrow>
     0 \<le> r \<and> nat r < length g \<and> 0 \<le> c \<and> nat c < length (g ! nat r) \<and> g ! nat r ! nat c = x"
  by (auto simp: grid_get_def js_index_def)

lemma grid_get_None [grid_simps]:
  "grid_get g (r, c) = None \<longleftrightarrow>
     \<not> (0 \<le> r \<and> nat r < length g \<and> 0 \<le> c \<and> nat c < length (g ! nat r))"
  by (auto simp: grid_get_def js_index_def)

lemma grid_get_nat [simp]:
  "r < length g \<Longrightarrow> c < length (g ! r) \<Longrightarrow> grid_get g (int r, int c) = Some (g ! r ! c)"
  by (simp add: grid_get_Some)

lemma grid_eqI:
  assumes "map length g = map length h" and "\<And>k. grid_get g k = grid_get h k"
  shows "g = h"
proof (rule nth_equalityI)
  from assms(1) show len: "length g = length h" by (rule map_eq_imp_length_eq)
  fix r assume r: "r < length g"
  from assms(1) r have lr: "length (g ! r) = length (h ! r)"
    by (metis len nth_map)
  show "g ! r = h ! r"
  proof (rule nth_equalityI)
    show "length (g ! r) = length (h ! r)" by (rule lr)
    fix c assume c: "c < length (g ! r)"
    from assms(2) [of "(int r, int c)"] r c lr len show "g ! r ! c = h ! r ! c"
      by simp
  qed
qed

lemma length_grid_map_at [simp]: "length (grid_map_at g k f) = length g"
  by (simp add: grid_map_at_def split: option.split)

lemma map_length_grid_map_at [simp]: "map length (grid_map_at g k f) = map length g"
proof (cases "grid_get g k")
  case None
  then show ?thesis by (simp add: grid_map_at_def)
next
  case (Some x)
  then have "nat (fst k) < length g"
    by (cases k) (simp add: grid_get_Some)
  with Some show ?thesis
    by (auto simp: grid_map_at_def map_update intro!: nth_equalityI simp: nth_list_update)
qed

lemma grid_get_grid_map_at [grid_simps]:
  "grid_get (grid_map_at g k f) k' =
     (if k' = k then map_option f (grid_get g k) else grid_get g k')"
proof (cases "grid_get g k")
  case None
  then show ?thesis by (auto simp: grid_map_at_def)
next
  case (Some x)
  obtain r c where k: "k = (r, c)" by fastforce
  obtain r' c' where k': "k' = (r', c')" by fastforce
  from Some k have r: "0 \<le> r" "nat r < length g" and c: "0 \<le> c" "nat c < length (g ! nat r)"
    and x: "x = g ! nat r ! nat c"
    by (auto simp: grid_get_Some)
  from Some k have eq: "grid_map_at g (r, c) f = g[nat r := (g ! nat r)[nat c := f x]]"
    by (simp add: grid_map_at_def)
  show ?thesis
    unfolding k k' eq using r c x
    by (auto simp: grid_get_def js_index_def nth_list_update nat_eq_iff)
qed

lemma set_cells [grid_simps]: "(k, x) \<in> set (cells g) \<longleftrightarrow> grid_get g k = Some x"
proof -
  obtain r c where k: "k = (r, c)" by fastforce
  have "((r, c), x) \<in> set (cells g) \<longleftrightarrow>
          (\<exists>i < length g. \<exists>j < length (g ! i). (r, c) = (int i, int j) \<and> x = g ! i ! j)"
    by (auto simp: cells_def image_iff)
  also have "\<dots> \<longleftrightarrow> grid_get g (r, c) = Some x"
    by (auto simp: grid_get_Some) (metis int_nat_eq)
  finally show ?thesis by (simp add: k)
qed

lemma distinct_cells: "distinct (map fst (cells g))"
proof -
  have "distinct (concat (map (\<lambda>r. map (\<lambda>c. (int r, int c)) [0..<length (g ! r)]) [0..<n]))"
    for n
    by (induction n) (auto simp: distinct_map inj_on_def)
  then show ?thesis
    by (simp add: cells_def map_concat comp_def)
qed

lemma grid_get_map_cells [grid_simps]:
  "grid_get (map_cells f g) k = map_option (f k) (grid_get g k)"
proof -
  obtain r c where k: "k = (r, c)" by fastforce
  show ?thesis
    unfolding k map_cells_def
    by (auto simp: grid_get_def js_index_def)
qed

lemma map_length_map_cells [simp]: "map length (map_cells f g) = map length g"
  by (auto simp: map_cells_def intro!: nth_equalityI)

lemma grid_get_map_map [grid_simps]: "grid_get (map (map h) g) k = map_option h (grid_get g k)"
  by (cases k) (auto simp: grid_get_def js_index_def)

lemma map_map_grid_map_at:
  assumes "\<And>x. h (f x) = f (h x)"
  shows "map (map h) (grid_map_at g k f) = grid_map_at (map (map h) g) k f"
  by (rule grid_eqI) (simp_all add: grid_get_map_map grid_get_grid_map_at assms option.map_comp comp_def)

lemma map_map_grid_map_at_absorb:
  assumes "\<And>x. h (f x) = h x"
  shows "map (map h) (grid_map_at g k f) = map (map h) g"
  by (rule grid_eqI) (simp_all add: grid_get_map_map grid_get_grid_map_at assms option.map_comp comp_def)

lemma map_cells_map_map: "map_cells f (map (map h) g) = map_cells (\<lambda>k x. f k (h x)) g"
  by (simp add: map_cells_def)

lemma cells_map_cells: "cells (map_cells f g) = map (\<lambda>(k, x). (k, f k x)) (cells g)"
  unfolding cells_def map_cells_def
  by (auto simp: map_concat intro!: arg_cong [where f = concat] map_cong)

lemma square_alt: "square n g \<longleftrightarrow> length (map length g) = n \<and> list_all (\<lambda>l. l = n) (map length g)"
  by (simp add: square_def list.pred_map comp_def)

lemma square_map_length: "map length g = map length h \<Longrightarrow> square n g = square n h"
  by (simp only: square_alt)

lemma js_index_case_grid_get:
  "(case js_index g (fst k) of None \<Rightarrow> A | Some row \<Rightarrow> (case js_index row (snd k) of None \<Rightarrow> A | Some t \<Rightarrow> F t)) =
   (case grid_get g k of None \<Rightarrow> A | Some t \<Rightarrow> F t)"
  by (simp add: grid_get_def split: option.split)

lemma map_sum_eq_Inr [simp]: "map_sum f g x = Inr y \<longleftrightarrow> (\<exists>z. x = Inr z \<and> y = g z)"
  by (cases x) auto

lemma Some_Inr_projr:
  "(case x of Some (Inr _) \<Rightarrow> True | _ \<Rightarrow> False) \<Longrightarrow> x = Some (Inr (projr (the x)))"
  by (auto split: option.splits sum.splits)

lemma find_SomeD: "find P xs = Some x \<Longrightarrow> P x \<and> x \<in> set xs"
  by (induction xs) (auto split: if_splits)

lemma concat_map_if_Nil:
  "concat (map (\<lambda>x. if Q x then [] else [F x]) xs) = map F (filter (\<lambda>x. \<not> Q x) xs)"
  by (induction xs) auto

lemma set_update_nth_all:
  "\<forall>x \<in> set xs. P x \<Longrightarrow> (i < length xs \<Longrightarrow> P (f (xs ! i))) \<Longrightarrow> \<forall>x \<in> set (xs[i := f (xs ! i)]). P x"
  by (cases "i < length xs") (auto simp: list_update_beyond dest: set_update_subset_insert [THEN subsetD])

lemma fold_update_all:
  "\<forall>x \<in> set xs. P x \<Longrightarrow> (\<And>x a. P x \<Longrightarrow> P (f a x)) \<Longrightarrow>
   \<forall>x \<in> set (fold (\<lambda>(i, a) ys. ys[i := f a (ys ! i)]) L xs). P x"
proof (induction L arbitrary: xs)
  case Nil
  then show ?case by simp
next
  case (Cons p L)
  obtain i a where p: "p = (i, a)" by fastforce
  have "\<forall>x \<in> set (xs[i := f a (xs ! i)]). P x"
    using Cons.prems by (intro set_update_nth_all) auto
  with Cons.IH Cons.prems(2) show ?case by (simp add: p)
qed

lemma length_fold_update [simp]:
  "length (fold (\<lambda>(i, a) ys. ys[i := f a (ys ! i)]) L xs) = length xs"
  by (induction L arbitrary: xs) auto

lemma set_update_all:
  "\<forall>x \<in> set xs. P x \<Longrightarrow> P y \<Longrightarrow> \<forall>x \<in> set (xs[i := y]). P x"
  using set_update_subset_insert [of xs i y] by blast

text \<open>Updating every cell once, in the order of \<open>cells\<close>, with a function of the cell's
  coordinate and its original value is a \<open>map_cells\<close>: each update sees the original value
  because no other update touches its cell.\<close>

lemma fold_grid_map_at_list:
  assumes "distinct (map fst L)" and "\<forall>(k, x) \<in> set L. grid_get g k = Some x"
  shows "map length (fold (\<lambda>(k, x) g'. grid_map_at g' k (u k x)) L g) = map length g \<and>
         grid_get (fold (\<lambda>(k, x) g'. grid_map_at g' k (u k x)) L g) k' =
           (if k' \<in> fst ` set L then map_option (\<lambda>y. u k' y y) (grid_get g k') else grid_get g k')"
  using assms
proof (induction L arbitrary: g)
  case Nil
  then show ?case by simp
next
  case (Cons kx L)
  obtain k0 x0 where kx: "kx = (k0, x0)" by fastforce
  let ?g1 = "grid_map_at g k0 (u k0 x0)"
  from Cons.prems kx have x0: "grid_get g k0 = Some x0" and notin: "k0 \<notin> fst ` set L"
    by auto
  have "\<forall>(k, x) \<in> set L. grid_get ?g1 k = Some x"
  proof (intro ballI, clarify)
    fix k x assume kxL: "(k, x) \<in> set L"
    with notin have "k \<noteq> k0" by force
    with kxL Cons.prems show "grid_get ?g1 k = Some x"
      by (auto simp: grid_get_grid_map_at)
  qed
  with Cons.prems have IH: "map length (fold (\<lambda>(k, x) g'. grid_map_at g' k (u k x)) L ?g1) = map length ?g1 \<and>
         grid_get (fold (\<lambda>(k, x) g'. grid_map_at g' k (u k x)) L ?g1) k' =
           (if k' \<in> fst ` set L then map_option (\<lambda>y. u k' y y) (grid_get ?g1 k') else grid_get ?g1 k')"
    by (intro Cons.IH) auto
  show ?case
    using IH x0 notin by (auto simp: kx grid_get_grid_map_at)
qed

lemma fold_grid_map_at_cells:
  "fold (\<lambda>(k, x) g'. grid_map_at g' k (u k x)) (cells g) g = map_cells (\<lambda>k x. u k x x) g"
proof (rule grid_eqI)
  have hyps: "distinct (map fst (cells g))" "\<forall>(k, x) \<in> set (cells g). grid_get g k = Some x"
    by (auto simp: distinct_cells set_cells)
  from fold_grid_map_at_list [OF hyps]
  show "map length (fold (\<lambda>(k, x) g'. grid_map_at g' k (u k x)) (cells g) g) =
        map length (map_cells (\<lambda>k x. u k x x) g)"
    by simp
  fix k
  have "k \<in> fst ` set (cells g) \<longleftrightarrow> (\<exists>x. (k, x) \<in> set (cells g))"
    by force
  also have "\<dots> \<longleftrightarrow> grid_get g k \<noteq> None"
    by (simp add: set_cells)
  finally have "k \<in> fst ` set (cells g) \<longleftrightarrow> grid_get g k \<noteq> None" .
  with fold_grid_map_at_list [OF hyps, of u k]
  show "grid_get (fold (\<lambda>(k, x) g'. grid_map_at g' k (u k x)) (cells g) g) k =
        grid_get (map_cells (\<lambda>k x. u k x x) g) k"
    by (auto simp: grid_get_map_cells)
qed

section \<open>Lemmas on decimal strings\<close>

lemma digit_val_digit_char [simp]: "d < 10 \<Longrightarrow> digit_val (digit_char d) = Some d"
  by (simp add: digit_val_def digit_char_def)

lemma nat_to_string_digits: "c \<in> set (nat_to_string n) \<Longrightarrow> 48 \<le> (of_char c :: nat) \<and> (of_char c :: nat) < 58"
proof (induction n rule: nat_to_string.induct)
  case (1 n)
  then show ?case
    by (subst (asm) nat_to_string.simps) (auto simp: digit_char_def split: if_splits)
qed

lemma nat_to_string_not_Nil [simp]: "nat_to_string n \<noteq> []"
  by (subst nat_to_string.simps) simp

lemma digits_val_append:
  "digits_val acc (xs @ ys) = (case digits_val acc xs of None \<Rightarrow> None | Some a \<Rightarrow> digits_val a ys)"
  by (induction acc xs rule: digits_val.induct) (simp_all split: option.split)

lemma digits_val_nat_to_string:
  "digits_val acc (nat_to_string n) = Some (acc * 10 ^ length (nat_to_string n) + n)"
proof (induction n arbitrary: acc rule: nat_to_string.induct)
  case (1 n)
  show ?case
  proof (cases "n < 10")
    case True
    then show ?thesis by (subst (1 2) nat_to_string.simps) simp
  next
    case False
    let ?L = "length (nat_to_string (n div 10))"
    from False have eq: "nat_to_string n = nat_to_string (n div 10) @ [digit_char (n mod 10)]"
      by (subst nat_to_string.simps) simp
    from False "1.IH" have "digits_val acc (nat_to_string (n div 10)) = Some (acc * 10 ^ ?L + n div 10)"
      by simp
    then have "digits_val acc (nat_to_string n) = Some (10 * (acc * 10 ^ ?L + n div 10) + n mod 10)"
      by (simp add: eq digits_val_append)
    also have "10 * (acc * 10 ^ ?L + n div 10) + n mod 10 = acc * 10 ^ length (nat_to_string n) + n"
      by (simp add: eq algebra_simps)
    finally show ?thesis .
  qed
qed

lemma string_to_nat_nat_to_string [simp]: "string_to_nat (nat_to_string n) = Some n"
  by (simp add: string_to_nat_def digits_val_nat_to_string)

end
