(* ===== verification/Chess_Types.thy ===== *)
theory Chess_Types
  imports Chess_Prelude
begin

text \<open>
  The data model of the engine (the types that \<open>src/ChessGameEngine.ts\<close> imports from
  \<open>./types\<close>, a module that is not part of \<open>src/\<close>; modelled from the specification):
  colours, piece types, pieces, tiles, the board, the game record, the move log and the
  engine object that owns all three. A JavaScript object that the engine mutates in place
  becomes a record that the operations return updated. The alias \<open>game.board ===
  this.board\<close> of the source is kept by storing the board once, in the engine record.
\<close>

datatype color = White | Black | Null

datatype piece_type = Empty | Pawn | Knight | Bishop | Rook | Queen | King | Vanguard

text \<open>A piece: type, colour, the coordinate back-reference set by \<open>setCoordToPiece\<close>,
  and the movement-history flag owned by the piece module.\<close>

record piece =
  ptype :: piece_type
  pcolor :: color
  pcoord :: "coord option"
  pmoved :: bool

record tile =
  piece :: piece
  spacesToMove :: "coord list"

record board =
  tiles :: "tile list list"
  vanguards :: nat
  whiteVanguards :: nat
  blackVanguards :: nat

record game =
  playersTurn :: color
  gInCheck :: color
  winner :: color
  stalemate :: bool
  boardLength :: int
  started :: bool
  takenPieces :: "piece list"

record move_log =
  blackMoves :: "string list"
  whiteMoves :: "string list"

record engine =
  board :: board
  game :: game
  mlog :: move_log

text \<open>\<open>tile.piece.color === Color.White ? Color.Black : Color.White\<close>: the colour that
  replies to a move. \<open>Null\<close> is answered by \<open>White\<close>, as in the source.\<close>

definition otherColor :: "color \<Rightarrow> color" where
  "otherColor c = (if c = White then Black else White)"

text \<open>JavaScript truthiness of a \<open>Color\<close> value (\<open>if (this.game.inCheck)\<close>): only
  \<open>Null\<close> is falsy, as the specification reads the test ("if checkedColor is set").\<close>

definition colorTruthy :: "color \<Rightarrow> bool" where
  "colorTruthy c \<longleftrightarrow> c \<noteq> Null"

text \<open>The deployment gate of \<open>populateAvailableMoves\<close> and of the \<open>make-move\<close>
  handler: both colours have placed their quota of vanguards.\<close>

definition deployed :: "board \<Rightarrow> bool" where
  "deployed b \<longleftrightarrow> \<not> (blackVanguards b < vanguards b \<or> whiteVanguards b < vanguards b)"

text \<open>The board with every \<open>spacesToMove\<close> cache cleared: what the piece module may
  look at.\<close>

definition erase_spaces :: "board \<Rightarrow> board" where
  "erase_spaces b = b\<lparr>tiles := map (map (\<lambda>t. t\<lparr>spacesToMove := []\<rparr>)) (tiles b)\<rparr>"

lemma otherColor_simps [simp]:
  "otherColor White = Black" "otherColor Black = White" "otherColor Null = White"
  by (simp_all add: otherColor_def)

lemma otherColor_ne [simp]: "otherColor c \<noteq> Null"
  by (simp add: otherColor_def)

lemma otherColor_involutive: "c \<noteq> Null \<Longrightarrow> otherColor (otherColor c) = c"
  by (cases c) simp_all

lemma erase_spaces_idem [simp]: "erase_spaces (erase_spaces b) = erase_spaces b"
  by (simp add: erase_spaces_def comp_def)

lemma erase_spaces_fields [simp]:
  "vanguards (erase_spaces b) = vanguards b"
  "whiteVanguards (erase_spaces b) = whiteVanguards b"
  "blackVanguards (erase_spaces b) = blackVanguards b"
  "map length (tiles (erase_spaces b)) = map length (tiles b)"
  by (simp_all add: erase_spaces_def comp_def)

lemma deployed_erase_spaces [simp]: "deployed (erase_spaces b) = deployed b"
  by (simp add: deployed_def)

end
