(* ===== verification/Chess_Piece.thy ===== *)
theory Chess_Piece
  imports Chess_Types
begin

text \<open>
  The Piece capability (the module \<open>./piece\<close> that \<open>src/ChessGameEngine.ts\<close> loads
  with \<open>require\<close>; it is not part of \<open>src/\<close>, so it is modelled from the specification,
  section 6). The engine calls four of its functions; the three with a semantic content are
  the fields of the record \<open>piece_capability\<close>, and every engine operation takes such a
  record as a parameter:
  \<^item> \<open>tryMove board destination piece\<close>: the pseudo-legal test;
  \<^item> \<open>makeMove board destination piece\<close>: the board after the move, the moved piece
    object as it is afterwards, and the captured piece that would be passed to the
    \<open>onCapture\<close> callback (\<open>None\<close>: the callback is not called);
  \<^item> \<open>moveMade moved other\<close>: \<open>other\<close> after being told that \<open>moved\<close> moved.
  The constructor \<open>new ChessPiece(color, type)\<close> and \<open>setCoordToPiece\<close> only build and
  label pieces and are definitions here.

  The engine's correctness needs two promises of the capability, stated as predicates on
  the record: it ignores the \<open>spacesToMove\<close> caches (\<open>spaces_blind\<close>), and a move keeps
  the shape of the grid and the vanguard counters (\<open>keeps_board\<close>). A small capability
  (kings, rooks and knights on any board) implements the interface and discharges both; it
  is the instance the witnesses of the development run on.
\<close>

record piece_capability =
  tryMove :: "board \<Rightarrow> coord \<Rightarrow> piece \<Rightarrow> bool"
  makeMove :: "board \<Rightarrow> coord \<Rightarrow> piece \<Rightarrow> board \<times> piece \<times> piece option"
  moveMade :: "piece \<Rightarrow> piece \<Rightarrow> piece"

definition newChessPiece :: "color \<Rightarrow> piece_type \<Rightarrow> piece" where
  "newChessPiece c ty = \<lparr>ptype = ty, pcolor = c, pcoord = None, pmoved = False\<rparr>"

text \<open>\<open>new ChessPiece(color, type, coordinate)\<close>, the three-argument form used for the
  first pieces of the 16-square layout.\<close>

definition newChessPieceAt :: "color \<Rightarrow> piece_type \<Rightarrow> coord \<Rightarrow> piece" where
  "newChessPieceAt c ty k = \<lparr>ptype = ty, pcolor = c, pcoord = Some k, pmoved = False\<rparr>"

definition setCoordToPiece :: "coord \<Rightarrow> piece \<Rightarrow> piece" where
  "setCoordToPiece k p = p\<lparr>pcoord := Some k\<rparr>"

text \<open>\<open>tiles.forEach((row, r) => row.forEach((tile, c) =>
  ChessPiece.setCoordToPiece({row: r, col: c}, tile.piece)))\<close>: every piece learns its square.\<close>

definition assignCoords :: "tile list list \<Rightarrow> tile list list" where
  "assignCoords ts = map_cells (\<lambda>k t. t\<lparr>piece := setCoordToPiece k (piece t)\<rparr>) ts"

section \<open>What the engine relies on\<close>

definition spaces_blind :: "piece_capability \<Rightarrow> bool" where
  "spaces_blind C \<longleftrightarrow>
     (\<forall>b d p. tryMove C b d p = tryMove C (erase_spaces b) d p \<and>
        erase_spaces (fst (makeMove C b d p)) = erase_spaces (fst (makeMove C (erase_spaces b) d p)))"

definition keeps_board :: "piece_capability \<Rightarrow> bool" where
  "keeps_board C \<longleftrightarrow>
     (\<forall>b d p. map length (tiles (fst (makeMove C b d p))) = map length (tiles b) \<and>
        vanguards (fst (makeMove C b d p)) = vanguards b \<and>
        whiteVanguards (fst (makeMove C b d p)) = whiteVanguards b \<and>
        blackVanguards (fst (makeMove C b d p)) = blackVanguards b)"

section \<open>A sample capability\<close>

text \<open>Squares strictly between two squares of one row or one column.\<close>

definition between :: "coord \<Rightarrow> coord \<Rightarrow> coord list" where
  "between s d =
     (if fst s = fst d then map (\<lambda>c. (fst s, c)) [min (snd s) (snd d) + 1..max (snd s) (snd d) - 1]
      else if snd s = snd d then map (\<lambda>r. (r, snd s)) [min (fst s) (fst d) + 1..max (fst s) (fst d) - 1]
      else [])"

definition vacant :: "board \<Rightarrow> coord \<Rightarrow> bool" where
  "vacant b k = (case grid_get (tiles b) k of None \<Rightarrow> True | Some t \<Rightarrow> ptype (piece t) = Empty)"

definition sampleShape :: "board \<Rightarrow> piece_type \<Rightarrow> coord \<Rightarrow> coord \<Rightarrow> bool" where
  "sampleShape b ty s d =
     (let dr = \<bar>fst d - fst s\<bar>; dc = \<bar>snd d - snd s\<bar> in
      case ty of
        King \<Rightarrow> dr \<le> 1 \<and> dc \<le> 1
      | Rook \<Rightarrow> (dr = 0 \<or> dc = 0) \<and> list_all (vacant b) (between s d)
      | Knight \<Rightarrow> (dr = 1 \<and> dc = 2) \<or> (dr = 2 \<and> dc = 1)
      | _ \<Rightarrow> False)"

definition sampleTryMove :: "board \<Rightarrow> coord \<Rightarrow> piece \<Rightarrow> bool" where
  "sampleTryMove b d p =
     (case pcoord p of
        None \<Rightarrow> False
      | Some s \<Rightarrow> s \<noteq> d \<and>
          (case grid_get (tiles b) d of None \<Rightarrow> False | Some t \<Rightarrow> pcolor (piece t) \<noteq> pcolor p) \<and>
          sampleShape b (ptype p) s d)"

definition sampleMakeMove :: "board \<Rightarrow> coord \<Rightarrow> piece \<Rightarrow> board \<times> piece \<times> piece option" where
  "sampleMakeMove b d p =
     (case pcoord p of
        None \<Rightarrow> (b, p, None)
      | Some s \<Rightarrow>
          (let p' = p\<lparr>pcoord := Some d, pmoved := True\<rparr>;
               captured = (case grid_get (tiles b) d of
                             None \<Rightarrow> None
                           | Some t \<Rightarrow> if ptype (piece t) = Empty then None else Some (piece t));
               ts = grid_map_at (grid_map_at (tiles b) s
                      (\<lambda>t. t\<lparr>piece := setCoordToPiece s (newChessPiece Null Empty)\<rparr>))
                      d (\<lambda>t. t\<lparr>piece := p'\<rparr>)
           in (b\<lparr>tiles := ts\<rparr>, p', captured)))"

definition sampleCap :: piece_capability where
  "sampleCap = \<lparr>tryMove = sampleTryMove, makeMove = sampleMakeMove, moveMade = (\<lambda>moved other. other)\<rparr>"

text \<open>Boards for the witnesses. \<open>pinnedBoard\<close> is the position of the specification's
  pinned-rook scenario on a \<open>3 \<times> 3\<close> board: the white king, a white rook in front of it and
  a black rook behind that on the first column, the black king in a corner.\<close>

definition sampleTile :: "color \<Rightarrow> piece_type \<Rightarrow> tile" where
  "sampleTile c ty = \<lparr>piece = newChessPiece c ty, spacesToMove = []\<rparr>"

definition pinnedBoard :: board where
  "pinnedBoard =
     \<lparr>tiles = assignCoords
        [[sampleTile Black Rook, sampleTile Null Empty, sampleTile Black King],
         [sampleTile White Rook, sampleTile Null Empty, sampleTile Null Empty],
         [sampleTile White King, sampleTile Null Empty, sampleTile Null Empty]],
      vanguards = 0, whiteVanguards = 0, blackVanguards = 0\<rparr>"

text \<open>\<open>mateBoard\<close>: the black king in a corner, the white king two rows below it and a
  white rook that mates by moving to the far end of the black king's row.\<close>

definition mateBoard :: board where
  "mateBoard =
     \<lparr>tiles = assignCoords
        [[sampleTile Black King, sampleTile Null Empty, sampleTile Null Empty],
         [sampleTile Null Empty, sampleTile Null Empty, sampleTile Null Empty],
         [sampleTile Null Empty, sampleTile White King, sampleTile White Rook]],
      vanguards = 0, whiteVanguards = 0, blackVanguards = 0\<rparr>"

section \<open>Lemmas\<close>

lemma spaces_blindD:
  "spaces_blind C \<Longrightarrow> tryMove C b d p = tryMove C (erase_spaces b) d p"
  "spaces_blind C \<Longrightarrow>
     erase_spaces (fst (makeMove C b d p)) = erase_spaces (fst (makeMove C (erase_spaces b) d p))"
  unfolding spaces_blind_def by blast+

lemma keeps_boardD:
  assumes "keeps_board C"
  shows "map length (tiles (fst (makeMove C b d p))) = map length (tiles b)"
    and "vanguards (fst (makeMove C b d p)) = vanguards b"
    and "whiteVanguards (fst (makeMove C b d p)) = whiteVanguards b"
    and "blackVanguards (fst (makeMove C b d p)) = blackVanguards b"
  using assms unfolding keeps_board_def by blast+

lemma grid_get_erase_spaces [grid_simps]:
  "grid_get (tiles (erase_spaces b)) k = map_option (\<lambda>t. t\<lparr>spacesToMove := []\<rparr>) (grid_get (tiles b) k)"
  by (simp add: erase_spaces_def grid_get_map_map)

lemma vacant_erase_spaces [simp]: "vacant (erase_spaces b) = vacant b"
  by (rule ext) (simp add: vacant_def grid_get_erase_spaces split: option.split)

lemma sampleShape_erase_spaces [simp]: "sampleShape (erase_spaces b) ty s d = sampleShape b ty s d"
  unfolding sampleShape_def by (simp only: vacant_erase_spaces)

lemma erase_spaces_tiles_update:
  "erase_spaces (b\<lparr>tiles := ts\<rparr>) = b\<lparr>tiles := map (map (\<lambda>t. t\<lparr>spacesToMove := []\<rparr>)) ts\<rparr>"
  by (simp add: erase_spaces_def)

lemma grid_get_assignCoords [grid_simps]:
  "grid_get (assignCoords ts) k = map_option (\<lambda>t. t\<lparr>piece := setCoordToPiece k (piece t)\<rparr>) (grid_get ts k)"
  by (simp add: assignCoords_def grid_get_map_cells)

lemma cells_assignCoords:
  "cells (assignCoords ts) = map (\<lambda>(k, t). (k, t\<lparr>piece := setCoordToPiece k (piece t)\<rparr>)) (cells ts)"
  by (simp add: assignCoords_def cells_map_cells)

lemma length_assignCoords [simp]: "length (assignCoords ts) = length ts"
  by (simp add: assignCoords_def map_cells_def)

lemma map_length_assignCoords [simp]: "map length (assignCoords ts) = map length ts"
  by (simp add: assignCoords_def)

lemma setCoordToPiece_sel [simp]:
  "ptype (setCoordToPiece k p) = ptype p" "pcolor (setCoordToPiece k p) = pcolor p"
  "pcoord (setCoordToPiece k p) = Some k" "pmoved (setCoordToPiece k p) = pmoved p"
  by (simp_all add: setCoordToPiece_def)

theorem sampleCap_spaces_blind: "spaces_blind sampleCap"
  unfolding spaces_blind_def
proof (intro allI conjI)
  fix b d p
  show "tryMove sampleCap b d p = tryMove sampleCap (erase_spaces b) d p"
    by (simp add: sampleCap_def sampleTryMove_def grid_get_erase_spaces split: option.split)
  show "erase_spaces (fst (makeMove sampleCap b d p)) =
        erase_spaces (fst (makeMove sampleCap (erase_spaces b) d p))"
    by (simp add: sampleCap_def sampleMakeMove_def Let_def erase_spaces_tiles_update
        map_map_grid_map_at split: option.split)
       (simp add: erase_spaces_def map_map_grid_map_at comp_def)
qed

theorem sampleCap_keeps_board: "keeps_board sampleCap"
  by (simp add: keeps_board_def sampleCap_def sampleMakeMove_def Let_def split: option.split)

end
