(* ===== verification/Chess_MoveGen.thy ===== *)
theory Chess_MoveGen
  imports Chess_Piece
begin

text \<open>
  The Legal Move Generator and the Check Detector of \<open>src/ChessGameEngine.ts\<close>:
  \<open>populateAvailableMoves\<close> (lines 29--71) and \<open>inCheck\<close> (lines 74--104).

  The source updates the live board in place while it iterates over it: the two nested
  \<open>forEach\<close> loops assign \<open>tile.spacesToMove\<close> one tile at a time, and every later
  \<open>tryMove\<close> and \<open>JSON.parse(JSON.stringify(board))\<close> copy sees the caches already
  written. \<open>forEachTile\<close> models exactly this: a fold over the cells in row-major order that
  threads the board. \<open>populateSpec\<close> is the simultaneous reading of the specification
  (every tile computed from the board as it was); the two agree for every capability that
  ignores the caches (\<open>populateAvailableMoves_eq_spec\<close>).
\<close>

section \<open>Definitions\<close>

text \<open>The destinations the source enumerates: \<open>0 \<le> i, j < tiles.length\<close>.\<close>

definition candidates :: "board \<Rightarrow> coord list" where
  "candidates b = square_coords (length (tiles b))"

text \<open>\<open>tiles.forEach((row, r) => row.forEach((tile, c) => { tile.spacesToMove = f(...) })))\<close>
  on the live board.\<close>

definition forEachTile :: "(board \<Rightarrow> coord \<Rightarrow> tile \<Rightarrow> coord list) \<Rightarrow> board \<Rightarrow> board" where
  "forEachTile f b =
     fold (\<lambda>(k, t) b'. b'\<lparr>tiles := grid_map_at (tiles b') k (\<lambda>y. y\<lparr>spacesToMove := f b' k t\<rparr>)\<rparr>)
          (cells (tiles b)) b"

text \<open>The inner loop of lines 47--53: the pseudo-legal destinations of a piece.\<close>

definition pseudoMoves :: "piece_capability \<Rightarrow> board \<Rightarrow> piece \<Rightarrow> coord list" where
  "pseudoMoves C b p = filter (\<lambda>d. tryMove C b d p) (candidates b)"

text \<open>Lines 44--57: every tile of the copied board gets its pseudo-legal destinations.\<close>

definition refreshPseudo :: "piece_capability \<Rightarrow> board \<Rightarrow> board" where
  "refreshPseudo C nb = forEachTile (\<lambda>b' k t. pseudoMoves C b' (piece t)) nb"

text \<open>Lines 42--57: copy the board, play the move on the copy (the capture callback is
  \<open>() => {}\<close>), recompute the pseudo-legal caches of the copy.\<close>

definition hypothetical :: "piece_capability \<Rightarrow> board \<Rightarrow> coord \<Rightarrow> piece \<Rightarrow> board" where
  "hypothetical C b d p = refreshPseudo C (fst (makeMove C b d p))"

text \<open>Lines 75--84: the last king (row-major order, the loops do not break) whose colour
  is neither \<open>color\<close> nor \<open>Null\<close>.\<close>

definition findOpponentKing :: "color \<Rightarrow> tile list list \<Rightarrow> coord option" where
  "findOpponentKing color ts =
     fold (\<lambda>(k, t) acc. if ptype (piece t) = King \<and> pcolor (piece t) \<noteq> color \<and> pcolor (piece t) \<noteq> Null
                        then Some k else acc)
          (cells ts) None"

text \<open>Lines 74--104: \<open>color\<close> gives check when one of its pieces has the opposing
  king's square in its cache; no opposing king at all counts as check.\<close>

definition inCheck :: "color \<Rightarrow> tile list list \<Rightarrow> bool" where
  "inCheck color ts =
     (case findOpponentKing color ts of
        None \<Rightarrow> True
      | Some k \<Rightarrow> list_ex (\<lambda>(_, t). pcolor (piece t) = color \<and> list_ex (\<lambda>s. s = k) (spacesToMove t))
                         (cells ts))"

text \<open>Lines 36--66: the legal destinations of the tile at \<open>k\<close>.\<close>

definition legalMoves :: "piece_capability \<Rightarrow> board \<Rightarrow> coord \<Rightarrow> tile \<Rightarrow> coord list" where
  "legalMoves C b k t =
     (if ptype (piece t) \<noteq> Empty then
        filter (\<lambda>d. tryMove C b d (piece t) \<and>
                    \<not> inCheck (otherColor (pcolor (piece t))) (tiles (hypothetical C b d (piece t))))
               (candidates b)
      else [])"

definition populateAvailableMoves :: "piece_capability \<Rightarrow> board \<Rightarrow> board" where
  "populateAvailableMoves C b =
     (if blackVanguards b < vanguards b \<or> whiteVanguards b < vanguards b then b
      else forEachTile (legalMoves C) b)"

text \<open>The specification's reading (section 4.3): every tile's legal moves computed from the
  board as it was before the recomputation.\<close>

definition populateSpec :: "piece_capability \<Rightarrow> board \<Rightarrow> board" where
  "populateSpec C b =
     (if \<not> deployed b then b
      else b\<lparr>tiles := map_cells (\<lambda>k t. t\<lparr>spacesToMove := legalMoves C b k t\<rparr>) (tiles b)\<rparr>)"

text \<open>A square is attacked by a colour when a piece of that colour has it among its
  pseudo-legal destinations.\<close>

definition attackedBy :: "piece_capability \<Rightarrow> board \<Rightarrow> color \<Rightarrow> coord \<Rightarrow> bool" where
  "attackedBy C b col k =
     list_ex (\<lambda>(_, t). pcolor (piece t) = col \<and> k \<in> set (pseudoMoves C b (piece t))) (cells (tiles b))"

section \<open>The in-place loop\<close>

lemma erase_spaces_forEach_step:
  "erase_spaces (b'\<lparr>tiles := grid_map_at (tiles b') k (\<lambda>y. y\<lparr>spacesToMove := xs\<rparr>)\<rparr>) = erase_spaces b'"
  by (simp add: erase_spaces_def map_map_grid_map_at_absorb)

lemma forEachTile_fold_const:
  assumes "\<And>b'. erase_spaces b' = erase_spaces b \<Longrightarrow> f b' = f b"
    and "erase_spaces b' = erase_spaces b"
  shows "fold (\<lambda>(k, t) b'. b'\<lparr>tiles := grid_map_at (tiles b') k (\<lambda>y. y\<lparr>spacesToMove := f b' k t\<rparr>)\<rparr>) L b' =
         b'\<lparr>tiles := fold (\<lambda>(k, t) g. grid_map_at g k (\<lambda>y. y\<lparr>spacesToMove := f b k t\<rparr>)) L (tiles b')\<rparr>"
  using assms(2)
proof (induction L arbitrary: b')
  case Nil
  then show ?case by simp
next
  case (Cons kt L)
  obtain k t where kt: "kt = (k, t)" by fastforce
  from Cons.prems have fb: "f b' = f b" by (rule assms(1))
  let ?b1 = "b'\<lparr>tiles := grid_map_at (tiles b') k (\<lambda>y. y\<lparr>spacesToMove := f b' k t\<rparr>)\<rparr>"
  have "erase_spaces ?b1 = erase_spaces b"
    using Cons.prems by (simp only: erase_spaces_forEach_step)
  from Cons.IH [OF this] fb show ?case by (simp add: kt)
qed

theorem forEachTile_simultaneous:
  assumes "\<And>b'. erase_spaces b' = erase_spaces b \<Longrightarrow> f b' = f b"
  shows "forEachTile f b = b\<lparr>tiles := map_cells (\<lambda>k t. t\<lparr>spacesToMove := f b k t\<rparr>) (tiles b)\<rparr>"
proof -
  have "forEachTile f b =
        b\<lparr>tiles := fold (\<lambda>(k, t) g. grid_map_at g k (\<lambda>y. y\<lparr>spacesToMove := f b k t\<rparr>)) (cells (tiles b)) (tiles b)\<rparr>"
    unfolding forEachTile_def
    by (rule forEachTile_fold_const [where f = f and b = b and b' = b, OF assms refl])
  also have "\<dots> = b\<lparr>tiles := map_cells (\<lambda>k t. t\<lparr>spacesToMove := f b k t\<rparr>) (tiles b)\<rparr>"
    by (simp only: fold_grid_map_at_cells)
  finally show ?thesis .
qed

section \<open>The caches do not matter to a blind capability\<close>

lemma candidates_erase_spaces [simp]: "candidates (erase_spaces b) = candidates b"
proof -
  have "length (tiles (erase_spaces b)) = length (tiles b)"
    using erase_spaces_fields(4) [of b] by (rule map_eq_imp_length_eq)
  then show ?thesis by (simp add: candidates_def)
qed

lemma pseudoMoves_erase_spaces:
  "spaces_blind C \<Longrightarrow> pseudoMoves C (erase_spaces b) p = pseudoMoves C b p"
  by (simp add: pseudoMoves_def spaces_blindD(1) [of C b])

lemma pseudoMoves_cong:
  assumes "spaces_blind C" and "erase_spaces b' = erase_spaces b"
  shows "pseudoMoves C b' = pseudoMoves C b"
proof
  fix p
  have "pseudoMoves C b' p = pseudoMoves C (erase_spaces b') p"
    by (simp add: pseudoMoves_erase_spaces [OF assms(1)])
  also have "\<dots> = pseudoMoves C b p"
    by (simp add: assms(2) pseudoMoves_erase_spaces [OF assms(1)])
  finally show "pseudoMoves C b' p = pseudoMoves C b p" .
qed

lemma refreshPseudo_simultaneous:
  assumes "spaces_blind C"
  shows "refreshPseudo C nb =
           nb\<lparr>tiles := map_cells (\<lambda>k t. t\<lparr>spacesToMove := pseudoMoves C nb (piece t)\<rparr>) (tiles nb)\<rparr>"
  unfolding refreshPseudo_def
proof (rule forEachTile_simultaneous)
  fix b' assume "erase_spaces b' = erase_spaces nb"
  from pseudoMoves_cong [OF assms this]
  show "(\<lambda>k t. pseudoMoves C b' (piece t)) = (\<lambda>k t. pseudoMoves C nb (piece t))" by simp
qed

lemma refreshPseudo_erase_spaces:
  assumes "spaces_blind C"
  shows "refreshPseudo C (erase_spaces nb) = refreshPseudo C nb"
proof -
  let ?F = "\<lambda>k t. t\<lparr>spacesToMove := pseudoMoves C nb (piece t)\<rparr>"
  have "refreshPseudo C (erase_spaces nb) =
          (erase_spaces nb)\<lparr>tiles := map_cells ?F (tiles (erase_spaces nb))\<rparr>"
    by (simp add: refreshPseudo_simultaneous [OF assms] pseudoMoves_erase_spaces [OF assms])
  also have "map_cells ?F (tiles (erase_spaces nb)) = map_cells ?F (tiles nb)"
    by (simp add: erase_spaces_def map_cells_map_map)
  also have "(erase_spaces nb)\<lparr>tiles := map_cells ?F (tiles nb)\<rparr> = nb\<lparr>tiles := map_cells ?F (tiles nb)\<rparr>"
    by (simp add: erase_spaces_def)
  also have "\<dots> = refreshPseudo C nb"
    by (simp add: refreshPseudo_simultaneous [OF assms])
  finally show ?thesis .
qed

lemma hypothetical_erase_spaces:
  assumes "spaces_blind C"
  shows "hypothetical C (erase_spaces b) d p = hypothetical C b d p"
proof -
  have "hypothetical C (erase_spaces b) d p = refreshPseudo C (erase_spaces (fst (makeMove C (erase_spaces b) d p)))"
    by (simp add: hypothetical_def refreshPseudo_erase_spaces [OF assms])
  also have "\<dots> = refreshPseudo C (erase_spaces (fst (makeMove C b d p)))"
    by (simp add: spaces_blindD(2) [OF assms, of b d p])
  also have "\<dots> = hypothetical C b d p"
    by (simp add: hypothetical_def refreshPseudo_erase_spaces [OF assms])
  finally show ?thesis .
qed

lemma legalMoves_erase_spaces:
  assumes "spaces_blind C"
  shows "legalMoves C (erase_spaces b) = legalMoves C b"
  by (intro ext)
     (simp add: legalMoves_def hypothetical_erase_spaces [OF assms] spaces_blindD(1) [OF assms, of b])

theorem populateAvailableMoves_eq_spec:
  assumes "spaces_blind C"
  shows "populateAvailableMoves C b = populateSpec C b"
proof (cases "deployed b")
  case False
  then show ?thesis by (simp add: populateAvailableMoves_def populateSpec_def deployed_def)
next
  case True
  have "forEachTile (legalMoves C) b =
          b\<lparr>tiles := map_cells (\<lambda>k t. t\<lparr>spacesToMove := legalMoves C b k t\<rparr>) (tiles b)\<rparr>"
  proof (rule forEachTile_simultaneous)
    fix b' assume "erase_spaces b' = erase_spaces b"
    then have "legalMoves C (erase_spaces b') = legalMoves C (erase_spaces b)" by simp
    then show "legalMoves C b' = legalMoves C b"
      by (simp only: legalMoves_erase_spaces [OF assms])
  qed
  with True show ?thesis by (simp add: populateAvailableMoves_def populateSpec_def deployed_def)
qed

section \<open>What the check detector sees on a hypothetical board\<close>

lemma findOpponentKing_map_cells_spaces:
  "findOpponentKing c (map_cells (\<lambda>k t. t\<lparr>spacesToMove := F k t\<rparr>) g) = findOpponentKing c g"
  by (simp add: findOpponentKing_def cells_map_cells fold_map comp_def split_def)

lemma inCheck_hypothetical:
  assumes "spaces_blind C"
  shows "inCheck c (tiles (hypothetical C b d p)) =
           (case findOpponentKing c (tiles (fst (makeMove C b d p))) of
              None \<Rightarrow> True
            | Some k \<Rightarrow> attackedBy C (fst (makeMove C b d p)) c k)"
  by (simp add: hypothetical_def refreshPseudo_simultaneous [OF assms] inCheck_def
      findOpponentKing_map_cells_spaces attackedBy_def cells_map_cells list_ex_iff
      case_prod_beta split: option.split)

lemma findOpponentKing_fold_Some:
  "fold (\<lambda>(k, t) acc. if ptype (piece t) = King \<and> pcolor (piece t) \<noteq> c \<and> pcolor (piece t) \<noteq> Null
                      then Some k else acc) L a = Some k \<Longrightarrow>
   a = Some k \<or> (\<exists>t. (k, t) \<in> set L \<and> ptype (piece t) = King \<and> pcolor (piece t) \<noteq> c \<and> pcolor (piece t) \<noteq> Null)"
proof (induction L arbitrary: a)
  case Nil
  then show ?case by simp
next
  case (Cons x L)
  obtain k' t' where x: "x = (k', t')" by fastforce
  from Cons.prems x Cons.IH show ?case
    by (cases "ptype (piece t') = King \<and> pcolor (piece t') \<noteq> c \<and> pcolor (piece t') \<noteq> Null") force+
qed

lemma fold_match_unique:
  "\<forall>(k', t') \<in> set L. P t' \<longrightarrow> k' = k \<Longrightarrow>
   fold (\<lambda>(k, t) acc. if P t then Some k else acc) L a = (if \<exists>(k', t') \<in> set L. P t' then Some k else a)"
  by (induction L arbitrary: a) auto

lemma findOpponentKing_Some:
  assumes "findOpponentKing c ts = Some k"
  shows "\<exists>t. grid_get ts k = Some t \<and> ptype (piece t) = King \<and> pcolor (piece t) \<noteq> c \<and> pcolor (piece t) \<noteq> Null"
  using findOpponentKing_fold_Some [of c "cells ts" None k] assms
  by (auto simp: findOpponentKing_def set_cells)

section \<open>The legal-move caches\<close>

lemma populateAvailableMoves_gate: "\<not> deployed b \<Longrightarrow> populateAvailableMoves C b = b"
  by (simp add: populateAvailableMoves_def deployed_def)

lemma grid_get_populateSpec:
  "deployed b \<Longrightarrow> grid_get (tiles (populateSpec C b)) k =
     map_option (\<lambda>t. t\<lparr>spacesToMove := legalMoves C b k t\<rparr>) (grid_get (tiles b) k)"
  by (simp add: populateSpec_def grid_get_map_cells)

lemma map_length_populateAvailableMoves [simp]:
  "spaces_blind C \<Longrightarrow> map length (tiles (populateAvailableMoves C b)) = map length (tiles b)"
  by (simp add: populateAvailableMoves_eq_spec populateSpec_def)

lemma fold_tiles_update_fields:
  "vanguards (fold (\<lambda>(k, t) b'. b'\<lparr>tiles := G b' k t\<rparr>) L b') = vanguards b' \<and>
   whiteVanguards (fold (\<lambda>(k, t) b'. b'\<lparr>tiles := G b' k t\<rparr>) L b') = whiteVanguards b' \<and>
   blackVanguards (fold (\<lambda>(k, t) b'. b'\<lparr>tiles := G b' k t\<rparr>) L b') = blackVanguards b'"
  by (induction L arbitrary: b') auto

lemma populateAvailableMoves_fields [simp]:
  "vanguards (populateAvailableMoves C b) = vanguards b"
  "whiteVanguards (populateAvailableMoves C b) = whiteVanguards b"
  "blackVanguards (populateAvailableMoves C b) = blackVanguards b"
  by (simp_all add: populateAvailableMoves_def forEachTile_def fold_tiles_update_fields)

lemma fold_spaces_update_shape:
  "map (map piece) (tiles (fold (\<lambda>(k, t) b'. b'\<lparr>tiles := grid_map_at (tiles b') k (\<lambda>y. y\<lparr>spacesToMove := f b' k t\<rparr>)\<rparr>) L b')) =
     map (map piece) (tiles b') \<and>
   map length (tiles (fold (\<lambda>(k, t) b'. b'\<lparr>tiles := grid_map_at (tiles b') k (\<lambda>y. y\<lparr>spacesToMove := f b' k t\<rparr>)\<rparr>) L b')) =
     map length (tiles b')"
  by (induction L arbitrary: b') (auto simp: map_map_grid_map_at_absorb)

lemma populateAvailableMoves_shape:
  "map (map piece) (tiles (populateAvailableMoves C b)) = map (map piece) (tiles b)"
  "map length (tiles (populateAvailableMoves C b)) = map length (tiles b)"
  by (simp_all add: populateAvailableMoves_def forEachTile_def fold_spaces_update_shape)

lemma grid_get_populateAvailableMoves_piece:
  "map_option piece (grid_get (tiles (populateAvailableMoves C b)) k) = map_option piece (grid_get (tiles b) k)"
  by (metis grid_get_map_map populateAvailableMoves_shape(1))

lemma legalMoves_iff:
  assumes "spaces_blind C"
  shows "d \<in> set (legalMoves C b k t) \<longleftrightarrow>
           ptype (piece t) \<noteq> Empty \<and> d \<in> set (candidates b) \<and> tryMove C b d (piece t) \<and>
           (\<exists>kk. findOpponentKing (otherColor (pcolor (piece t))) (tiles (fst (makeMove C b d (piece t)))) = Some kk \<and>
                 \<not> attackedBy C (fst (makeMove C b d (piece t))) (otherColor (pcolor (piece t))) kk)"
  by (auto simp: legalMoves_def inCheck_hypothetical [OF assms] split: option.splits)

section \<open>Correctness of the legal-move generator\<close>

text \<open>C1. Every move the generator offers is pseudo-legal, and after it the mover's king
  stands on the board and no opposing piece attacks it (king-safety filtering).\<close>

theorem populate_king_safe:
  assumes blind: "spaces_blind C" and dep: "deployed b"
    and t: "grid_get (tiles (populateAvailableMoves C b)) k = Some t"
    and d: "d \<in> set (spacesToMove t)" and col: "pcolor (piece t) \<noteq> Null"
  shows "tryMove C b d (piece t) \<and>
         (\<exists>kk tk. grid_get (tiles (fst (makeMove C b d (piece t)))) kk = Some tk \<and>
                 ptype (piece tk) = King \<and> pcolor (piece tk) = pcolor (piece t) \<and>
                 \<not> attackedBy C (fst (makeMove C b d (piece t))) (otherColor (pcolor (piece t))) kk)"
proof -
  from t dep obtain t0 where t0: "grid_get (tiles b) k = Some t0"
    and tt: "t = t0\<lparr>spacesToMove := legalMoves C b k t0\<rparr>"
    by (auto simp: populateAvailableMoves_eq_spec [OF blind] grid_get_populateSpec)
  let ?c = "pcolor (piece t0)" and ?nb = "fst (makeMove C b d (piece t0))"
  from d tt have "d \<in> set (legalMoves C b k t0)" by simp
  then obtain kk where tm: "tryMove C b d (piece t0)"
    and kk: "findOpponentKing (otherColor ?c) (tiles ?nb) = Some kk"
    and safe: "\<not> attackedBy C ?nb (otherColor ?c) kk"
    by (auto simp: legalMoves_iff [OF blind])
  from findOpponentKing_Some [OF kk] obtain tk where tk: "grid_get (tiles ?nb) kk = Some tk"
    and king: "ptype (piece tk) = King" and ne: "pcolor (piece tk) \<noteq> otherColor ?c"
    and nn: "pcolor (piece tk) \<noteq> Null"
    by blast
  from col tt ne nn have "pcolor (piece tk) = ?c"
    by (cases "pcolor (piece tk)"; cases ?c) auto
  moreover from tt have pt: "piece t = piece t0" by simp
  ultimately show ?thesis using tm tk king safe unfolding pt by blast
qed

text \<open>C2. The in-place, tile-by-tile recomputation of the source computes exactly the
  simultaneous recomputation of the specification, for every capability that ignores the
  caches.\<close>

theorem populate_sequential_eq_simultaneous:
  "spaces_blind C \<Longrightarrow>
   populateAvailableMoves C b =
     (if \<not> deployed b then b
      else b\<lparr>tiles := map_cells (\<lambda>k t. t\<lparr>spacesToMove := legalMoves C b k t\<rparr>) (tiles b)\<rparr>)"
  using populateAvailableMoves_eq_spec [of C b] by (simp add: populateSpec_def)

text \<open>C13. On a board whose caches hold the pseudo-legal destinations (the hypothetical board
  of the king-safety test), with one king of the other colour at \<open>k\<close>, the check detector
  reports exactly that a piece of the colour attacks \<open>k\<close>.\<close>

theorem inCheck_refreshed:
  assumes "spaces_blind C" and "grid_get (tiles b) k = Some t" and "ptype (piece t) = King"
    and "pcolor (piece t) \<noteq> c" and "pcolor (piece t) \<noteq> Null"
    and "\<forall>k' t'. grid_get (tiles b) k' = Some t' \<and> ptype (piece t') = King \<and> pcolor (piece t') \<noteq> c \<and>
                 pcolor (piece t') \<noteq> Null \<longrightarrow> k' = k"
  shows "inCheck c (tiles (refreshPseudo C b)) = attackedBy C b c k"
proof -
  let ?P = "\<lambda>t. ptype (piece t) = King \<and> pcolor (piece t) \<noteq> c \<and> pcolor (piece t) \<noteq> Null"
  have u: "\<forall>(k', t') \<in> set (cells (tiles b)). ?P t' \<longrightarrow> k' = k" using assms(6) by (auto simp: set_cells)
  have e: "\<exists>(k', t') \<in> set (cells (tiles b)). ?P t'" using assms(2-5) by (auto simp: set_cells)
  have "findOpponentKing c (tiles b) = Some k"
    unfolding findOpponentKing_def using fold_match_unique [OF u, of None] e by simp
  then show ?thesis
    by (simp add: refreshPseudo_simultaneous [OF assms(1)] inCheck_def findOpponentKing_map_cells_spaces
        attackedBy_def cells_map_cells list_ex_iff case_prod_beta)
qed

section \<open>Witnesses\<close>

theorem populate_king_safe_witness:
  "let t = the (grid_get (tiles (populateAvailableMoves sampleCap pinnedBoard)) (1, 0)) in
   tryMove sampleCap pinnedBoard (0, 0) (piece t) \<and>
   (\<exists>kk tk. grid_get (tiles (fst (makeMove sampleCap pinnedBoard (0, 0) (piece t)))) kk = Some tk \<and>
            ptype (piece tk) = King \<and> pcolor (piece tk) = pcolor (piece t) \<and>
            \<not> attackedBy sampleCap (fst (makeMove sampleCap pinnedBoard (0, 0) (piece t)))
                 (otherColor (pcolor (piece t))) kk)"
proof -
  define t where "t = the (grid_get (tiles (populateAvailableMoves sampleCap pinnedBoard)) (1, 0))"
  have g: "grid_get (tiles (populateAvailableMoves sampleCap pinnedBoard)) (1, 0) = Some t"
    unfolding t_def by code_simp
  have d: "(0, 0) \<in> set (spacesToMove t)" unfolding t_def by code_simp
  have c: "pcolor (piece t) \<noteq> Null" unfolding t_def by code_simp
  have dep: "deployed pinnedBoard" by (simp add: deployed_def pinnedBoard_def)
  from populate_king_safe [OF sampleCap_spaces_blind dep g d c] show ?thesis
    by (simp add: t_def Let_def)
qed

theorem populate_sequential_eq_simultaneous_witness:
  "spaces_blind sampleCap \<and>
   populateAvailableMoves sampleCap pinnedBoard =
     (if \<not> deployed pinnedBoard then pinnedBoard
      else pinnedBoard\<lparr>tiles := map_cells (\<lambda>k t. t\<lparr>spacesToMove := legalMoves sampleCap pinnedBoard k t\<rparr>)
                                      (tiles pinnedBoard)\<rparr>)"
  using populate_sequential_eq_simultaneous [OF sampleCap_spaces_blind] sampleCap_spaces_blind
  by blast

theorem inCheck_refreshed_witness:
  "\<not> inCheck Black (tiles (refreshPseudo sampleCap pinnedBoard)) \<and> \<not> attackedBy sampleCap pinnedBoard Black (2, 0)"
proof -
  define t where "t = the (grid_get (tiles pinnedBoard) (2, 0))"
  have g: "grid_get (tiles pinnedBoard) (2, 0) = Some t" unfolding t_def by code_simp
  have k: "ptype (piece t) = King" "pcolor (piece t) \<noteq> Black" "pcolor (piece t) \<noteq> Null"
    unfolding t_def by code_simp+
  have "\<forall>(k', t') \<in> set (cells (tiles pinnedBoard)). ptype (piece t') = King \<and> pcolor (piece t') \<noteq> Black \<and>
          pcolor (piece t') \<noteq> Null \<longrightarrow> k' = (2, 0)" by code_simp
  then have u: "\<forall>k' t'. grid_get (tiles pinnedBoard) k' = Some t' \<and> ptype (piece t') = King \<and> pcolor (piece t') \<noteq> Black \<and>
                 pcolor (piece t') \<noteq> Null \<longrightarrow> k' = (2, 0)" by (auto simp: set_cells)
  have a: "\<not> attackedBy sampleCap pinnedBoard Black (2, 0)" by code_simp
  show ?thesis using inCheck_refreshed [OF sampleCap_spaces_blind g k u] a by simp
qed

end
