(* ===== verification/Chess_Setup.thy ===== *)
theory Chess_Setup
  imports Chess_Piece
begin

text \<open>
  Board initialisation: \<open>createGame(size)\<close> of \<open>src/ChessGameEngine.ts\<close> (lines
  242--486) with its five literal layouts, and the constructor's initial state (lines
  11--20). A row written \<open>[{ piece: new ChessPiece(c, t), spacesToMove: [] }, ...]\<close> is
  \<open>backRow c [t, ...]\<close>; a row written \<open>new Array(n).fill(0).map(x => ...)\<close> is
  \<open>fillRow n c t\<close>. The \<open>switch\<close> is \<open>boardSetup\<close>: the quota and the layout
  for a requested size, with the \<open>default\<close> branch for every other number.
\<close>

definition backRow :: "color \<Rightarrow> piece_type list \<Rightarrow> tile list" where
  "backRow c tys = map (\<lambda>ty. \<lparr>piece = newChessPiece c ty, spacesToMove = []\<rparr>) tys"

definition fillRow :: "nat \<Rightarrow> color \<Rightarrow> piece_type \<Rightarrow> tile list" where
  "fillRow n c ty = replicate n \<lparr>piece = newChessPiece c ty, spacesToMove = []\<rparr>"

definition layout8 :: "tile list list" where
  "layout8 =
     [backRow Black [Rook, Knight, Bishop, Queen, King, Bishop, Knight, Rook],
      fillRow 8 Black Pawn,
      fillRow 8 Null Empty, fillRow 8 Null Empty, fillRow 8 Null Empty, fillRow 8 Null Empty,
      fillRow 8 White Pawn,
      backRow White [Rook, Knight, Bishop, Queen, King, Bishop, Knight, Rook]]"

definition layout10 :: "tile list list" where
  "layout10 =
     [backRow Black [Rook, Knight, Knight, Bishop, Queen, King, Bishop, Knight, Knight, Rook],
      fillRow 10 Black Pawn,
      fillRow 10 Null Empty, fillRow 10 Null Empty, fillRow 10 Null Empty,
      fillRow 10 Null Empty, fillRow 10 Null Empty, fillRow 10 Null Empty,
      fillRow 10 White Pawn,
      backRow White [Rook, Knight, Knight, Bishop, Queen, King, Bishop, Knight, Knight, Rook]]"

definition layout12 :: "tile list list" where
  "layout12 =
     [backRow Black [Rook, Knight, Knight, Bishop, Bishop, Queen, King, Bishop, Bishop, Knight, Knight, Rook],
      fillRow 12 Black Pawn,
      fillRow 12 Null Empty, fillRow 12 Null Empty, fillRow 12 Null Empty, fillRow 12 Null Empty,
      fillRow 12 Null Empty, fillRow 12 Null Empty, fillRow 12 Null Empty, fillRow 12 Null Empty,
      fillRow 12 White Pawn,
      backRow White [Rook, Knight, Knight, Bishop, Bishop, Queen, King, Bishop, Bishop, Knight, Knight, Rook]]"

definition layout14 :: "tile list list" where
  "layout14 =
     [backRow Black [Rook, Rook, Knight, Knight, Bishop, Bishop, Queen, King, Bishop, Bishop,
                     Knight, Knight, Rook, Rook],
      fillRow 14 Black Pawn,
      fillRow 14 Null Empty, fillRow 14 Null Empty, fillRow 14 Null Empty, fillRow 14 Null Empty,
      fillRow 14 Null Empty, fillRow 14 Null Empty, fillRow 14 Null Empty, fillRow 14 Null Empty,
      fillRow 14 Null Empty, fillRow 14 Null Empty,
      fillRow 14 White Pawn,
      backRow White [Rook, Rook, Knight, Knight, Bishop, Bishop, Queen, King, Bishop, Bishop,
                     Knight, Knight, Rook, Rook]]"

text \<open>The 16-square layout builds its first five black pieces with the three-argument
  constructor, which sets the coordinate at once.\<close>

definition layout16 :: "tile list list" where
  "layout16 =
     [map (\<lambda>(ty, k). \<lparr>piece = newChessPieceAt Black ty k, spacesToMove = []\<rparr>)
          [(Rook, (0, 0)), (Rook, (0, 1)), (Knight, (0, 2)), (Knight, (0, 3)), (Bishop, (0, 4))] @
      backRow Black [Bishop, Queen, Queen, King, Queen, Bishop, Bishop, Knight, Knight, Rook, Rook],
      fillRow 16 Black Pawn,
      fillRow 16 Null Empty, fillRow 16 Null Empty, fillRow 16 Null Empty, fillRow 16 Null Empty,
      fillRow 16 Null Empty, fillRow 16 Null Empty, fillRow 16 Null Empty, fillRow 16 Null Empty,
      fillRow 16 Null Empty, fillRow 16 Null Empty, fillRow 16 Null Empty, fillRow 16 Null Empty,
      fillRow 16 White Pawn,
      backRow White [Rook, Rook, Knight, Knight, Bishop, Bishop, Queen, Queen, King, Queen, Bishop,
                     Bishop, Knight, Knight, Rook, Rook]]"

definition layoutDefault :: "tile list list" where
  "layoutDefault =
     [backRow Black [Rook, Knight, Bishop, Queen, King, Bishop, Knight, Rook],
      fillRow 8 Black Pawn,
      fillRow 8 Null Empty, fillRow 8 Null Empty, fillRow 8 Null Empty, fillRow 8 Null Empty,
      fillRow 8 White Pawn,
      backRow White [Rook, Knight, Bishop, Queen, King, Bishop, Knight, Rook]]"

text \<open>\<open>switch (size)\<close>: the vanguard quota and the layout.\<close>

definition boardSetup :: "int \<Rightarrow> nat \<times> tile list list" where
  "boardSetup sz =
     (if sz = 8 then (2, layout8)
      else if sz = 10 then (2, layout10)
      else if sz = 12 then (3, layout12)
      else if sz = 14 then (3, layout14)
      else if sz = 16 then (4, layout16)
      else (2, layoutDefault))"

definition emptyLog :: move_log where
  "emptyLog = \<lparr>blackMoves = [], whiteMoves = []\<rparr>"

definition createGame :: "int \<Rightarrow> engine \<Rightarrow> engine" where
  "createGame sz e =
     (let g = (game e)\<lparr>playersTurn := White, winner := Null, boardLength := sz,
                        stalemate := False, gInCheck := Null, takenPieces := []\<rparr>;
          (q, ts) = boardSetup sz;
          b = (board e)\<lparr>whiteVanguards := 0, blackVanguards := 0, vanguards := q,
                         tiles := assignCoords ts\<rparr>
      in e\<lparr>board := b, game := g, mlog := emptyLog\<rparr>)"

text \<open>The fields as the constructor sets them before it calls \<open>createGame()\<close>.\<close>

definition engine0 :: engine where
  "engine0 =
     \<lparr>board = \<lparr>tiles = [[]], vanguards = 0, whiteVanguards = 0, blackVanguards = 0\<rparr>,
      game = \<lparr>playersTurn = White, gInCheck = Null, winner = Null, stalemate = False,
              boardLength = 0, started = False, takenPieces = []\<rparr>,
      mlog = emptyLog\<rparr>"

text \<open>Properties of a starting layout, as executable checks: the number of kings of a
  colour, colour-consistency (a square is empty exactly when its colour is \<open>Null\<close>),
  mirror symmetry (row \<open>r\<close> and row \<open>n - 1 - r\<close> hold the same types in swapped
  colours), empty caches and correct coordinate back-references.\<close>

definition supportedSize :: "int \<Rightarrow> bool" where
  "supportedSize sz \<longleftrightarrow> sz = 8 \<or> sz = 10 \<or> sz = 12 \<or> sz = 14 \<or> sz = 16"

definition kingCount :: "color \<Rightarrow> tile list list \<Rightarrow> nat" where
  "kingCount c ts = length (filter (\<lambda>(k, t). ptype (piece t) = King \<and> pcolor (piece t) = c) (cells ts))"

definition mirrorColor :: "color \<Rightarrow> color" where
  "mirrorColor c = (case c of White \<Rightarrow> Black | Black \<Rightarrow> White | Null \<Rightarrow> Null)"

definition mirrored :: "tile list list \<Rightarrow> bool" where
  "mirrored ts =
     list_all (\<lambda>((r, c), t).
       map_option (\<lambda>t'. (ptype (piece t'), pcolor (piece t'))) (grid_get ts (int (length ts) - 1 - r, c)) =
         Some (ptype (piece t), mirrorColor (pcolor (piece t))))
       (cells ts)"

definition colorConsistent :: "tile list list \<Rightarrow> bool" where
  "colorConsistent ts = list_all (\<lambda>(_, t). (ptype (piece t) = Empty) = (pcolor (piece t) = Null)) (cells ts)"

definition cachesEmpty :: "tile list list \<Rightarrow> bool" where
  "cachesEmpty ts = list_all (\<lambda>(_, t). spacesToMove t = []) (cells ts)"

definition coordsAssigned :: "tile list list \<Rightarrow> bool" where
  "coordsAssigned ts = list_all (\<lambda>(k, t). pcoord (piece t) = Some k) (cells ts)"

definition goodLayout :: "nat \<Rightarrow> tile list list \<Rightarrow> bool" where
  "goodLayout n ts \<longleftrightarrow> square n ts \<and> kingCount White ts = 1 \<and> kingCount Black ts = 1 \<and>
     mirrored ts \<and> colorConsistent ts \<and> cachesEmpty ts"

lemma layouts_good:
  "goodLayout 8 layout8" "goodLayout 10 layout10" "goodLayout 12 layout12"
  "goodLayout 14 layout14" "goodLayout 16 layout16" "goodLayout 8 layoutDefault"
  by code_simp+

lemma assignCoords_good:
  "goodLayout n (assignCoords ts) = goodLayout n ts"
proof -
  have "square n (assignCoords ts) = square n ts"
    by (rule square_map_length) simp
  moreover have "kingCount c (assignCoords ts) = kingCount c ts" for c
    by (simp add: kingCount_def cells_assignCoords filter_map comp_def split_def)
  moreover have "mirrored (assignCoords ts) = mirrored ts"
    by (simp add: mirrored_def cells_assignCoords list.pred_map comp_def split_def
        grid_get_assignCoords option.map_comp)
  moreover have "colorConsistent (assignCoords ts) = colorConsistent ts"
    by (simp add: colorConsistent_def cells_assignCoords list.pred_map comp_def split_def)
  moreover have "cachesEmpty (assignCoords ts) = cachesEmpty ts"
    by (simp add: cachesEmpty_def cells_assignCoords list.pred_map comp_def split_def)
  ultimately show ?thesis by (simp add: goodLayout_def)
qed

lemma coordsAssigned_assignCoords: "coordsAssigned (assignCoords ts)"
  by (simp add: coordsAssigned_def cells_assignCoords list.pred_map comp_def split_def list_all_iff)

lemma boardSetup_good:
  "goodLayout (if supportedSize sz then nat sz else 8) (snd (boardSetup sz))"
  using layouts_good by (simp add: boardSetup_def supportedSize_def)

lemma boardSetup_quota:
  "fst (boardSetup sz) = (if sz = 12 \<or> sz = 14 then 3 else if sz = 16 then 4 else 2)"
  by (simp add: boardSetup_def)

lemma createGame_sel:
  "board (createGame sz e) =
     (board e)\<lparr>whiteVanguards := 0, blackVanguards := 0, vanguards := fst (boardSetup sz),
                tiles := assignCoords (snd (boardSetup sz))\<rparr>"
  "game (createGame sz e) =
     (game e)\<lparr>playersTurn := White, winner := Null, boardLength := sz,
               stalemate := False, gInCheck := Null, takenPieces := []\<rparr>"
  "mlog (createGame sz e) = emptyLog"
  by (simp_all add: createGame_def Let_def split: prod.split)

lemma createGame_cachesEmpty: "cachesEmpty (tiles (board (createGame sz e)))"
proof -
  have "goodLayout (if supportedSize sz then nat sz else 8) (assignCoords (snd (boardSetup sz)))"
    by (simp add: assignCoords_good boardSetup_good)
  then show ?thesis by (simp add: createGame_sel goodLayout_def)
qed

section \<open>Properties of the initialiser\<close>

text \<open>C3. \<open>createGame(size)\<close> produces, for every requested size, the starting position:
  an \<open>n \<times> n\<close> board (\<open>n\<close> the size when it is one of 8, 10, 12, 14, 16 and 8 otherwise)
  with one king of each colour, mirror-symmetric, colour-consistent, with empty caches and
  every piece knowing its square; the vanguard quota of the size table with both counters
  at zero; White to move, nobody in check, no winner, no stalemate, nothing taken, an
  empty log.\<close>

theorem createGame_initial_position:
  "let e' = createGame sz e; b = board e' in
     goodLayout (if supportedSize sz then nat sz else 8) (tiles b) \<and> coordsAssigned (tiles b) \<and>
     vanguards b = (if sz = 12 \<or> sz = 14 then 3 else if sz = 16 then 4 else 2) \<and>
     whiteVanguards b = 0 \<and> blackVanguards b = 0 \<and>
     playersTurn (game e') = White \<and> gInCheck (game e') = Null \<and> winner (game e') = Null \<and>
     \<not> stalemate (game e') \<and> takenPieces (game e') = [] \<and> mlog e' = emptyLog"
  by (simp add: createGame_sel assignCoords_good boardSetup_good boardSetup_quota
      coordsAssigned_assignCoords Let_def)

text \<open>C4. Initialisation forgets the previous state: two engines that agree on the started
  flag, the one field \<open>createGame\<close> does not touch, are initialised to the same engine,
  whatever their boards, counters, game records and logs.\<close>

theorem createGame_forgets:
  assumes "started (game e1) = started (game e2)"
  shows "createGame sz e1 = createGame sz e2"
  using assms
  by (cases e1, cases e2, rename_tac b1 g1 l1 b2 g2 l2, case_tac b1, case_tac b2, case_tac g1, case_tac g2)
     (simp add: createGame_def Let_def split: prod.split)

theorem createGame_forgets_witness:
  "createGame 8 engine0 =
   createGame 8 (engine0\<lparr>game := (game engine0)\<lparr>winner := Black, stalemate := True, playersTurn := Black\<rparr>,
                         mlog := \<lparr>blackMoves = [], whiteMoves = [''e4'']\<rparr>\<rparr>)"
  by (rule createGame_forgets) (simp add: engine0_def)

text \<open>C5. An unsupported size falls back to the 8-square board, but \<open>boardLength\<close>
  records the requested number, not the board's side.\<close>

theorem createGame_fallback_boardLength:
  "\<not> supportedSize sz \<Longrightarrow>
   boardLength (game (createGame sz e)) = sz \<and> length (tiles (board (createGame sz e))) = 8"
  by (simp add: createGame_sel boardSetup_def supportedSize_def assignCoords_def map_cells_def layoutDefault_def)

theorem createGame_fallback_boardLength_witness:
  "\<not> supportedSize 9 \<and> boardLength (game (createGame 9 engine0)) = 9 \<and>
   length (tiles (board (createGame 9 engine0))) = 8"
proof -
  have h: "\<not> supportedSize 9" by (simp add: supportedSize_def)
  show ?thesis using createGame_fallback_boardLength [OF h, of engine0] h by simp
qed

end
