(* ===== verification/Chess_Notation.thy ===== *)
theory Chess_Notation
  imports Chess_Types
begin

text \<open>
  The algebraic move notation of the move log (\<open>src/ChessGameEngine.ts\<close>, lines
  194--208 of the make-move handler): the piece letter, the column letter from
  \<open>alphabet\<close>, the row number counted from 1, and \<open>+\<close> when the move gives check.
  \<open>parseMove\<close> reads an entry back; the round-trip lemma shows that the log determines the
  moved piece type, the destination and the check flag on every board up to 16 columns.
\<close>

definition alphabet :: "string list" where
  "alphabet = [''a'', ''b'', ''c'', ''d'', ''e'', ''f'', ''g'', ''h'', ''i'', ''j'', ''k'', ''l'',
               ''m'', ''n'', ''o'', ''p'']"

text \<open>The string values of \<open>PieceType\<close> (declared in \<open>./types\<close>, outside \<open>src/\<close>): the
  specification only fixes their first letters.\<close>

definition pieceTypeName :: "piece_type \<Rightarrow> string" where
  "pieceTypeName ty =
     (case ty of Empty \<Rightarrow> ''empty'' | Pawn \<Rightarrow> ''pawn'' | Knight \<Rightarrow> ''knight'' | Bishop \<Rightarrow> ''bishop''
      | Rook \<Rightarrow> ''rook'' | Queen \<Rightarrow> ''queen'' | King \<Rightarrow> ''king'' | Vanguard \<Rightarrow> ''vanguard'')"

definition upperChar :: "char \<Rightarrow> char" where
  "upperChar c = (let n = (of_char c :: nat) in if 97 \<le> n \<and> n \<le> 122 then char_of (n - 32) else c)"

text \<open>Lines 197--202: no letter for a pawn, \<open>N\<close> for a knight, the upper-cased first
  character of the type name otherwise.\<close>

definition pieceLetter :: "piece_type \<Rightarrow> string" where
  "pieceLetter ty =
     (if ty = Knight then ''N'' else if ty \<noteq> Pawn then map upperChar (take 1 (pieceTypeName ty)) else [])"

text \<open>Lines 194--208: the piece letter, \<open>alphabet[col]\<close> (the string \<open>undefined\<close>
  when out of range, as JavaScript concatenates it), \<open>row + 1\<close> in decimal, and
  \<open>+\<close> when the move gives check.\<close>

definition moveString :: "piece_type \<Rightarrow> coord \<Rightarrow> bool \<Rightarrow> string" where
  "moveString ty dest chk =
     pieceLetter ty @
     (case js_index alphabet (snd dest) of Some s \<Rightarrow> s | None \<Rightarrow> ''undefined'') @
     int_to_string (fst dest + 1) @
     (if chk then ''+'' else [])"

text \<open>Reading a log entry back: the inverse of \<open>moveString\<close> on the board's squares.\<close>

definition letterType :: "char \<Rightarrow> piece_type option" where
  "letterType c =
     (if c = CHR ''N'' then Some Knight else if c = CHR ''E'' then Some Empty
      else if c = CHR ''B'' then Some Bishop else if c = CHR ''R'' then Some Rook
      else if c = CHR ''Q'' then Some Queen else if c = CHR ''K'' then Some King
      else if c = CHR ''V'' then Some Vanguard else None)"

definition parseTail :: "piece_type \<Rightarrow> string \<Rightarrow> (piece_type \<times> coord \<times> bool) option" where
  "parseTail ty s =
     (case s of
        [] \<Rightarrow> None
      | ch # rest \<Rightarrow>
          (let col = int (of_char ch) - 97;
               chk = (rest \<noteq> [] \<and> last rest = CHR ''+'');
               ds = (if chk then butlast rest else rest)
           in if 0 \<le> col \<and> col < 16 then
                (case string_to_nat ds of
                   Some n \<Rightarrow> Some (ty, (int n - 1, col), chk)
                 | None \<Rightarrow> None)
              else None))"

definition parseMove :: "string \<Rightarrow> (piece_type \<times> coord \<times> bool) option" where
  "parseMove s =
     (case s of
        [] \<Rightarrow> None
      | c # cs \<Rightarrow>
          if 65 \<le> (of_char c :: nat) \<and> (of_char c :: nat) \<le> 90 then
            (case letterType c of None \<Rightarrow> None | Some ty \<Rightarrow> parseTail ty cs)
          else parseTail Pawn s)"

section \<open>Lemmas\<close>

lemma alphabet_nth: "i < 16 \<Longrightarrow> alphabet ! i = [char_of (97 + i)]"
proof -
  assume "i < 16"
  then have "i \<in> set [0..<16]" by simp
  then show ?thesis
    by (simp add: alphabet_def upt_rec del: upt_Suc) (elim disjE; (simp, code_simp?))
qed

lemma pieceLetter_cases:
  "(ty = Pawn \<and> pieceLetter ty = []) \<or>
   (\<exists>L. pieceLetter ty = [L] \<and> 65 \<le> (of_char L :: nat) \<and> (of_char L :: nat) \<le> 90 \<and> letterType L = Some ty)"
  by (cases ty; simp add: pieceLetter_def pieceTypeName_def upperChar_def letterType_def; code_simp)

lemma length_alphabet: "length alphabet = 16"
  by (simp add: alphabet_def)

lemma last_nat_to_string: "last (nat_to_string n) \<noteq> CHR ''+''"
proof
  assume eq: "last (nat_to_string n) = CHR ''+''"
  have "last (nat_to_string n) \<in> set (nat_to_string n)" by simp
  then have "48 \<le> (of_char (last (nat_to_string n)) :: nat)" by (blast dest: nat_to_string_digits)
  with eq show False by simp
qed

lemma parseTail_moveString:
  assumes "0 \<le> c" and "c < 16" and "0 \<le> r"
  shows "parseTail ty (char_of (97 + nat c) # nat_to_string (nat (r + 1)) @ (if chk then ''+'' else [])) =
         Some (ty, (r, c), chk)"
proof -
  have och: "(of_char (char_of (97 + nat c) :: char) :: nat) = 97 + nat c" using assms by simp
  have lastD: "last (nat_to_string (nat (r + 1))) \<noteq> CHR ''+''" by (rule last_nat_to_string)
  show ?thesis
    using assms lastD by (cases chk) (simp_all add: parseTail_def Let_def och)
qed


text \<open>C12. Log entries are unambiguous: on every square of a board with at most 16 columns,
  reading back the entry \<open>moveString\<close> writes gives the piece type, the destination and the
  check flag it was written from.\<close>

lemma moveString_roundtrip:
  assumes "0 \<le> c" and "c < 16" and "0 \<le> r"
  shows "parseMove (moveString ty (r, c) chk) = Some (ty, (r, c), chk)"
proof -
  let ?ch = "char_of (97 + nat c) :: char"
  have col: "js_index alphabet c = Some [?ch]"
    using assms by (simp add: js_index_def alphabet_nth length_alphabet nat_less_iff)
  have och: "(of_char ?ch :: nat) = 97 + nat c" using assms by simp
  have row: "int_to_string (r + 1) = nat_to_string (nat (r + 1))" using assms by (simp add: int_to_string_def)
  have ms: "moveString ty (r, c) chk =
            pieceLetter ty @ ?ch # nat_to_string (nat (r + 1)) @ (if chk then ''+'' else [])"
    by (simp add: moveString_def col row)
  from pieceLetter_cases [of ty] show ?thesis
  proof
    assume h: "ty = Pawn \<and> pieceLetter ty = []"
    then have pl: "pieceLetter ty = []" by (rule conjunct2)
    have "moveString ty (r, c) chk = ?ch # nat_to_string (nat (r + 1)) @ (if chk then ''+'' else [])"
      unfolding ms pl by simp
    with h och parseTail_moveString [OF assms, of Pawn chk] show ?thesis
      by (simp add: parseMove_def)
  next
    assume "\<exists>L. pieceLetter ty = [L] \<and> 65 \<le> (of_char L :: nat) \<and> (of_char L :: nat) \<le> 90 \<and> letterType L = Some ty"
    then obtain L where "pieceLetter ty = [L]" "65 \<le> (of_char L :: nat)" "(of_char L :: nat) \<le> 90"
      "letterType L = Some ty" by blast
    with parseTail_moveString [OF assms, of ty chk] show ?thesis
      by (simp add: ms parseMove_def)
  qed
qed

section \<open>Witnesses\<close>

theorem moveString_roundtrip_witness:
  "0 \<le> (5::int) \<and> (5::int) < 16 \<and> 0 \<le> (3::int) \<and> moveString Knight (3, 5) True = ''Nf4+'' \<and>
   parseMove (moveString Knight (3, 5) True) = Some (Knight, (3, 5), True)"
proof -
  have "moveString Knight (3, 5) True = ''Nf4+''" by code_simp
  then show ?thesis using moveString_roundtrip [of 5 3 Knight True] by simp
qed

end
