(* ===== verification/Chess_Engine.thy ===== *)
theory Chess_Engine
  imports Chess_MoveGen Chess_Setup Chess_Notation
begin

text \<open>
  The handlers of \<open>src/ChessGameEngine.ts\<close> that \<open>setupSocketConnectionsForUser\<close>
  registers (lines 117--240), \<open>addTakenPiece\<close> and \<open>addLogMessage\<close> (lines 106--115)
  and the constructor (lines 11--20): the Game State Machine, the Vanguard Deployment Phase
  and the Move Log.

  Each handler is a function from the engine state to \<open>error + engine\<close>: \<open>Inl\<close> is a
  \<open>TypeError\<close> the handler throws (reading a property of \<open>undefined\<close> after an
  out-of-range index, or calling \<open>this.addTakenPiece\<close> detached from its object), \<open>Inr\<close>
  the state when the handler returns; a rejected intent returns the state unchanged. The
  colour a handler reads is the one chosen with \<open>choose-team\<close> on the same registration,
  a parameter here. Broadcasting (\<open>sendMessageToAllUsers\<close>, \<open>socket.emit\<close>) has no
  effect on the state and is not modelled.
\<close>

datatype error = TypeErrorUndefined | TypeErrorUnboundThis

section \<open>Taken pieces and the move log\<close>

definition addTakenPiece :: "piece \<Rightarrow> game \<Rightarrow> game" where
  "addTakenPiece p g = g\<lparr>takenPieces := takenPieces g @ [p]\<rparr>"

definition addLogMessage :: "string \<Rightarrow> color \<Rightarrow> move_log \<Rightarrow> move_log" where
  "addLogMessage msg c l =
     (if c = Null then l
      else if c = White then l\<lparr>whiteMoves := whiteMoves l @ [msg]\<rparr>
      else l\<lparr>blackMoves := blackMoves l @ [msg]\<rparr>)"

section \<open>The make-move handler\<close>

text \<open>Line 182: \<open>tiles.some(row => row.some(tile => tile.piece.color === c &&
  tile.spacesToMove.length > 0))\<close>.\<close>

definition anyMoveFor :: "color \<Rightarrow> tile list list \<Rightarrow> bool" where
  "anyMoveFor c ts = list_ex (\<lambda>(_, t). pcolor (piece t) = c \<and> spacesToMove t \<noteq> []) (cells ts)"

text \<open>Lines 169--213, once \<open>makeMove\<close> has returned: notify every piece, hand the turn
  over, recompute the legal moves, record check (with the \<^emph>\<open>socket's\<close> colour, line 175),
  decide checkmate or stalemate, log the move.\<close>

definition afterMove :: "piece_capability \<Rightarrow> color \<Rightarrow> piece \<Rightarrow> coord \<Rightarrow> engine \<Rightarrow> engine" where
  "afterMove C color p dest e =
     (let b2 = (board e)\<lparr>tiles := map (map (\<lambda>t. t\<lparr>piece := moveMade C p (piece t)\<rparr>)) (tiles (board e))\<rparr>;
          g = game e;
          oldPlayer = playersTurn g;
          turn' = (if playersTurn g = White then Black else White);
          b3 = populateAvailableMoves C b2;
          ic = (if inCheck color (tiles b3) then turn' else Null);
          noMoves = \<not> anyMoveFor turn' (tiles b3);
          g' = g\<lparr>playersTurn := turn', gInCheck := ic,
                  winner := (if noMoves \<and> colorTruthy ic then oldPlayer else winner g),
                  stalemate := (if noMoves \<and> \<not> colorTruthy ic then True else stalemate g)\<rparr>
      in e\<lparr>board := b3, game := g',
           mlog := addLogMessage (moveString (ptype p) dest (ic \<noteq> Null)) (pcolor p) (mlog e)\<rparr>)"

text \<open>Lines 155--215. The capture callback is \<open>this.addTakenPiece\<close> passed without its
  object: when \<open>makeMove\<close> calls it, \<open>this\<close> is \<open>undefined\<close> in the module's strict
  code and the handler throws.\<close>

definition makeMoveHandler :: "piece_capability \<Rightarrow> color \<Rightarrow> coord \<Rightarrow> coord \<Rightarrow> engine \<Rightarrow> error + engine" where
  "makeMoveHandler C color src dest e =
     (let b = board e in
      if blackVanguards b < vanguards b \<or> whiteVanguards b < vanguards b then Inr e
      else
        case js_index (tiles b) (fst src) of
          None \<Rightarrow> Inl TypeErrorUndefined
        | Some row \<Rightarrow>
            (case js_index row (snd src) of
               None \<Rightarrow> Inl TypeErrorUndefined
             | Some t \<Rightarrow>
                 (if playersTurn (game e) = pcolor (piece t) \<and> tryMove C b dest (piece t) then
                    (case makeMove C b dest (piece t) of
                       (b1, p1, captured) \<Rightarrow>
                         if captured \<noteq> None then Inl TypeErrorUnboundThis
                         else Inr (afterMove C color p1 dest (e\<lparr>board := b1\<rparr>)))
                  else Inr e)))"

section \<open>The place-vanguard handler\<close>

text \<open>One branch's condition of lines 220 and 226, evaluated left to right as JavaScript
  does: the tile is only read (and an \<open>undefined\<close> tile only throws) once the socket's
  colour and the counter have passed.\<close>

definition vanguardGuard :: "color \<Rightarrow> color \<Rightarrow> nat \<Rightarrow> nat \<Rightarrow> tile option \<Rightarrow> error + bool" where
  "vanguardGuard c color placed quota tile =
     (if color = c \<and> placed < quota then
        (case tile of
           None \<Rightarrow> Inl TypeErrorUndefined
         | Some t \<Rightarrow> Inr (pcolor (piece t) = c \<and> ptype (piece t) = Pawn))
      else Inr False)"

text \<open>Lines 221--224 (and 227--230 for Black): count the vanguard, put a new vanguard with
  an empty cache on the square, give it its coordinate, recompute the legal moves.\<close>

definition deployVanguard :: "piece_capability \<Rightarrow> color \<Rightarrow> coord \<Rightarrow> engine \<Rightarrow> engine" where
  "deployVanguard C c pos e =
     (let b = board e;
          b1 = (if c = White then b\<lparr>whiteVanguards := whiteVanguards b + 1\<rparr>
                else b\<lparr>blackVanguards := blackVanguards b + 1\<rparr>);
          b2 = b1\<lparr>tiles := grid_map_at (tiles b1) pos
                  (\<lambda>_. \<lparr>piece = setCoordToPiece pos (newChessPiece c Vanguard), spacesToMove = []\<rparr>)\<rparr>
      in e\<lparr>board := populateAvailableMoves C b2\<rparr>)"

definition placeVanguard :: "piece_capability \<Rightarrow> color \<Rightarrow> coord \<Rightarrow> engine \<Rightarrow> error + engine" where
  "placeVanguard C color pos e =
     (let b = board e in
      case js_index (tiles b) (fst pos) of
        None \<Rightarrow> Inl TypeErrorUndefined
      | Some row \<Rightarrow>
          (let tile = js_index row (snd pos) in
           case vanguardGuard White color (whiteVanguards b) (vanguards b) tile of
             Inl err \<Rightarrow> Inl err
           | Inr True \<Rightarrow> Inr (deployVanguard C White pos e)
           | Inr False \<Rightarrow>
               (case vanguardGuard Black color (blackVanguards b) (vanguards b) tile of
                  Inl err \<Rightarrow> Inl err
                | Inr True \<Rightarrow> Inr (deployVanguard C Black pos e)
                | Inr False \<Rightarrow> Inr e)))"

section \<open>Start, quit, reset, construction\<close>

definition startGame :: "engine \<Rightarrow> engine" where
  "startGame e = e\<lparr>game := (game e)\<lparr>started := True\<rparr>\<rparr>"

definition quitGame :: "piece_capability \<Rightarrow> engine \<Rightarrow> engine" where
  "quitGame C e =
     (let e1 = createGame 8 (e\<lparr>game := (game e)\<lparr>started := False\<rparr>\<rparr>)
      in e1\<lparr>board := populateAvailableMoves C (board e1)\<rparr>)"

text \<open>\<open>socket.on('reset', (size) => ...)\<close>: \<open>None\<close> is a message without a size, for
  which the default parameter 8 applies.\<close>

definition resetGame :: "piece_capability \<Rightarrow> int option \<Rightarrow> engine \<Rightarrow> engine" where
  "resetGame C sz e =
     (let e1 = createGame (case sz of None \<Rightarrow> 8 | Some n \<Rightarrow> n) e
      in e1\<lparr>board := populateAvailableMoves C (board e1)\<rparr>)"

definition newEngine :: "piece_capability \<Rightarrow> engine" where
  "newEngine C = (let e1 = createGame 8 engine0 in e1\<lparr>board := populateAvailableMoves C (board e1)\<rparr>)"

section \<open>Engines for the witnesses\<close>

text \<open>Engines for the witnesses: a position with White to move, its caches computed.\<close>

definition engineWith :: "board \<Rightarrow> color \<Rightarrow> engine" where
  "engineWith b c =
     \<lparr>board = b,
      game = \<lparr>playersTurn = c, gInCheck = Null, winner = Null, stalemate = False,
              boardLength = int (length (tiles b)), started = True, takenPieces = []\<rparr>,
      mlog = emptyLog\<rparr>"

definition pinnedEngine :: engine where
  "pinnedEngine = engineWith (populateAvailableMoves sampleCap pinnedBoard) White"

definition mateEngine :: engine where
  "mateEngine = engineWith (populateAvailableMoves sampleCap mateBoard) White"

section \<open>Lemmas on the handlers\<close>

lemma makeMoveHandler_gate: "\<not> deployed (board e) \<Longrightarrow> makeMoveHandler C col src dest e = Inr e"
  by (simp add: makeMoveHandler_def deployed_def Let_def)

lemma makeMoveHandler_deployed:
  "deployed (board e) \<Longrightarrow> makeMoveHandler C col src dest e =
     (case grid_get (tiles (board e)) src of
        None \<Rightarrow> Inl TypeErrorUndefined
      | Some t \<Rightarrow>
          (if playersTurn (game e) = pcolor (piece t) \<and> tryMove C (board e) dest (piece t) then
             (case makeMove C (board e) dest (piece t) of
                (b1, p1, captured) \<Rightarrow>
                  if captured \<noteq> None then Inl TypeErrorUnboundThis
                  else Inr (afterMove C col p1 dest (e\<lparr>board := b1\<rparr>)))
           else Inr e))"
  by (simp add: makeMoveHandler_def deployed_def Let_def js_index_case_grid_get)

lemma makeMoveHandler_Inr:
  assumes "makeMoveHandler C col src dest e = Inr e'"
  shows "e' = e \<or>
         (\<exists>t. deployed (board e) \<and> grid_get (tiles (board e)) src = Some t \<and>
            playersTurn (game e) = pcolor (piece t) \<and> tryMove C (board e) dest (piece t) \<and>
            snd (snd (makeMove C (board e) dest (piece t))) = None \<and>
            e' = afterMove C col (fst (snd (makeMove C (board e) dest (piece t)))) dest
                   (e\<lparr>board := fst (makeMove C (board e) dest (piece t))\<rparr>))"
proof (cases "deployed (board e)")
  case False
  with assms show ?thesis by (simp add: makeMoveHandler_gate)
next
  case True
  with assms show ?thesis
    by (auto simp: makeMoveHandler_deployed split: option.splits if_splits prod.splits)
qed

lemma afterMove_sel:
  "playersTurn (game (afterMove C col p dest e)) = otherColor (playersTurn (game e))"
  "board (afterMove C col p dest e) =
     populateAvailableMoves C ((board e)\<lparr>tiles := map (map (\<lambda>t. t\<lparr>piece := moveMade C p (piece t)\<rparr>)) (tiles (board e))\<rparr>)"
  "gInCheck (game (afterMove C col p dest e)) =
     (if inCheck col (tiles (board (afterMove C col p dest e)))
      then otherColor (playersTurn (game e)) else Null)"
  "mlog (afterMove C col p dest e) =
     addLogMessage (moveString (ptype p) dest (gInCheck (game (afterMove C col p dest e)) \<noteq> Null))
       (pcolor p) (mlog e)"
  by (simp_all add: afterMove_def Let_def otherColor_def)

lemma afterMove_outcome:
  "winner (game (afterMove C col p dest e)) =
     (if \<not> anyMoveFor (playersTurn (game (afterMove C col p dest e))) (tiles (board (afterMove C col p dest e))) \<and>
         gInCheck (game (afterMove C col p dest e)) \<noteq> Null
      then playersTurn (game e) else winner (game e))"
  "stalemate (game (afterMove C col p dest e)) =
     (if \<not> anyMoveFor (playersTurn (game (afterMove C col p dest e))) (tiles (board (afterMove C col p dest e))) \<and>
         gInCheck (game (afterMove C col p dest e)) = Null
      then True else stalemate (game e))"
  by (simp_all add: afterMove_def Let_def otherColor_def colorTruthy_def)

lemma deployed_afterMove:
  "deployed (board (afterMove C col p dest e)) = deployed (board e)"
  by (simp add: afterMove_sel deployed_def)

lemma counters_afterMove [simp]:
  "vanguards (board (afterMove C col p dest e)) = vanguards (board e)"
  "whiteVanguards (board (afterMove C col p dest e)) = whiteVanguards (board e)"
  "blackVanguards (board (afterMove C col p dest e)) = blackVanguards (board e)"
  by (simp_all add: afterMove_sel)

lemma not_deployed_createGame: "\<not> deployed (board (createGame sz e))"
  by (simp add: createGame_sel deployed_def boardSetup_quota)


lemma deployVanguard_sel:
  "game (deployVanguard C c pos e) = game e"
  "mlog (deployVanguard C c pos e) = mlog e"
  "vanguards (board (deployVanguard C c pos e)) = vanguards (board e)"
  "whiteVanguards (board (deployVanguard C c pos e)) =
     (if c = White then Suc (whiteVanguards (board e)) else whiteVanguards (board e))"
  "blackVanguards (board (deployVanguard C c pos e)) =
     (if c = White then blackVanguards (board e) else Suc (blackVanguards (board e)))"
  by (simp_all add: deployVanguard_def Let_def)


lemma placeVanguard_Inr:
  assumes "placeVanguard C col pos e = Inr e'"
  shows "e' = e \<or>
         (\<exists>c. (c = White \<or> c = Black) \<and> col = c \<and>
            (if c = White then whiteVanguards (board e) else blackVanguards (board e)) < vanguards (board e) \<and>
            (\<exists>t. grid_get (tiles (board e)) pos = Some t \<and> pcolor (piece t) = c \<and> ptype (piece t) = Pawn) \<and>
            e' = deployVanguard C c pos e)"
  using assms
  by (cases pos)
     (auto simp: placeVanguard_def vanguardGuard_def Let_def grid_get_def
           split: option.splits if_splits sum.splits bool.splits)


lemma addLogMessage_appends:
  "\<exists>ws bs. whiteMoves (addLogMessage msg c l) = whiteMoves l @ ws \<and>
           blackMoves (addLogMessage msg c l) = blackMoves l @ bs \<and> length ws + length bs \<le> 1"
  by (cases c) (auto simp: addLogMessage_def)

section \<open>Properties of the handlers\<close>

text \<open>C9. An accepted move that changes the state hands the turn to the other colour, records
  check on the side now to move exactly when the check detector reports the \<^emph>\<open>socket's\<close>
  colour giving check, declares the mover the winner when the side to move has no move and
  is in check, and a stalemate when it has no move and is not in check.\<close>

theorem end_of_turn_outcome:
  assumes ok: "makeMoveHandler C col src dest e = Inr e'" and moved: "e' \<noteq> e"
  shows "playersTurn (game e') = otherColor (playersTurn (game e)) \<and>
         gInCheck (game e') = (if inCheck col (tiles (board e')) then playersTurn (game e') else Null) \<and>
         winner (game e') =
           (if \<not> anyMoveFor (playersTurn (game e')) (tiles (board e')) \<and> gInCheck (game e') \<noteq> Null
            then playersTurn (game e) else winner (game e)) \<and>
         stalemate (game e') =
           (\<not> anyMoveFor (playersTurn (game e')) (tiles (board e')) \<and> gInCheck (game e') = Null \<or>
            stalemate (game e))"
proof -
  from makeMoveHandler_Inr [OF ok] moved
  have "\<exists>P B. e' = afterMove C col P dest (e\<lparr>board := B\<rparr>)" by blast
  then obtain P B where e': "e' = afterMove C col P dest (e\<lparr>board := B\<rparr>)" by blast
  show ?thesis by (simp add: e' afterMove_sel afterMove_outcome)
qed

text \<open>C10. A vanguard placement that changes the state was made by a socket of White or Black
  on one of its own pawns, within that colour's quota; it increments exactly that colour's
  counter, puts a vanguard of that colour knowing its square on the tile, and leaves the
  game record and the log alone.\<close>

theorem placeVanguard_deploys:
  assumes ok: "placeVanguard C col pos e = Inr e'" and ch: "e' \<noteq> e"
  shows "(col = White \<or> col = Black) \<and>
         (\<exists>t. grid_get (tiles (board e)) pos = Some t \<and> pcolor (piece t) = col \<and> ptype (piece t) = Pawn) \<and>
         (if col = White
          then whiteVanguards (board e) < vanguards (board e) \<and>
               whiteVanguards (board e') = Suc (whiteVanguards (board e)) \<and>
               blackVanguards (board e') = blackVanguards (board e)
          else blackVanguards (board e) < vanguards (board e) \<and>
               blackVanguards (board e') = Suc (blackVanguards (board e)) \<and>
               whiteVanguards (board e') = whiteVanguards (board e)) \<and>
         map_option piece (grid_get (tiles (board e')) pos) = Some (setCoordToPiece pos (newChessPiece col Vanguard)) \<and>
         game e' = game e \<and> mlog e' = mlog e"
proof -
  from placeVanguard_Inr [OF ok] ch
  have "(col = White \<or> col = Black) \<and>
        (if col = White then whiteVanguards (board e) else blackVanguards (board e)) < vanguards (board e) \<and>
        (\<exists>t. grid_get (tiles (board e)) pos = Some t \<and> pcolor (piece t) = col \<and> ptype (piece t) = Pawn) \<and>
        e' = deployVanguard C col pos e" by blast
  then obtain t where c: "col = White \<or> col = Black"
    and lt: "(if col = White then whiteVanguards (board e) else blackVanguards (board e)) < vanguards (board e)"
    and t: "grid_get (tiles (board e)) pos = Some t" "pcolor (piece t) = col" "ptype (piece t) = Pawn"
    and e': "e' = deployVanguard C col pos e" by blast
  have "map_option piece (grid_get (tiles (board e')) pos) = Some (setCoordToPiece pos (newChessPiece col Vanguard))"
    using t(1) by (simp add: e' deployVanguard_def Let_def grid_get_populateAvailableMoves_piece
                  grid_get_grid_map_at split: if_split)
  with c lt t e' show ?thesis by (auto simp: deployVanguard_sel)
qed

text \<open>C15. Every accepted move that captures throws: the capture callback is
  \<open>this.addTakenPiece\<close> passed without its object, so \<open>makeMove\<close>'s call of it fails
  with a \<open>TypeError\<close> and the move is never completed.\<close>

theorem makeMove_capture_throws:
  assumes "deployed (board e)" and "grid_get (tiles (board e)) src = Some t"
    and "playersTurn (game e) = pcolor (piece t)" and "tryMove C (board e) dest (piece t)"
    and "snd (snd (makeMove C (board e) dest (piece t))) \<noteq> None"
  shows "makeMoveHandler C col src dest e = Inl TypeErrorUnboundThis"
  using assms by (auto simp: makeMoveHandler_deployed split: prod.split)

text \<open>C16. A move from a source outside the board, once the deployment is complete, throws the
  \<open>TypeError\<close> of reading a property of \<open>undefined\<close>.\<close>

theorem makeMove_out_of_range:
  "deployed (board e) \<Longrightarrow> grid_get (tiles (board e)) src = None \<Longrightarrow>
   makeMoveHandler C col src dest e = Inl TypeErrorUndefined"
  by (simp add: makeMoveHandler_deployed)

text \<open>C17. A reset is exactly \<open>createGame\<close> with the requested size (the default 8 when the
  message carries none) and keeps the started flag, while quitting clears it.\<close>

theorem resetGame_keeps_started:
  "resetGame C sz e = createGame (case sz of None \<Rightarrow> 8 | Some n \<Rightarrow> n) e \<and>
   started (game (resetGame C sz e)) = started (game e) \<and>
   \<not> started (game (quitGame C e))"
proof -
  have gate: "populateAvailableMoves C (board (createGame n e0)) = board (createGame n e0)" for n e0
    by (rule populateAvailableMoves_gate [OF not_deployed_createGame])
  then show ?thesis by (simp add: resetGame_def quitGame_def Let_def createGame_sel)
qed

text \<open>C14. The handler accepts every move the piece module's \<open>tryMove\<close> accepts on the
  mover's turn once the vanguards are placed: nothing else is checked, neither the legal-move
  caches (so a move exposing the mover's own king is played) nor the end of the game (so play
  goes on after a mate or a stalemate). A non-capturing such move passes the turn and is
  logged.\<close>

theorem makeMove_accepts_on_tryMove:
  assumes "deployed (board e)" and "grid_get (tiles (board e)) src = Some t"
    and "playersTurn (game e) = pcolor (piece t)" and "tryMove C (board e) dest (piece t)"
    and "makeMove C (board e) dest (piece t) = (b1, p1, None)"
  shows "\<exists>e'. makeMoveHandler C col src dest e = Inr e' \<and>
              playersTurn (game e') = otherColor (playersTurn (game e)) \<and>
              mlog e' = addLogMessage (moveString (ptype p1) dest (gInCheck (game e') \<noteq> Null)) (pcolor p1) (mlog e)"
  using assms by (simp add: makeMoveHandler_deployed afterMove_sel)

section \<open>Witnesses\<close>

theorem end_of_turn_outcome_witness:
  "let e' = projr (makeMoveHandler sampleCap White (2, 2) (0, 2) mateEngine) in
   makeMoveHandler sampleCap White (2, 2) (0, 2) mateEngine = Inr e' \<and> e' \<noteq> mateEngine \<and>
   playersTurn (game e') = otherColor (playersTurn (game mateEngine)) \<and>
   gInCheck (game e') = (if inCheck White (tiles (board e')) then playersTurn (game e') else Null) \<and>
   winner (game e') =
     (if \<not> anyMoveFor (playersTurn (game e')) (tiles (board e')) \<and> gInCheck (game e') \<noteq> Null
      then playersTurn (game mateEngine) else winner (game mateEngine)) \<and>
   stalemate (game e') =
     (\<not> anyMoveFor (playersTurn (game e')) (tiles (board e')) \<and> gInCheck (game e') = Null \<or>
      stalemate (game mateEngine))"
proof -
  define e' where "e' = projr (makeMoveHandler sampleCap White (2, 2) (0, 2) mateEngine)"
  have ok: "makeMoveHandler sampleCap White (2, 2) (0, 2) mateEngine = Inr e'"
    unfolding e'_def by code_simp
  have mv: "e' \<noteq> mateEngine" unfolding e'_def by code_simp
  show ?thesis
    unfolding Let_def e'_def [symmetric] using end_of_turn_outcome [OF ok mv] ok mv by blast
qed

theorem placeVanguard_deploys_witness:
  "let e = newEngine sampleCap; e' = projr (placeVanguard sampleCap White (6, 0) e) in
   placeVanguard sampleCap White (6, 0) e = Inr e' \<and> e' \<noteq> e \<and>
   (White = White \<or> White = Black) \<and>
   (\<exists>t. grid_get (tiles (board e)) (6, 0) = Some t \<and> pcolor (piece t) = White \<and> ptype (piece t) = Pawn) \<and>
   whiteVanguards (board e) < vanguards (board e) \<and>
   whiteVanguards (board e') = Suc (whiteVanguards (board e)) \<and>
   blackVanguards (board e') = blackVanguards (board e) \<and>
   map_option piece (grid_get (tiles (board e')) (6, 0)) =
     Some (setCoordToPiece (6, 0) (newChessPiece White Vanguard)) \<and>
   game e' = game e \<and> mlog e' = mlog e"
proof -
  define e' where "e' = projr (placeVanguard sampleCap White (6, 0) (newEngine sampleCap))"
  have ok: "placeVanguard sampleCap White (6, 0) (newEngine sampleCap) = Inr e'"
    unfolding e'_def by code_simp
  have ch: "e' \<noteq> newEngine sampleCap" unfolding e'_def by code_simp
  show ?thesis
    unfolding Let_def e'_def [symmetric] using placeVanguard_deploys [OF ok ch] ok ch by simp
qed

theorem makeMove_capture_throws_witness:
  "let t = the (grid_get (tiles (board pinnedEngine)) (1, 0)) in
   deployed (board pinnedEngine) \<and> grid_get (tiles (board pinnedEngine)) (1, 0) = Some t \<and>
   playersTurn (game pinnedEngine) = pcolor (piece t) \<and> tryMove sampleCap (board pinnedEngine) (0, 0) (piece t) \<and>
   snd (snd (makeMove sampleCap (board pinnedEngine) (0, 0) (piece t))) \<noteq> None \<and>
   makeMoveHandler sampleCap White (1, 0) (0, 0) pinnedEngine = Inl TypeErrorUnboundThis"
proof -
  define t where "t = the (grid_get (tiles (board pinnedEngine)) (1, 0))"
  have h1: "deployed (board pinnedEngine)" by code_simp
  have h2: "grid_get (tiles (board pinnedEngine)) (1, 0) = Some t" unfolding t_def by code_simp
  have h3: "playersTurn (game pinnedEngine) = pcolor (piece t)" unfolding t_def by code_simp
  have h4: "tryMove sampleCap (board pinnedEngine) (0, 0) (piece t)" unfolding t_def by code_simp
  have h5: "snd (snd (makeMove sampleCap (board pinnedEngine) (0, 0) (piece t))) \<noteq> None"
    unfolding t_def by code_simp
  show ?thesis
    unfolding Let_def t_def [symmetric]
    using makeMove_capture_throws [OF h1 h2 h3 h4 h5, of White] h1 h2 h3 h4 h5 by blast
qed

theorem makeMove_out_of_range_witness:
  "deployed (board pinnedEngine) \<and> grid_get (tiles (board pinnedEngine)) (3, 0) = None \<and>
   makeMoveHandler sampleCap White (3, 0) (0, 0) pinnedEngine = Inl TypeErrorUndefined"
proof -
  have h1: "deployed (board pinnedEngine)" by code_simp
  have h2: "grid_get (tiles (board pinnedEngine)) (3, 0) = None" by code_simp
  show ?thesis using makeMove_out_of_range [OF h1 h2] h1 h2 by blast
qed

theorem makeMove_accepts_on_tryMove_witness:
  "playersTurn (game (projr (makeMoveHandler sampleCap White (1, 0) (1, 1) pinnedEngine))) = Black \<and>
   whiteMoves (mlog (projr (makeMoveHandler sampleCap White (1, 0) (1, 1) pinnedEngine))) = [''Rb2'']"
proof -
  define t where "t = the (grid_get (tiles (board pinnedEngine)) (1, 0))"
  define mm where "mm = makeMove sampleCap (board pinnedEngine) (1, 1) (piece t)"
  have d: "deployed (board pinnedEngine)" by code_simp
  have g: "grid_get (tiles (board pinnedEngine)) (1, 0) = Some t" unfolding t_def by code_simp
  have p: "playersTurn (game pinnedEngine) = pcolor (piece t)" unfolding t_def by code_simp
  have tm: "tryMove sampleCap (board pinnedEngine) (1, 1) (piece t)" unfolding t_def by code_simp
  have nc: "snd (snd mm) = None" unfolding mm_def t_def by code_simp
  then have m: "makeMove sampleCap (board pinnedEngine) (1, 1) (piece t) = (fst mm, fst (snd mm), None)"
    unfolding mm_def by (metis prod.collapse)
  obtain e' where e': "makeMoveHandler sampleCap White (1, 0) (1, 1) pinnedEngine = Inr e'"
    and turn: "playersTurn (game e') = otherColor (playersTurn (game pinnedEngine))"
    and log: "mlog e' = addLogMessage (moveString (ptype (fst (snd mm))) (1, 1) (gInCheck (game e') \<noteq> Null))
                          (pcolor (fst (snd mm))) (mlog pinnedEngine)"
    using makeMove_accepts_on_tryMove [OF d g p tm m, of White] by blast
  have "whiteMoves (mlog (projr (makeMoveHandler sampleCap White (1, 0) (1, 1) pinnedEngine))) = [''Rb2'']"
    by code_simp
  then have w: "whiteMoves (mlog e') = [''Rb2'']" using e' by simp
  have pt: "playersTurn (game pinnedEngine) = White" by code_simp
  show ?thesis using w turn pt e' by (simp add: otherColor_def)
qed

end
