(* ===== verification/Chess_Server.thy ===== *)
theory Chess_Server
  imports Chess_Engine
begin

text \<open>
  The engine as a state machine driven by socket events. \<open>setupSocketConnectionsForUser\<close>
  (\<open>src/ChessGameEngine.ts\<close>, lines 117--240) registers, for one socket, a closure over a
  fresh variable \<open>color\<close> (initially \<open>Null\<close>) and six event handlers that share it. A
  \<^emph>\<open>registration\<close> is one such call; \<open>team\<close> keeps the colour variable of every
  registration, and the events name the registration whose handler runs. \<open>dispatch\<close>
  routes an event to its handler; \<open>reachable\<close> is the set of states the events reach from
  the constructed engine, on which \<open>engineInv\<close> holds by rule induction.
\<close>

section \<open>Sockets and events\<close>

record server =
  eng :: engine
  team :: "nat \<Rightarrow> color"

datatype event =
    Connect nat
  | ChooseTeam nat color
  | StartGame
  | QuitGame
  | Reset "int option"
  | MakeMove nat coord coord
  | PlaceVanguard nat coord

text \<open>Lines 117--121: a registration starts with the colour \<open>Null\<close>.\<close>

definition registerSocket :: "nat \<Rightarrow> server \<Rightarrow> server" where
  "registerSocket r sv = sv\<lparr>team := (team sv)(r := Null)\<rparr>"

definition initServer :: "piece_capability \<Rightarrow> server" where
  "initServer C = \<lparr>eng = newEngine C, team = (\<lambda>_. Null)\<rparr>"

fun dispatch :: "piece_capability \<Rightarrow> event \<Rightarrow> server \<Rightarrow> error + server" where
  "dispatch C (Connect s) sv = Inr (registerSocket s sv)"
| "dispatch C (ChooseTeam s c) sv = Inr (sv\<lparr>team := (team sv)(s := c)\<rparr>)"
| "dispatch C StartGame sv = Inr (sv\<lparr>eng := startGame (eng sv)\<rparr>)"
| "dispatch C QuitGame sv = Inr (sv\<lparr>eng := quitGame C (eng sv)\<rparr>)"
| "dispatch C (Reset sz) sv = Inr (sv\<lparr>eng := resetGame C sz (eng sv)\<rparr>)"
| "dispatch C (MakeMove s src dest) sv =
     map_sum id (\<lambda>e. sv\<lparr>eng := e\<rparr>) (makeMoveHandler C (team sv s) src dest (eng sv))"
| "dispatch C (PlaceVanguard s pos) sv =
     map_sum id (\<lambda>e. sv\<lparr>eng := e\<rparr>) (placeVanguard C (team sv s) pos (eng sv))"

inductive reachable :: "piece_capability \<Rightarrow> server \<Rightarrow> bool" for C where
  init: "reachable C (initServer C)"
| step: "reachable C sv \<Longrightarrow> dispatch C ev sv = Inr sv' \<Longrightarrow> reachable C sv'"

section \<open>The state invariant\<close>

text \<open>What every reachable state satisfies: a colour is to move, the recorded check is on
  nobody or on the side to move, neither side has placed more vanguards than the quota,
  and before the deployment is complete no tile offers a move.\<close>

definition engineInv :: "engine \<Rightarrow> bool" where
  "engineInv e \<longleftrightarrow>
     playersTurn (game e) \<noteq> Null \<and>
     (gInCheck (game e) = Null \<or> gInCheck (game e) = playersTurn (game e)) \<and>
     whiteVanguards (board e) \<le> vanguards (board e) \<and> blackVanguards (board e) \<le> vanguards (board e) \<and>
     (deployed (board e) \<or> cachesEmpty (tiles (board e)))"

text \<open>The events after which the log is cleared rather than extended.\<close>

definition clearsLog :: "event \<Rightarrow> bool" where
  "clearsLog ev = (case ev of QuitGame \<Rightarrow> True | Reset _ \<Rightarrow> True | _ \<Rightarrow> False)"

section \<open>Lemmas\<close>

lemma eng_registerSocket [simp]: "eng (registerSocket r sv) = eng sv"
  by (simp add: registerSocket_def)

lemma cachesEmpty_iff: "cachesEmpty ts \<longleftrightarrow> (\<forall>k t. grid_get ts k = Some t \<longrightarrow> spacesToMove t = [])"
  by (auto simp: cachesEmpty_def list_all_iff set_cells simp flip: set_cells)

lemma cachesEmpty_grid_map_at:
  "cachesEmpty ts \<Longrightarrow> (\<And>t. spacesToMove (f t) = []) \<Longrightarrow> cachesEmpty (grid_map_at ts k f)"
  by (auto simp: cachesEmpty_iff grid_get_grid_map_at split: if_splits)


lemma engineInv_createGame_populate:
  "engineInv ((createGame sz e)\<lparr>board := populateAvailableMoves C (board (createGame sz e))\<rparr>)"
proof -
  have nd: "\<not> deployed (board (createGame sz e))" by (rule not_deployed_createGame)
  have "cachesEmpty (tiles (board (createGame sz e)))" by (rule createGame_cachesEmpty)
  with nd show ?thesis
    by (simp add: engineInv_def populateAvailableMoves_gate createGame_sel)
qed

lemma engineInv_startGame: "engineInv e \<Longrightarrow> engineInv (startGame e)"
  by (simp add: engineInv_def startGame_def)

lemma engineInv_quitGame: "engineInv (quitGame C e)"
  using engineInv_createGame_populate by (simp add: quitGame_def Let_def)

lemma engineInv_resetGame: "engineInv (resetGame C sz e)"
  using engineInv_createGame_populate by (simp add: resetGame_def Let_def)


lemma engineInv_deployVanguard:
  assumes inv: "engineInv e" and lt: "(if c = White then whiteVanguards (board e) else blackVanguards (board e)) < vanguards (board e)"
  shows "engineInv (deployVanguard C c pos e)"
proof -
  let ?b = "board e"
  let ?b1 = "if c = White then ?b\<lparr>whiteVanguards := whiteVanguards ?b + 1\<rparr> else ?b\<lparr>blackVanguards := blackVanguards ?b + 1\<rparr>"
  let ?b2 = "?b1\<lparr>tiles := grid_map_at (tiles ?b1) pos
               (\<lambda>_. \<lparr>piece = setCoordToPiece pos (newChessPiece c Vanguard), spacesToMove = []\<rparr>)\<rparr>"
  have board: "board (deployVanguard C c pos e) = populateAvailableMoves C ?b2"
    by (simp add: deployVanguard_def Let_def)
  from lt have "\<not> deployed ?b" by (auto simp: deployed_def split: if_splits)
  with inv have ce: "cachesEmpty (tiles ?b)" by (simp add: engineInv_def)
  have "deployed (board (deployVanguard C c pos e)) \<or> cachesEmpty (tiles (board (deployVanguard C c pos e)))"
  proof (cases "deployed ?b2")
    case True
    then show ?thesis by (simp add: board deployed_def)
  next
    case False
    have "tiles ?b1 = tiles ?b" by simp
    with ce have "cachesEmpty (tiles ?b2)" by (simp add: cachesEmpty_grid_map_at)
    with False show ?thesis by (simp add: board populateAvailableMoves_gate)
  qed
  with inv lt show ?thesis
    by (auto simp: engineInv_def deployVanguard_sel split: if_splits)
qed


lemma engineInv_placeVanguard:
  "engineInv e \<Longrightarrow> placeVanguard C col pos e = Inr e' \<Longrightarrow> engineInv e'"
  by (drule placeVanguard_Inr) (auto intro: engineInv_deployVanguard)

lemma engineInv_makeMoveHandler:
  assumes kb: "keeps_board C" and inv: "engineInv e"
    and ok: "makeMoveHandler C col src dest e = Inr e'"
  shows "engineInv e'"
  using makeMoveHandler_Inr [OF ok]
proof
  assume "e' = e"
  with inv show ?thesis by simp
next
  assume "\<exists>t. deployed (board e) \<and> grid_get (tiles (board e)) src = Some t \<and>
            playersTurn (game e) = pcolor (piece t) \<and> tryMove C (board e) dest (piece t) \<and>
            snd (snd (makeMove C (board e) dest (piece t))) = None \<and>
            e' = afterMove C col (fst (snd (makeMove C (board e) dest (piece t)))) dest
                   (e\<lparr>board := fst (makeMove C (board e) dest (piece t))\<rparr>)"
  then show ?thesis
  proof (elim exE conjE)
    fix t
    assume dep: "deployed (board e)"
      and e': "e' = afterMove C col (fst (snd (makeMove C (board e) dest (piece t)))) dest
                 (e\<lparr>board := fst (makeMove C (board e) dest (piece t))\<rparr>)"
    define b1 where "b1 = fst (makeMove C (board e) dest (piece t))"
    from kb have cnt: "vanguards b1 = vanguards (board e)"
      "whiteVanguards b1 = whiteVanguards (board e)"
      "blackVanguards b1 = blackVanguards (board e)"
      unfolding b1_def by (simp_all add: keeps_boardD)
    note e' = e' [folded b1_def]
    have "deployed (board e')"
      using dep cnt by (simp add: e' deployed_afterMove deployed_def)
    with inv cnt show ?thesis
      by (simp add: engineInv_def e' afterMove_sel)
  qed
qed

lemma engineInv_dispatch:
  assumes "keeps_board C" and "engineInv (eng sv)" and "dispatch C ev sv = Inr sv'"
  shows "engineInv (eng sv')"
  using assms
proof (cases ev)
  case (MakeMove s src dest)
  with assms show ?thesis
    by (auto intro: engineInv_makeMoveHandler split: sum.splits)
next
  case (PlaceVanguard s pos)
  with assms show ?thesis
    by (auto intro: engineInv_placeVanguard split: sum.splits)
qed (auto simp: engineInv_startGame engineInv_quitGame engineInv_resetGame)

lemma engineInv_newEngine: "engineInv (newEngine C)"
  using engineInv_createGame_populate by (simp add: newEngine_def Let_def)

lemma reachable_engineInv: "reachable C sv \<Longrightarrow> keeps_board C \<Longrightarrow> engineInv (eng sv)"
proof (induction rule: reachable.induct)
  case init
  then show ?case by (simp add: initServer_def engineInv_newEngine)
next
  case (step sv ev sv')
  then show ?case by (blast intro: engineInv_dispatch)
qed

lemma dispatch_MakeMove_Inr:
  "dispatch C (MakeMove s src dest) sv = Inr sv' \<longleftrightarrow>
     (\<exists>e'. makeMoveHandler C (team sv s) src dest (eng sv) = Inr e' \<and> sv' = sv\<lparr>eng := e'\<rparr>)"
  by (auto split: sum.splits)

lemma dispatch_PlaceVanguard_Inr:
  "dispatch C (PlaceVanguard s pos) sv = Inr sv' \<longleftrightarrow>
     (\<exists>e'. placeVanguard C (team sv s) pos (eng sv) = Inr e' \<and> sv' = sv\<lparr>eng := e'\<rparr>)"
  by (auto split: sum.splits)

lemma initServer_not_deployed: "\<not> deployed (board (eng (initServer C)))"
  by (simp add: initServer_def newEngine_def Let_def populateAvailableMoves_gate not_deployed_createGame)

lemma createGame_square: "square (if supportedSize sz then nat sz else 8) (tiles (board (createGame sz e)))"
proof -
  have "goodLayout (if supportedSize sz then nat sz else 8) (assignCoords (snd (boardSetup sz)))"
    by (simp add: assignCoords_good boardSetup_good)
  then show ?thesis by (simp add: createGame_sel goodLayout_def)
qed

lemma supported_side: "(if supportedSize sz then nat sz else 8) \<in> {8, 10, 12, 14, 16}"
  by (auto simp: supportedSize_def)

lemma shape_createGame_populate:
  "\<exists>n \<in> {8, 10, 12, 14, 16}. square n (tiles (populateAvailableMoves C (board (createGame sz e))))"
  using createGame_square [of sz e] supported_side [of sz]
    square_map_length [OF populateAvailableMoves_shape(2), of _ C "board (createGame sz e)"]
  by blast

lemma map_length_makeMoveHandler:
  assumes kb: "keeps_board C" and ok: "makeMoveHandler C col src dest e = Inr e'"
  shows "map length (tiles (board e')) = map length (tiles (board e))"
  using makeMoveHandler_Inr [OF ok]
proof
  assume "e' = e"
  then show ?thesis by simp
next
  assume "\<exists>t. deployed (board e) \<and> grid_get (tiles (board e)) src = Some t \<and>
            playersTurn (game e) = pcolor (piece t) \<and> tryMove C (board e) dest (piece t) \<and>
            snd (snd (makeMove C (board e) dest (piece t))) = None \<and>
            e' = afterMove C col (fst (snd (makeMove C (board e) dest (piece t)))) dest
                   (e\<lparr>board := fst (makeMove C (board e) dest (piece t))\<rparr>)"
  then show ?thesis
  proof (elim exE conjE)
    fix t
    assume e': "e' = afterMove C col (fst (snd (makeMove C (board e) dest (piece t)))) dest
                   (e\<lparr>board := fst (makeMove C (board e) dest (piece t))\<rparr>)"
    have "map length (tiles (fst (makeMove C (board e) dest (piece t)))) = map length (tiles (board e))"
      using kb by (simp add: keeps_boardD)
    then show ?thesis by (simp add: e' afterMove_sel populateAvailableMoves_shape(2) comp_def)
  qed
qed

lemma map_length_placeVanguard:
  assumes "placeVanguard C col pos e = Inr e'"
  shows "map length (tiles (board e')) = map length (tiles (board e))"
  using placeVanguard_Inr [OF assms]
  by (auto simp: deployVanguard_def Let_def populateAvailableMoves_shape(2) map_length_grid_map_at)

section \<open>Properties of the state machine\<close>

text \<open>C6. In every state the events reach, some colour is to move, the recorded check is on
  nobody or on the side to move, and neither side has placed more vanguards than the quota.\<close>

theorem reachable_state_invariant:
  assumes "reachable C sv" and "keeps_board C"
  shows "playersTurn (game (eng sv)) \<noteq> Null \<and>
         (gInCheck (game (eng sv)) = Null \<or> gInCheck (game (eng sv)) = playersTurn (game (eng sv))) \<and>
         whiteVanguards (board (eng sv)) \<le> vanguards (board (eng sv)) \<and>
         blackVanguards (board (eng sv)) \<le> vanguards (board (eng sv))"
  using reachable_engineInv [OF assms] by (simp add: engineInv_def)

text \<open>C7. Until both sides have placed their quota of vanguards, no tile offers a move and the
  make-move handler ignores every request.\<close>

theorem deployment_gate:
  assumes "reachable C sv" and "keeps_board C" and "\<not> deployed (board (eng sv))"
  shows "cachesEmpty (tiles (board (eng sv))) \<and> makeMoveHandler C col src dest (eng sv) = Inr (eng sv)"
  using reachable_engineInv [OF assms(1,2)] assms(3)
  by (simp add: engineInv_def makeMoveHandler_gate)

text \<open>C8. A make-move event either leaves the engine unchanged or hands the turn from one
  colour to the other.\<close>

theorem turn_alternation:
  assumes r: "reachable C sv" and kb: "keeps_board C"
    and ok: "dispatch C (MakeMove s src dest) sv = Inr sv'"
  shows "eng sv' = eng sv \<or>
         {playersTurn (game (eng sv)), playersTurn (game (eng sv'))} = {White, Black}"
proof -
  from reachable_engineInv [OF r kb] have nn: "playersTurn (game (eng sv)) \<noteq> Null"
    by (simp add: engineInv_def)
  from ok obtain e' where h: "makeMoveHandler C (team sv s) src dest (eng sv) = Inr e'"
    and sv': "eng sv' = e'" by (auto simp: dispatch_MakeMove_Inr)
  from makeMoveHandler_Inr [OF h] have "e' = eng sv \<or> playersTurn (game e') = otherColor (playersTurn (game (eng sv)))"
    by (auto simp: afterMove_sel)
  with nn show ?thesis
    by (cases "playersTurn (game (eng sv))") (auto simp: sv' otherColor_def)
qed

text \<open>C11. Every event other than quit and reset extends the move log by at most one entry and
  never rewrites an earlier one.\<close>

theorem log_append_only:
  assumes ok: "dispatch C ev sv = Inr sv'" and nc: "\<not> clearsLog ev"
  shows "\<exists>ws bs. whiteMoves (mlog (eng sv')) = whiteMoves (mlog (eng sv)) @ ws \<and>
                blackMoves (mlog (eng sv')) = blackMoves (mlog (eng sv)) @ bs \<and> length ws + length bs \<le> 1"
proof -
  have "mlog (eng sv') = mlog (eng sv) \<or> (\<exists>msg c. mlog (eng sv') = addLogMessage msg c (mlog (eng sv)))"
  proof (cases ev)
    case (MakeMove s src dest)
    with ok obtain e' where h: "makeMoveHandler C (team sv s) src dest (eng sv) = Inr e'"
      and sv': "eng sv' = e'" by (auto simp: dispatch_MakeMove_Inr)
    from makeMoveHandler_Inr [OF h]
    have "e' = eng sv \<or> (\<exists>P B. e' = afterMove C (team sv s) P dest (eng sv\<lparr>board := B\<rparr>))" by blast
    then show ?thesis by (elim disjE exE; simp add: sv' afterMove_sel(4); blast)
  next
    case (PlaceVanguard s pos)
    with ok obtain e' where h: "placeVanguard C (team sv s) pos (eng sv) = Inr e'"
      and sv': "eng sv' = e'" by (auto simp: dispatch_PlaceVanguard_Inr)
    from placeVanguard_Inr [OF h] show ?thesis by (auto simp: sv' deployVanguard_sel)
  qed (use ok nc in \<open>auto simp: clearsLog_def startGame_def\<close>)
  then show ?thesis
  proof (elim disjE exE)
    assume "mlog (eng sv') = mlog (eng sv)"
    then show ?thesis by simp
  next
    fix msg c
    assume "mlog (eng sv') = addLogMessage msg c (mlog (eng sv))"
    then show ?thesis using addLogMessage_appends [of msg c "mlog (eng sv)"] by simp
  qed
qed

text \<open>C27. The board keeps its type: in every reachable state it is a square grid whose side
  is one of the supported sizes, when the piece module keeps the shape of the board.\<close>

theorem reachable_board_square:
  "reachable C sv \<Longrightarrow> keeps_board C \<Longrightarrow>
   \<exists>n \<in> {8, 10, 12, 14, 16}. square n (tiles (board (eng sv)))"
proof (induction rule: reachable.induct)
  case init
  have "square 8 (tiles (board (createGame 8 engine0)))"
    using createGame_square [of 8 engine0] by (simp add: supportedSize_def)
  then have "square 8 (tiles (board (eng (initServer C))))"
    by (simp add: initServer_def newEngine_def Let_def square_map_length [OF populateAvailableMoves_shape(2)])
  then show ?case by blast
next
  case (step sv ev sv')
  from step.IH step.prems obtain n where n: "n \<in> {8, 10, 12, 14, 16}" and sq: "square n (tiles (board (eng sv)))"
    by blast
  show ?case
  proof (cases ev)
    case (MakeMove s src dest)
    with step.hyps(2) obtain e' where h: "makeMoveHandler C (team sv s) src dest (eng sv) = Inr e'"
      and sv': "eng sv' = e'" by (auto simp: dispatch_MakeMove_Inr)
    from map_length_makeMoveHandler [OF step.prems h] sq n show ?thesis
      by (metis sv' square_map_length)
  next
    case (PlaceVanguard s pos)
    with step.hyps(2) obtain e' where h: "placeVanguard C (team sv s) pos (eng sv) = Inr e'"
      and sv': "eng sv' = e'" by (auto simp: dispatch_PlaceVanguard_Inr)
    from map_length_placeVanguard [OF h] sq n show ?thesis
      by (metis sv' square_map_length)
  next
    case QuitGame
    with step.hyps(2) have "tiles (board (eng sv')) =
      tiles (populateAvailableMoves C (board (createGame 8 ((eng sv)\<lparr>game := (game (eng sv))\<lparr>started := False\<rparr>\<rparr>))))"
      by (auto simp: quitGame_def Let_def)
    then show ?thesis by (simp only: shape_createGame_populate)
  next
    case (Reset sz)
    with step.hyps(2) have "tiles (board (eng sv')) =
      tiles (populateAvailableMoves C (board (createGame (case sz of None \<Rightarrow> 8 | Some n \<Rightarrow> n) (eng sv))))"
      by (auto simp: resetGame_def Let_def)
    then show ?thesis by (simp only: shape_createGame_populate)
  qed (use step.hyps(2) sq n in \<open>auto simp: startGame_def\<close>)
qed

section \<open>Witnesses\<close>

theorem reachable_state_invariant_witness:
  "playersTurn (game (eng (initServer sampleCap))) \<noteq> Null \<and>
   (gInCheck (game (eng (initServer sampleCap))) = Null \<or>
    gInCheck (game (eng (initServer sampleCap))) = playersTurn (game (eng (initServer sampleCap)))) \<and>
   whiteVanguards (board (eng (initServer sampleCap))) \<le> vanguards (board (eng (initServer sampleCap))) \<and>
   blackVanguards (board (eng (initServer sampleCap))) \<le> vanguards (board (eng (initServer sampleCap)))"
  using reachable_state_invariant [OF reachable.init sampleCap_keeps_board] .

theorem deployment_gate_witness:
  "\<not> deployed (board (eng (initServer sampleCap))) \<and>
   cachesEmpty (tiles (board (eng (initServer sampleCap)))) \<and>
   makeMoveHandler sampleCap White (6, 0) (5, 0) (eng (initServer sampleCap)) = Inr (eng (initServer sampleCap))"
proof -
  have nd: "\<not> deployed (board (eng (initServer sampleCap)))"
    by (simp add: initServer_def newEngine_def Let_def populateAvailableMoves_gate not_deployed_createGame)
  show ?thesis using deployment_gate [OF reachable.init sampleCap_keeps_board nd] nd by blast
qed

theorem turn_alternation_witness:
  "dispatch sampleCap (MakeMove 0 (6, 0) (5, 0)) (initServer sampleCap) = Inr (initServer sampleCap) \<and>
   (eng (initServer sampleCap) = eng (initServer sampleCap) \<or>
    {playersTurn (game (eng (initServer sampleCap))), playersTurn (game (eng (initServer sampleCap)))} =
      {White, Black})"
proof -
  have nd: "\<not> deployed (board (eng (initServer sampleCap)))"
    by (rule initServer_not_deployed)
  have ok: "dispatch sampleCap (MakeMove 0 (6, 0) (5, 0)) (initServer sampleCap) = Inr (initServer sampleCap)"
    using nd by (simp add: makeMoveHandler_gate)
  show ?thesis using turn_alternation [OF reachable.init sampleCap_keeps_board ok] ok by blast
qed

theorem log_append_only_witness:
  "dispatch sampleCap StartGame (initServer sampleCap) =
     Inr ((initServer sampleCap)\<lparr>eng := startGame (eng (initServer sampleCap))\<rparr>) \<and>
   \<not> clearsLog StartGame \<and>
   (\<exists>ws bs. whiteMoves (mlog (startGame (eng (initServer sampleCap)))) =
              whiteMoves (mlog (eng (initServer sampleCap))) @ ws \<and>
            blackMoves (mlog (startGame (eng (initServer sampleCap)))) =
              blackMoves (mlog (eng (initServer sampleCap))) @ bs \<and> length ws + length bs \<le> 1)"
proof -
  have ok: "dispatch sampleCap StartGame (initServer sampleCap) =
              Inr ((initServer sampleCap)\<lparr>eng := startGame (eng (initServer sampleCap))\<rparr>)" by simp
  have nc: "\<not> clearsLog StartGame" by (simp add: clearsLog_def)
  show ?thesis using log_append_only [OF ok nc] ok nc by simp
qed

theorem reachable_board_square_witness:
  "length (tiles (board (eng (initServer sampleCap)))) = 8 \<and> square 8 (tiles (board (eng (initServer sampleCap))))"
proof -
  have l: "length (tiles (board (eng (initServer sampleCap)))) = 8" by code_simp
  from reachable_board_square [OF reachable.init sampleCap_keeps_board]
  obtain n where "square n (tiles (board (eng (initServer sampleCap))))" by blast
  moreover from this l have "n = 8" by (simp add: square_def)
  ultimately show ?thesis using l by simp
qed

end
