(* ===== verification/Chess_Lobby.thy ===== *)
theory Chess_Lobby
  imports Chess_Server
begin

text \<open>
  The class \<open>Lobby\<close> of \<open>src/Lobby.ts\<close>: a lobby code, the users in joining order and
  one engine. A user is a user name and the socket it joined with; sockets are numbers.

  \<open>addUserToLobby\<close> changes more than the lobby: it registers two listeners on the
  user's socket, a one-shot \<open>leave-lobby\<close> listener (line 47) and, through
  \<open>setupSocketConnectionsForUser\<close> (line 51), the engine's game listeners under a fresh
  registration. The socket's listener table belongs to the caller's state (theory
  \<open>Chess_LobbyList\<close>), so the model returns the listeners to append, each tagged with the
  socket and with the reference of the lobby object that registered it. Socket rooms
  (\<open>socket.join\<close>, \<open>socket.leave\<close>) only route broadcasts and are not modelled.

  The guards \<open>if (!this.users)\<close> (lines 42 and 56) never fire: \<open>users\<close> is set to an
  array by the constructor and only ever replaced by the array \<open>filter\<close> returns.
\<close>

record user =
  username :: string
  usock :: nat

record lobby =
  lobbyCode :: string
  users :: "user list"
  lgame :: server

text \<open>A listener registered on a socket: the one-shot \<open>leave-lobby\<close> listener of the lobby
  object at a reference, with the user name it was registered for, or the game listeners of
  a registration of that lobby's engine.\<close>

datatype listener = LeaveOnce nat string | GameListener nat nat

text \<open>Lines 15--24: the constructor; the engine is built by its own constructor.\<close>

definition newLobby :: "piece_capability \<Rightarrow> string \<Rightarrow> lobby" where
  "newLobby C code = \<lparr>lobbyCode = code, users = [], lgame = initServer C\<rparr>"

text \<open>\<open>ChessGameEngine.getGameInfo\<close> (\<open>src/ChessGameEngine.ts\<close>, lines 22--27) and
  \<open>getLobbyInfo\<close> (lines 29--35): the snapshots sent to the clients.\<close>

definition getGameInfo :: "engine \<Rightarrow> board \<times> move_log" where
  "getGameInfo e = (board e, mlog e)"

definition getLobbyInfo :: "lobby \<Rightarrow> string \<times> string list \<times> board \<times> move_log" where
  "getLobbyInfo l = (lobbyCode l, map username (users l), getGameInfo (eng (lgame l)))"

text \<open>Lines 41--53, for the lobby object at reference \<open>ref\<close>, the user \<open>name\<close> on socket
  \<open>s\<close>, and \<open>r\<close> the fresh registration of the engine's listeners.\<close>

definition addUserToLobby :: "nat \<Rightarrow> string \<Rightarrow> nat \<Rightarrow> nat \<Rightarrow> lobby \<Rightarrow> lobby \<times> (nat \<times> listener) list" where
  "addUserToLobby ref name s r l =
     (l\<lparr>users := users l @ [\<lparr>username = name, usock = s\<rparr>], lgame := registerSocket r (lgame l)\<rparr>,
      [(s, LeaveOnce ref name), (s, GameListener ref r)])"

text \<open>Lines 55--63: whether a user of that name was found, and the lobby without every
  user of that name.\<close>

definition removeUserFromLobby :: "string \<Rightarrow> lobby \<Rightarrow> bool \<times> lobby" where
  "removeUserFromLobby name l =
     (case find (\<lambda>u. username u = name) (users l) of
        None \<Rightarrow> (False, l)
      | Some u \<Rightarrow> (True, l\<lparr>users := filter (\<lambda>u. username u \<noteq> name) (users l)\<rparr>))"

definition lobbySize :: "lobby \<Rightarrow> nat" where
  "lobbySize l = length (users l)"

section \<open>Lemmas\<close>

lemma removeUserFromLobby_found:
  "fst (removeUserFromLobby name l) \<longleftrightarrow> name \<in> set (map username (users l))"
  by (auto simp: removeUserFromLobby_def find_None_iff split: option.split dest: find_SomeD)

lemma removeUserFromLobby_users:
  "map username (users (snd (removeUserFromLobby name l))) = filter (\<lambda>n. n \<noteq> name) (map username (users l))"
  by (auto simp: removeUserFromLobby_def filter_map comp_def find_None_iff filter_True
           split: option.split)

lemma removeUserFromLobby_keeps [simp]:
  "lobbyCode (snd (removeUserFromLobby name l)) = lobbyCode l"
  "lgame (snd (removeUserFromLobby name l)) = lgame l"
  by (simp_all add: removeUserFromLobby_def split: option.split)

lemma addUserToLobby_sel [simp]:
  "lobbyCode (fst (addUserToLobby ref name s r l)) = lobbyCode l"
  "users (fst (addUserToLobby ref name s r l)) = users l @ [\<lparr>username = name, usock = s\<rparr>]"
  "eng (lgame (fst (addUserToLobby ref name s r l))) = eng (lgame l)"
  "snd (addUserToLobby ref name s r l) = [(s, LeaveOnce ref name), (s, GameListener ref r)]"
  by (simp_all add: addUserToLobby_def)

end
