(* ===== verification/Chess_LobbyList.thy ===== *)
theory Chess_LobbyList
  imports Chess_Lobby
begin

text \<open>
  The class \<open>LobbyList\<close> of \<open>src/LobbyList.ts\<close> and the socket listeners the lobbies
  register, as one state \<open>world\<close>.

  Lobby objects are shared: \<open>LobbyList.lobbies\<close> holds references to them, and so do the
  \<open>leave-lobby\<close> listeners the lobbies registered, which keep working after the lobby has
  left the list. The model therefore keeps an explicit store: \<open>objs\<close> is every lobby object
  ever constructed, in allocation order, a reference is an index into it, and
  \<open>lobbies\<close> is the list of references. \<open>listeners\<close> is the listener table of all
  sockets in registration order; \<open>nextReg\<close> numbers the engine registrations.

  \<open>Math.random\<close> is a sequence of draws, \<open>rand w k\<close> the value
  \<open>Math.floor(Math.random() * charactersLength)\<close> of the \<open>k\<close>-th call, and
  \<open>drawn w\<close> counts the calls made so far. The loop of \<open>createNewLobbyCode\<close>
  runs as long as the draws keep producing codes in use, so it is a
  \<open>partial_function (option)\<close>: \<open>None\<close> is the loop that never ends.
\<close>

record world =
  objs :: "lobby list"
  lobbies :: "nat list"
  listeners :: "(nat \<times> listener) list"
  nextReg :: nat
  rand :: "nat \<Rightarrow> nat"
  drawn :: nat

text \<open>A lobby code as the value the handlers pass around: a string, or the \<open>Promise\<close> an
  \<open>async\<close> function returns (resolved with a string). Strict equality between a
  \<open>Promise\<close> and a string is false.\<close>

datatype code_value = CodeString string | CodePromise string

section \<open>Lobby codes\<close>

definition characters :: string where
  "characters = ''ABCDEFGHIJKLMNOPQRSTUVWXYZ0123456789''"

text \<open>\<open>String.prototype.charAt\<close>: the empty string out of range.\<close>

definition charAt :: "string \<Rightarrow> nat \<Rightarrow> string" where
  "charAt s i = (if i < length s then [s ! i] else [])"

text \<open>Lines 30--39: four draws, one character each.\<close>

definition makeId :: "(nat \<Rightarrow> nat) \<Rightarrow> nat \<Rightarrow> string \<times> nat" where
  "makeId rnd k = (concat (map (\<lambda>i. charAt characters (rnd (k + i))) [0..<4]), k + 4)"

text \<open>Line 21: the loop condition, over the codes of the listed lobbies.\<close>

partial_function (option) newCodeLoop ::
  "string list \<Rightarrow> (nat \<Rightarrow> nat) \<Rightarrow> string \<Rightarrow> nat \<Rightarrow> (string \<times> nat) option" where
  "newCodeLoop codes rnd code k =
     (if length (filter (\<lambda>c. c = code) codes) \<noteq> 0
      then (case makeId rnd k of (code', k') \<Rightarrow> newCodeLoop codes rnd code' k')
      else Some (code, k))"

declare newCodeLoop.simps [code]

text \<open>Lines 18--25.\<close>

definition createNewLobbyCode :: "string list \<Rightarrow> (nat \<Rightarrow> nat) \<Rightarrow> nat \<Rightarrow> (string \<times> nat) option" where
  "createNewLobbyCode codes rnd k = (case makeId rnd k of (code, k') \<Rightarrow> newCodeLoop codes rnd code k')"

section \<open>The lobby list\<close>

definition lobbyCodes :: "world \<Rightarrow> string list" where
  "lobbyCodes w = map (\<lambda>i. lobbyCode (objs w ! i)) (lobbies w)"

text \<open>Lines 46--51: a fresh code is computed (and returned wrapped in a \<open>Promise\<close>), but
  the new lobby is constructed with the code \<open>AAAA\<close>.\<close>

definition addNewLobby :: "piece_capability \<Rightarrow> world \<Rightarrow> (code_value \<times> world) option" where
  "addNewLobby C w =
     (case createNewLobbyCode (lobbyCodes w) (rand w) (drawn w) of
        None \<Rightarrow> None
      | Some (code, k) \<Rightarrow>
          Some (CodePromise code,
                w\<lparr>objs := objs w @ [newLobby C ''AAAA''], lobbies := lobbies w @ [length (objs w)],
                  drawn := k\<rparr>))"

text \<open>Lines 59--68: the first listed lobby whose code equals the given value joins the
  user; when there is none, an error message is emitted to the socket and nothing changes.\<close>

definition addUserToLobbyList :: "code_value \<Rightarrow> string \<Rightarrow> nat \<Rightarrow> world \<Rightarrow> world" where
  "addUserToLobbyList code name s w =
     (case find (\<lambda>i. CodeString (lobbyCode (objs w ! i)) = code) (lobbies w) of
        None \<Rightarrow> w
      | Some i \<Rightarrow>
          (case addUserToLobby i name s (nextReg w) (objs w ! i) of
             (l', ls) \<Rightarrow> w\<lparr>objs := (objs w)[i := l'], listeners := listeners w @ ls,
                          nextReg := Suc (nextReg w)\<rparr>))"

text \<open>Lines 74--83: the \<open>filter\<close> callback removes the user from each listed lobby, in
  order, mutating the lobby object, and drops the lobby when the user was found and the lobby
  is now empty.\<close>

fun removeFromEach :: "string \<Rightarrow> nat list \<Rightarrow> lobby list \<Rightarrow> nat list \<times> lobby list" where
  "removeFromEach name [] os = ([], os)"
| "removeFromEach name (i # is) os =
     (case removeUserFromLobby name (os ! i) of
        (wasRemoved, l') \<Rightarrow>
          (case removeFromEach name is (os[i := l']) of
             (kept, os') \<Rightarrow> (if wasRemoved \<and> lobbySize l' = 0 then kept else i # kept, os')))"

definition removeUserFromLobbies :: "string \<Rightarrow> world \<Rightarrow> world" where
  "removeUserFromLobbies name w =
     (case removeFromEach name (lobbies w) (objs w) of
        (kept, os) \<Rightarrow> w\<lparr>lobbies := kept, objs := os\<rparr>)"

section \<open>An abstract view of the lobby list\<close>

text \<open>What the clients can observe of the list: each listed lobby's code and user names.\<close>

definition view :: "world \<Rightarrow> (string \<times> string list) list" where
  "view w = map (\<lambda>i. (lobbyCode (objs w ! i), map username (users (objs w ! i)))) (lobbies w)"

text \<open>The specification of leaving: the user leaves every lobby, and a lobby the user
  was in and that is empty afterwards disappears.\<close>

definition leaveAll :: "string \<Rightarrow> (string \<times> string list) list \<Rightarrow> (string \<times> string list) list" where
  "leaveAll name v =
     concat (map (\<lambda>(c, us). if name \<in> set us \<and> filter (\<lambda>n. n \<noteq> name) us = [] then []
                          else [(c, filter (\<lambda>n. n \<noteq> name) us)]) v)"

text \<open>The specification of joining: the first entry with the code gets the user.\<close>

fun joinFirst :: "code_value \<Rightarrow> string \<Rightarrow> (string \<times> string list) list \<Rightarrow> (string \<times> string list) list" where
  "joinFirst code name [] = []"
| "joinFirst code name ((c, us) # v) =
     (if CodeString c = code then (c, us @ [name]) # v else (c, us) # joinFirst code name v)"

text \<open>References are valid and the list holds each lobby object at most once.\<close>

definition refsOk :: "world \<Rightarrow> bool" where
  "refsOk w \<longleftrightarrow> distinct (lobbies w) \<and> (\<forall>i \<in> set (lobbies w). i < length (objs w))"

text \<open>A list of two lobbies for the witnesses.\<close>

definition sampleWorld :: world where
  "sampleWorld =
     \<lparr>objs = [(newLobby sampleCap ''AAAA'')\<lparr>users := [\<lparr>username = ''bob'', usock = 1\<rparr>,
                                                     \<lparr>username = ''alice'', usock = 2\<rparr>]\<rparr>,
              (newLobby sampleCap ''BBBB'')\<lparr>users := [\<lparr>username = ''bob'', usock = 3\<rparr>]\<rparr>],
      lobbies = [0, 1], listeners = [], nextReg = 0, rand = (\<lambda>_. 0), drawn = 0\<rparr>"

section \<open>Lemmas\<close>

lemma length_charAt: "i < length s \<Longrightarrow> length (charAt s i) = 1"
  by (simp add: charAt_def)

lemma set_charAt: "set (charAt s i) \<subseteq> set s"
  by (auto simp: charAt_def)

lemma length_characters: "length characters = 36"
  by (simp add: characters_def)

lemma newCodeLoop_unfold:
  "newCodeLoop codes rnd code k =
     (if code \<in> set codes then newCodeLoop codes rnd (fst (makeId rnd k)) (snd (makeId rnd k))
      else Some (code, k))"
  by (subst newCodeLoop.simps) (simp add: filter_empty_conv split: prod.split)

lemma snd_makeId [simp]: "snd (makeId rnd k) = k + 4"
  by (simp add: makeId_def)

lemma createNewLobbyCode_unfold:
  "createNewLobbyCode codes rnd k = newCodeLoop codes rnd (fst (makeId rnd k)) (k + 4)"
  by (simp add: createNewLobbyCode_def makeId_def)

lemma newCodeLoop_fresh:
  "fst (makeId rnd (k + 4 * n)) \<notin> set codes \<Longrightarrow>
   \<exists>c k'. newCodeLoop codes rnd (fst (makeId rnd k)) (k + 4) = Some (c, k') \<and> c \<notin> set codes"
proof (induction n arbitrary: k)
  case 0
  then show ?case by (simp add: newCodeLoop_unfold)
next
  case (Suc n)
  show ?case
  proof (cases "fst (makeId rnd k) \<in> set codes")
    case True
    have "fst (makeId rnd ((k + 4) + 4 * n)) \<notin> set codes"
      using Suc.prems by (simp add: algebra_simps)
    from Suc.IH [OF this] True show ?thesis
      by (simp add: newCodeLoop_unfold [of codes rnd "fst (makeId rnd k)"] add.assoc)
  next
    case False
    then show ?thesis by (simp add: newCodeLoop_unfold)
  qed
qed

lemma removeFromEach_spec:
  assumes "distinct is" and "\<forall>i \<in> set is. i < length os"
  shows "fst (removeFromEach name is os) =
           filter (\<lambda>i. \<not> (fst (removeUserFromLobby name (os ! i)) \<and>
                          lobbySize (snd (removeUserFromLobby name (os ! i))) = 0)) is \<and>
         length (snd (removeFromEach name is os)) = length os \<and>
         (\<forall>j < length os. snd (removeFromEach name is os) ! j =
            (if j \<in> set is then snd (removeUserFromLobby name (os ! j)) else os ! j))"
  using assms
proof (induction "is" arbitrary: os)
  case Nil
  then show ?case by simp
next
  case (Cons i "is")
  define l' where "l' = snd (removeUserFromLobby name (os ! i))"
  define os1 where "os1 = os[i := l']"
  have dis: "distinct is" "i \<notin> set is" using Cons.prems by simp_all
  have lt: "\<forall>j \<in> set is. j < length os1" using Cons.prems by (simp add: os1_def)
  have same: "os1 ! j = os ! j" if "j \<in> set is" for j
  proof -
    have "j \<noteq> i" using that dis(2) by blast
    then show ?thesis by (simp add: os1_def)
  qed
  note IH = Cons.IH [OF dis(1) lt]
  have rfe: "removeFromEach name (i # is) os =
               (if fst (removeUserFromLobby name (os ! i)) \<and> lobbySize l' = 0
                then fst (removeFromEach name is os1) else i # fst (removeFromEach name is os1),
                snd (removeFromEach name is os1))"
    by (simp add: l'_def os1_def split: prod.split)
  have flt: "filter (\<lambda>j. \<not> (fst (removeUserFromLobby name (os1 ! j)) \<and>
                          lobbySize (snd (removeUserFromLobby name (os1 ! j))) = 0)) is =
             filter (\<lambda>j. \<not> (fst (removeUserFromLobby name (os ! j)) \<and>
                          lobbySize (snd (removeUserFromLobby name (os ! j))) = 0)) is"
    by (rule filter_cong) (simp_all add: same)
  have ilt: "i < length os" using Cons.prems by simp
  have A: "fst (removeFromEach name is os1) =
             filter (\<lambda>j. \<not> (fst (removeUserFromLobby name (os ! j)) \<and>
                            lobbySize (snd (removeUserFromLobby name (os ! j))) = 0)) is"
    using IH flt by simp
  have B: "length (snd (removeFromEach name is os1)) = length os"
    using IH by (simp add: os1_def)
  have C: "snd (removeFromEach name is os1) ! j =
             (if j \<in> set (i # is) then snd (removeUserFromLobby name (os ! j)) else os ! j)"
    if j: "j < length os" for j
  proof -
    have j1: "j < length os1" using j by (simp add: os1_def)
    show ?thesis
    proof (cases "j = i")
      case True
      with IH j1 dis(2) ilt show ?thesis by (simp add: os1_def l'_def)
    next
      case False
      with IH j1 show ?thesis by (auto simp: os1_def same)
    qed
  qed
  show ?case
    unfolding rfe using A B C by (simp add: l'_def)
qed

lemma lobbySize_remove_zero:
  "lobbySize (snd (removeUserFromLobby name l)) = 0 \<longleftrightarrow>
   filter (\<lambda>n. n \<noteq> name) (map username (users l)) = []"
proof -
  have "lobbySize (snd (removeUserFromLobby name l)) =
          length (map username (users (snd (removeUserFromLobby name l))))"
    by (simp add: lobbySize_def)
  then show ?thesis by (simp add: removeUserFromLobby_users filter_map)
qed

text \<open>C19. Leaving refines its specification: on the clients' view of the list (each listed
  lobby's code and user names), \<open>removeUserFromLobbies\<close> removes the user from every lobby
  and drops exactly the lobbies the user was in that are empty afterwards, provided the list
  holds each lobby object once.\<close>

theorem removeUserFromLobbies_refines:
  assumes "refsOk w"
  shows "view (removeUserFromLobbies name w) = leaveAll name (view w)"
proof -
  obtain kept os where r: "removeFromEach name (lobbies w) (objs w) = (kept, os)" by fastforce
  from assms have d: "distinct (lobbies w)" and lt: "\<forall>i \<in> set (lobbies w). i < length (objs w)"
    by (simp_all add: refsOk_def)
  note spec = removeFromEach_spec [OF d lt, of name, unfolded r fst_conv snd_conv]
  have os: "os ! i = snd (removeUserFromLobby name (objs w ! i))" if "i \<in> set (lobbies w)" for i
    using spec that lt by auto
  have "view (removeUserFromLobbies name w) =
          map (\<lambda>i. (lobbyCode (os ! i), map username (users (os ! i)))) kept"
    by (simp add: removeUserFromLobbies_def r view_def)
  also have "\<dots> = map (\<lambda>i. (lobbyCode (objs w ! i),
                         filter (\<lambda>n. n \<noteq> name) (map username (users (objs w ! i))))) kept"
    using spec by (auto simp: os removeUserFromLobby_users)
  also have "\<dots> = leaveAll name (view w)"
    using spec
    by (simp add: leaveAll_def view_def comp_def concat_map_if_Nil removeUserFromLobby_found
        lobbySize_remove_zero)
  finally show ?thesis .
qed


lemma joinFirst_find:
  assumes "distinct L"
  shows "joinFirst code name (map (\<lambda>j. (C j, U j)) L) =
           (case find (\<lambda>j. CodeString (C j) = code) L of
              None \<Rightarrow> map (\<lambda>j. (C j, U j)) L
            | Some i \<Rightarrow> map (\<lambda>j. if j = i then (C j, U j @ [name]) else (C j, U j)) L)"
  using assms
proof (induction L)
  case Nil
  then show ?case by simp
next
  case (Cons j L)
  show ?case
  proof (cases "CodeString (C j) = code")
    case True
    with Cons.prems show ?thesis by (auto intro: map_cong)
  next
    case False
    have ne: "j \<noteq> i" if "find (\<lambda>j. CodeString (C j) = code) L = Some i" for i
      using Cons.prems find_SomeD [OF that] by auto
    from False Cons.IH Cons.prems show ?thesis
      by (auto split: option.split dest: ne)
  qed
qed

lemma view_objs_update:
  assumes "\<forall>j \<in> set L. j < length os" and "i < length os"
  shows "map (\<lambda>j. (lobbyCode (os[i := x] ! j), map username (users (os[i := x] ! j)))) L =
         map (\<lambda>j. if j = i then (lobbyCode x, map username (users x))
                   else (lobbyCode (os ! j), map username (users (os ! j)))) L"
  using assms by (auto intro: map_cong)

text \<open>C20. Joining refines its specification: on the view, the user is appended to the first
  listed lobby whose code equals the given value, and nothing changes when there is none.\<close>

theorem addUserToLobbyList_refines:
  assumes "refsOk w"
  shows "view (addUserToLobbyList code name s w) = joinFirst code name (view w)"
proof (cases "find (\<lambda>i. CodeString (lobbyCode (objs w ! i)) = code) (lobbies w)")
  case None
  then show ?thesis
    using assms by (simp add: addUserToLobbyList_def view_def joinFirst_find refsOk_def)
next
  case (Some i)
  from assms have d: "distinct (lobbies w)" and lt: "\<forall>j \<in> set (lobbies w). j < length (objs w)"
    by (simp_all add: refsOk_def)
  have ilt: "i < length (objs w)" using lt find_SomeD [OF Some] by blast
  show ?thesis
    using Some d lt ilt
    by (simp add: addUserToLobbyList_def addUserToLobby_def view_def joinFirst_find view_objs_update)
qed

text \<open>C21. The code loop ends as soon as the draws produce a code no listed lobby has: if some
  block of four draws gives a fresh code, \<open>createNewLobbyCode\<close> returns, and what it
  returns is a fresh code.\<close>

theorem createNewLobbyCode_terminates:
  "fst (makeId rnd (k + 4 * n)) \<notin> set codes \<Longrightarrow>
   \<exists>c k'. createNewLobbyCode codes rnd k = Some (c, k') \<and> c \<notin> set codes"
  using newCodeLoop_fresh [of rnd k n codes] by (simp add: createNewLobbyCode_unfold)

lemma newCodeLoop_Some:
  assumes "newCodeLoop codes rnd code k = Some y"
  shows "fst y \<notin> set codes \<and> (fst y = code \<or> (\<exists>n. fst y = fst (makeId rnd (k + 4 * n))))"
proof (rule newCodeLoop.raw_induct
         [where P = "\<lambda>codes rnd code k y. fst y \<notin> set codes \<and>
                         (fst y = code \<or> (\<exists>n. fst y = fst (makeId rnd (k + 4 * n))))", OF _ assms],
       goal_cases)
  case (1 loop codes rnd code k y)
  note IH = "1"(1) and eq = "1"(2)
  show ?case
  proof (cases "code \<in> set codes")
    case True
    then have "loop codes rnd (fst (makeId rnd k)) (k + 4) = Some y"
      using eq by (simp add: filter_empty_conv makeId_def split: prod.splits)
    then have P: "fst y \<notin> set codes \<and>
                  (fst y = fst (makeId rnd k) \<or> (\<exists>n. fst y = fst (makeId rnd (k + 4 + 4 * n))))"
      by (rule IH)
    then have nc: "fst y \<notin> set codes"
      and d: "fst y = fst (makeId rnd k) \<or> (\<exists>n. fst y = fst (makeId rnd (k + 4 + 4 * n)))"
      by blast+
    have "\<exists>n. fst y = fst (makeId rnd (k + 4 * n))"
    proof (rule disjE [OF d])
      assume "fst y = fst (makeId rnd k)"
      then show ?thesis by (intro exI [of _ 0]) simp
    next
      assume "\<exists>n. fst y = fst (makeId rnd (k + 4 + 4 * n))"
      then obtain n where "fst y = fst (makeId rnd (k + 4 + 4 * n))" by blast
      then show ?thesis by (intro exI [of _ "Suc n"]) (simp add: algebra_simps)
    qed
    with nc show ?thesis by blast
  next
    case False
    with eq show ?thesis by (auto simp: filter_empty_conv)
  qed
qed

text \<open>C22. When every block of four draws gives a code some listed lobby has, the code loop
  never ends: \<open>createNewLobbyCode\<close> does not return, and neither does the \<open>create-lobby\<close>
  listener that calls it.\<close>

theorem createNewLobbyCode_diverges:
  assumes "\<forall>n. fst (makeId rnd (k + 4 * n)) \<in> set codes"
  shows "createNewLobbyCode codes rnd k = None"
proof (rule ccontr)
  assume "createNewLobbyCode codes rnd k \<noteq> None"
  then obtain y where "newCodeLoop codes rnd (fst (makeId rnd k)) (k + 4) = Some y"
    by (auto simp: createNewLobbyCode_def makeId_def split: prod.splits)
  from newCodeLoop_Some [OF this] obtain n where "fst y \<notin> set codes"
    and "fst y = fst (makeId rnd k) \<or> fst y = fst (makeId rnd (k + 4 + 4 * n))" by blast
  moreover have "fst (makeId rnd k) \<in> set codes" using assms [rule_format, of 0] by simp
  moreover have "fst (makeId rnd (k + 4 + 4 * n)) \<in> set codes"
    using assms [rule_format, of "Suc n"] by (simp add: algebra_simps)
  ultimately show False by auto
qed

text \<open>C23. For draws in range, \<open>makeId\<close> returns four characters of \<open>characters\<close> and
  consumes exactly four draws.\<close>

theorem makeId_bounds:
  assumes "\<forall>i < 4. rnd (k + i) < 36"
  shows "length (fst (makeId rnd k)) = 4 \<and> set (fst (makeId rnd k)) \<subseteq> set characters \<and>
         snd (makeId rnd k) = k + 4"
proof -
  have "rnd (k + i) < length characters" if "i < 4" for i
    using assms that by (simp add: length_characters)
  then have l: "length (charAt characters (rnd (k + i))) = 1" if "i < 4" for i
    using that by (simp add: length_charAt)
  have "length (fst (makeId rnd k)) = 4"
    using l [of 0] l [of 1] l [of 2] l [of 3]
    by (simp add: makeId_def length_concat comp_def eval_nat_numeral upt_rec)
  moreover have "set (fst (makeId rnd k)) \<subseteq> set characters"
    using set_charAt by (fastforce simp: makeId_def)
  ultimately show ?thesis by simp
qed

section \<open>Witnesses\<close>

theorem removeUserFromLobbies_refines_witness:
  "view (removeUserFromLobbies ''bob'' sampleWorld) = leaveAll ''bob'' (view sampleWorld) \<and>
   view (removeUserFromLobbies ''bob'' sampleWorld) = [(''AAAA'', [''alice''])]"
proof -
  have r: "refsOk sampleWorld" by code_simp
  have v: "view (removeUserFromLobbies ''bob'' sampleWorld) = [(''AAAA'', [''alice''])]" by code_simp
  show ?thesis using removeUserFromLobbies_refines [OF r, of "''bob''"] v by simp
qed

theorem addUserToLobbyList_refines_witness:
  "view (addUserToLobbyList (CodeString ''BBBB'') ''carol'' 4 sampleWorld) =
     joinFirst (CodeString ''BBBB'') ''carol'' (view sampleWorld) \<and>
   view (addUserToLobbyList (CodeString ''BBBB'') ''carol'' 4 sampleWorld) =
     [(''AAAA'', [''bob'', ''alice'']), (''BBBB'', [''bob'', ''carol''])]"
proof -
  have r: "refsOk sampleWorld" by code_simp
  have v: "view (addUserToLobbyList (CodeString ''BBBB'') ''carol'' 4 sampleWorld) =
             [(''AAAA'', [''bob'', ''alice'']), (''BBBB'', [''bob'', ''carol''])]" by code_simp
  show ?thesis using addUserToLobbyList_refines [OF r, of "CodeString ''BBBB''" "''carol''" 4] v by simp
qed

theorem createNewLobbyCode_terminates_witness:
  "fst (makeId (\<lambda>k. if k < 4 then 0 else 1) (0 + 4 * 1)) \<notin> set [''AAAA''] \<and>
   (\<exists>c k'. createNewLobbyCode [''AAAA''] (\<lambda>k. if k < 4 then 0 else 1) 0 = Some (c, k') \<and>
           c \<notin> set [''AAAA'']) \<and>
   createNewLobbyCode [''AAAA''] (\<lambda>k. if k < 4 then 0 else 1) 0 = Some (''BBBB'', 8)"
proof -
  have h: "fst (makeId (\<lambda>k. if k < 4 then 0 else 1) (0 + 4 * 1)) \<notin> set [''AAAA'']" by code_simp
  have v: "createNewLobbyCode [''AAAA''] (\<lambda>k. if k < 4 then 0 else 1) 0 = Some (''BBBB'', 8)" by code_simp
  show ?thesis using createNewLobbyCode_terminates [OF h] h v by blast
qed

theorem makeId_bounds_witness:
  "length (fst (makeId (\<lambda>k. k + 25) 7)) = 4 \<and> set (fst (makeId (\<lambda>k. k + 25) 7)) \<subseteq> set characters \<and>
   snd (makeId (\<lambda>k. k + 25) 7) = 7 + 4 \<and> fst (makeId (\<lambda>k. k + 25) 7) = ''6789''"
proof -
  have h: "\<forall>i < 4. (\<lambda>k. k + 25) (7 + i) < (36::nat)" by simp
  have v: "fst (makeId (\<lambda>k. k + 25) 7) = ''6789''" by code_simp
  show ?thesis using makeId_bounds [OF h] v by simp
qed

theorem createNewLobbyCode_diverges_witness:
  "fst (makeId (\<lambda>_. 0) 0) = ''AAAA'' \<and> createNewLobbyCode [''AAAA''] (\<lambda>_. 0) 0 = None"
proof -
  have h: "\<forall>n. fst (makeId (\<lambda>_. 0) (0 + 4 * n)) \<in> set [''AAAA'']"
    by (simp add: makeId_def charAt_def characters_def eval_nat_numeral upt_rec)
  have a: "fst (makeId (\<lambda>_. 0) 0) = ''AAAA''" by code_simp
  show ?thesis using createNewLobbyCode_diverges [OF h] a by simp
qed
end
