(* ===== verification/Chess_Sockets.thy ===== *)
theory Chess_Sockets
  imports Chess_LobbyList
begin

text \<open>
  The socket wiring of \<open>src/index.ts\<close>, composed with the lobbies and their engines. At
  start-up the server builds a \<open>LobbyList\<close> and adds one lobby (lines 13--14); each
  connecting socket gets three listeners (lines 18--32): \<open>create-lobby\<close>, \<open>join-lobby\<close>
  and \<open>leave-lobby\<close>. Joining a lobby adds the lobby's listeners to the socket
  (\<open>Chess_Lobby\<close>). An event on a socket runs that socket's listeners for the event in
  registration order, as \<open>EventEmitter.emit\<close> does: for \<open>leave-lobby\<close> first the
  listener of \<open>index.ts\<close>, registered on connection, then every one-shot listener of a
  lobby, each removed as it fires; for a game message the game listeners of every
  registration of the socket, in the lobbies they belong to, stopping at the first one that
  throws (the exception leaves \<open>emit\<close>).

  \<open>worldStep\<close> is one event on one socket: \<open>None\<close> when it never returns (the code loop
  of \<open>create-lobby\<close>), \<open>Inl\<close> when a listener throws, \<open>Inr\<close> the new state.
  \<open>worldReach\<close> is the set of states the events reach from the start-up state.
\<close>

text \<open>The messages of the engine's listeners, without the registration they reach.\<close>

datatype game_msg =
    MChooseTeam color
  | MStartGame
  | MQuitGame
  | MReset "int option"
  | MMakeMove coord coord
  | MPlaceVanguard coord

datatype client_event =
    CreateLobby string
  | JoinLobby string string
  | LeaveLobby string
  | Game game_msg

fun toEvent :: "nat \<Rightarrow> game_msg \<Rightarrow> event" where
  "toEvent r (MChooseTeam c) = ChooseTeam r c"
| "toEvent r MStartGame = StartGame"
| "toEvent r MQuitGame = QuitGame"
| "toEvent r (MReset sz) = Reset sz"
| "toEvent r (MMakeMove src dest) = MakeMove r src dest"
| "toEvent r (MPlaceVanguard pos) = PlaceVanguard r pos"

text \<open>The one-shot \<open>leave-lobby\<close> listeners and the game listeners of a socket, in
  registration order.\<close>

definition leaveOnces :: "nat \<Rightarrow> (nat \<times> listener) list \<Rightarrow> (nat \<times> string) list" where
  "leaveOnces s ls = concat (map (\<lambda>(s', l). case l of LeaveOnce i n \<Rightarrow> if s' = s then [(i, n)] else []
                                               | GameListener i r \<Rightarrow> []) ls)"

definition gameRegs :: "nat \<Rightarrow> (nat \<times> listener) list \<Rightarrow> (nat \<times> nat) list" where
  "gameRegs s ls = concat (map (\<lambda>(s', l). case l of GameListener i r \<Rightarrow> if s' = s then [(i, r)] else []
                                             | LeaveOnce i n \<Rightarrow> []) ls)"

text \<open>\<open>Lobby.ts\<close> line 47: each one-shot listener removes the user it was registered for,
  whatever name the message carries, and is removed from the socket.\<close>

definition fireLeave :: "nat \<Rightarrow> world \<Rightarrow> world" where
  "fireLeave s w =
     w\<lparr>objs := fold (\<lambda>(i, n) os. os[i := snd (removeUserFromLobby n (os ! i))]) (leaveOnces s (listeners w)) (objs w),
       listeners := filter (\<lambda>(s', l). \<not> (s' = s \<and> (case l of LeaveOnce i n \<Rightarrow> True | GameListener i r \<Rightarrow> False)))
                      (listeners w)\<rparr>"

fun fireGame :: "piece_capability \<Rightarrow> game_msg \<Rightarrow> (nat \<times> nat) list \<Rightarrow> lobby list \<Rightarrow> error + lobby list" where
  "fireGame C m [] os = Inr os"
| "fireGame C m ((i, r) # rest) os =
     (case dispatch C (toEvent r m) (lgame (os ! i)) of
        Inl err \<Rightarrow> Inl err
      | Inr sv \<Rightarrow> fireGame C m rest (os[i := (os ! i)\<lparr>lgame := sv\<rparr>]))"

text \<open>Lines 18--32.\<close>

definition worldStep :: "piece_capability \<Rightarrow> nat \<Rightarrow> client_event \<Rightarrow> world \<Rightarrow> (error + world) option" where
  "worldStep C s ev w =
     (case ev of
        CreateLobby name \<Rightarrow>
          (case addNewLobby C w of
             None \<Rightarrow> None
           | Some (code, w1) \<Rightarrow> Some (Inr (addUserToLobbyList code name s w1)))
      | JoinLobby code name \<Rightarrow> Some (Inr (addUserToLobbyList (CodeString code) name s w))
      | LeaveLobby name \<Rightarrow> Some (Inr (fireLeave s (removeUserFromLobbies name w)))
      | Game m \<Rightarrow> Some (map_sum id (\<lambda>os. w\<lparr>objs := os\<rparr>) (fireGame C m (gameRegs s (listeners w)) (objs w))))"

text \<open>Lines 13--14: the list and its first lobby, for a sequence of draws.\<close>

definition emptyWorld :: "(nat \<Rightarrow> nat) \<Rightarrow> world" where
  "emptyWorld rnd = \<lparr>objs = [], lobbies = [], listeners = [], nextReg = 0, rand = rnd, drawn = 0\<rparr>"

definition startWorld :: "piece_capability \<Rightarrow> (nat \<Rightarrow> nat) \<Rightarrow> world option" where
  "startWorld C rnd = map_option snd (addNewLobby C (emptyWorld rnd))"

inductive worldReach :: "piece_capability \<Rightarrow> world \<Rightarrow> bool" for C where
  init: "startWorld C rnd = Some w \<Longrightarrow> worldReach C w"
| step: "worldReach C w \<Longrightarrow> worldStep C s ev w = Some (Inr w') \<Longrightarrow> worldReach C w'"

text \<open>The invariant of the lobby layer: references valid and unique, every lobby object
  built with the code \<open>AAAA\<close>.\<close>

definition worldInv :: "world \<Rightarrow> bool" where
  "worldInv w \<longleftrightarrow> refsOk w \<and> (\<forall>l \<in> set (objs w). lobbyCode l = ''AAAA'')"

text \<open>The engines of all lobby objects satisfy the engine's invariant.\<close>

definition enginesInv :: "world \<Rightarrow> bool" where
  "enginesInv w \<longleftrightarrow> (\<forall>l \<in> set (objs w). engineInv (eng (lgame l)))"

text \<open>The start-up state for the witnesses: the draws run through the characters in order.\<close>

definition sampleStart :: world where
  "sampleStart = the (startWorld sampleCap (\<lambda>k. k mod 36))"

section \<open>Lemmas\<close>


lemma addNewLobby_Some:
  "addNewLobby C w = Some (c, w1) \<Longrightarrow>
   (\<exists>code. c = CodePromise code) \<and> objs w1 = objs w @ [newLobby C ''AAAA''] \<and>
   lobbies w1 = lobbies w @ [length (objs w)] \<and> listeners w1 = listeners w"
  by (auto simp: addNewLobby_def split: option.splits)

lemma addUserToLobbyList_Promise [simp]: "addUserToLobbyList (CodePromise c) name s w = w"
proof -
  have "find (\<lambda>i. CodeString (lobbyCode (objs w ! i)) = CodePromise c) (lobbies w) = None"
    by (simp add: find_None_iff)
  then show ?thesis by (simp add: addUserToLobbyList_def)
qed

lemma addUserToLobbyList_cases:
  "addUserToLobbyList code name s w = w \<or>
   (\<exists>i. i \<in> set (lobbies w) \<and>
        lobbies (addUserToLobbyList code name s w) = lobbies w \<and>
        objs (addUserToLobbyList code name s w) =
          (objs w)[i := fst (addUserToLobby i name s (nextReg w) (objs w ! i))])"
  by (auto simp: addUserToLobbyList_def addUserToLobby_def dest: find_SomeD split: option.split)

lemma objs_all_addUserToLobbyList:
  assumes all: "\<forall>l \<in> set (objs w). P l"
    and pres: "\<And>l i. P l \<Longrightarrow> P (fst (addUserToLobby i name s (nextReg w) l))"
  shows "\<forall>l \<in> set (objs (addUserToLobbyList code name s w)). P l"
proof (cases "addUserToLobbyList code name s w = w")
  case True
  with all show ?thesis by simp
next
  case False
  with addUserToLobbyList_cases [of code name s w] obtain i where
    eq: "objs (addUserToLobbyList code name s w) =
           (objs w)[i := fst (addUserToLobby i name s (nextReg w) (objs w ! i))]" by blast
  have "i < length (objs w) \<Longrightarrow> P (fst (addUserToLobby i name s (nextReg w) (objs w ! i)))"
    by (rule pres) (simp add: all nth_mem)
  from set_update_nth_all [OF all, where i = i and f = "\<lambda>l. fst (addUserToLobby i name s (nextReg w) l)", OF this]
  show ?thesis unfolding eq .
qed

lemma refsOk_addUserToLobbyList: "refsOk w \<Longrightarrow> refsOk (addUserToLobbyList code name s w)"
  using addUserToLobbyList_cases [of code name s w] by (auto simp: refsOk_def)

lemma removeUserFromLobbies_parts:
  assumes "refsOk w"
  obtains kept os where "lobbies (removeUserFromLobbies name w) = kept"
    and "objs (removeUserFromLobbies name w) = os"
    and "listeners (removeUserFromLobbies name w) = listeners w"
    and "kept = filter (\<lambda>i. \<not> (fst (removeUserFromLobby name (objs w ! i)) \<and>
                          lobbySize (snd (removeUserFromLobby name (objs w ! i))) = 0)) (lobbies w)"
    and "length os = length (objs w)"
    and "\<forall>j < length (objs w). os ! j =
           (if j \<in> set (lobbies w) then snd (removeUserFromLobby name (objs w ! j)) else objs w ! j)"
proof -
  obtain kept os where r: "removeFromEach name (lobbies w) (objs w) = (kept, os)" by fastforce
  from assms have d: "distinct (lobbies w)" and lt: "\<forall>i \<in> set (lobbies w). i < length (objs w)"
    by (simp_all add: refsOk_def)
  note spec = removeFromEach_spec [OF d lt, of name, unfolded r fst_conv snd_conv]
  show ?thesis
    by (rule that [of kept os]) (use spec in \<open>simp_all add: removeUserFromLobbies_def r\<close>)
qed

lemma refsOk_removeUserFromLobbies:
  assumes ok: "refsOk w"
  shows "refsOk (removeUserFromLobbies name w)"
proof (rule removeUserFromLobbies_parts [OF ok, of name])
  fix kept os
  assume "lobbies (removeUserFromLobbies name w) = kept" "objs (removeUserFromLobbies name w) = os"
    "kept = filter (\<lambda>i. \<not> (fst (removeUserFromLobby name (objs w ! i)) \<and>
                          lobbySize (snd (removeUserFromLobby name (objs w ! i))) = 0)) (lobbies w)"
    "length os = length (objs w)"
  with ok show ?thesis by (auto simp: refsOk_def)
qed

lemma objs_all_removeUserFromLobbies:
  assumes ok: "refsOk w" and all: "\<forall>l \<in> set (objs w). P l"
    and pres: "\<And>l. P l \<Longrightarrow> P (snd (removeUserFromLobby name l))"
  shows "\<forall>l \<in> set (objs (removeUserFromLobbies name w)). P l"
proof (rule removeUserFromLobbies_parts [OF ok, of name])
  fix kept os
  assume os: "objs (removeUserFromLobbies name w) = os" and len: "length os = length (objs w)"
    and nth: "\<forall>j < length (objs w). os ! j =
           (if j \<in> set (lobbies w) then snd (removeUserFromLobby name (objs w ! j)) else objs w ! j)"
  have "P (os ! j)" if "j < length os" for j
    using that len nth all pres by (auto simp: nth_mem)
  then show ?thesis by (auto simp: os in_set_conv_nth)
qed

lemma fireLeave_sel [simp]:
  "lobbies (fireLeave s w) = lobbies w"
  "length (objs (fireLeave s w)) = length (objs w)"
  by (simp_all add: fireLeave_def length_fold_update [where f = "\<lambda>n l. snd (removeUserFromLobby n l)"])

lemma objs_all_fireLeave:
  "\<forall>l \<in> set (objs w). P l \<Longrightarrow> (\<And>l n. P l \<Longrightarrow> P (snd (removeUserFromLobby n l))) \<Longrightarrow>
   \<forall>l \<in> set (objs (fireLeave s w)). P l"
  unfolding fireLeave_def
  using fold_update_all [where xs = "objs w" and P = P and f = "\<lambda>n l. snd (removeUserFromLobby n l)"
                          and L = "leaveOnces s (listeners w)"]
  by simp

lemma fireGame_frame:
  "fireGame C m regs os = Inr os' \<Longrightarrow>
   length os' = length os \<and>
   (\<forall>j < length os. j \<notin> fst ` set regs \<longrightarrow> os' ! j = os ! j) \<and>
   (\<forall>j < length os. lobbyCode (os' ! j) = lobbyCode (os ! j) \<and> users (os' ! j) = users (os ! j))"
proof (induction regs arbitrary: os)
  case Nil
  then show ?case by simp
next
  case (Cons p rest)
  obtain i r where p: "p = (i, r)" by fastforce
  from Cons.prems obtain sv where
    f: "fireGame C m rest (os[i := (os ! i)\<lparr>lgame := sv\<rparr>]) = Inr os'"
    by (auto simp: p split: sum.splits)
  define os1 where "os1 = os[i := (os ! i)\<lparr>lgame := sv\<rparr>]"
  have IH: "length os' = length os1 \<and>
            (\<forall>j < length os1. j \<notin> fst ` set rest \<longrightarrow> os' ! j = os1 ! j) \<and>
            (\<forall>j < length os1. lobbyCode (os' ! j) = lobbyCode (os1 ! j) \<and> users (os' ! j) = users (os1 ! j))"
    using Cons.IH [OF f] by (simp add: os1_def)
  have len: "length os1 = length os" by (simp add: os1_def)
  have keep: "lobbyCode (os1 ! j) = lobbyCode (os ! j) \<and> users (os1 ! j) = users (os ! j)" if "j < length os" for j
    using that by (cases "j = i") (simp_all add: os1_def)
  have other: "os1 ! j = os ! j" if "j \<noteq> i" for j
    using that by (simp add: os1_def)
  show ?case
    using IH len keep other by (auto simp: p)
qed

lemma objs_all_fireGame:
  "fireGame C m regs os = Inr os' \<Longrightarrow> \<forall>l \<in> set os. P l \<Longrightarrow>
   (\<And>l ev sv. P l \<Longrightarrow> dispatch C ev (lgame l) = Inr sv \<Longrightarrow> P (l\<lparr>lgame := sv\<rparr>)) \<Longrightarrow>
   \<forall>l \<in> set os'. P l"
proof (induction regs arbitrary: os)
  case Nil
  then show ?case by simp
next
  case (Cons p rest)
  note all = Cons.prems(2) and pres = Cons.prems(3)
  obtain i r where p: "p = (i, r)" by fastforce
  from Cons.prems(1) obtain sv where d: "dispatch C (toEvent r m) (lgame (os ! i)) = Inr sv"
    and f: "fireGame C m rest (os[i := (os ! i)\<lparr>lgame := sv\<rparr>]) = Inr os'"
    by (auto simp: p split: sum.splits)
  have all1: "\<forall>l \<in> set (os[i := (os ! i)\<lparr>lgame := sv\<rparr>]). P l"
  proof (cases "i < length os")
    case True
    then have "os ! i \<in> set os" by (rule nth_mem)
    with all have "P (os ! i)" by blast
    then have "P ((os ! i)\<lparr>lgame := sv\<rparr>)" using d by (rule pres)
    with all show ?thesis by (blast dest: set_update_subset_insert [THEN subsetD])
  next
    case False
    with all show ?thesis by (simp add: list_update_beyond)
  qed
  show ?case by (rule Cons.IH [OF f all1 pres])
qed


lemma refsOk_fireLeave: "refsOk (fireLeave s w) = refsOk w"
  by (simp add: refsOk_def)

lemma usernames_removeUserFromLobby_sub:
  "set (map username (users (snd (removeUserFromLobby n l)))) \<subseteq> set (map username (users l))"
  unfolding removeUserFromLobby_users by auto

lemma fold_remove_keeps_absent:
  "m \<notin> set (map username (users (os ! i))) \<Longrightarrow>
   m \<notin> set (map username (users (fold (\<lambda>(j, n) os. os[j := snd (removeUserFromLobby n (os ! j))]) L os ! i)))"
proof (induction L arbitrary: os)
  case Nil
  then show ?case by simp
next
  case (Cons x L)
  obtain j n where x: "x = (j, n)" by fastforce
  have "m \<notin> set (map username (users ((os[j := snd (removeUserFromLobby n (os ! j))]) ! i)))"
    using Cons.prems usernames_removeUserFromLobby_sub [of n "os ! j"]
    by (cases "j < length os"; cases "i = j") (auto simp: list_update_beyond not_less)
  then show ?case using Cons.IH x by simp
qed

lemma fold_remove_removes:
  "(i, m) \<in> set L \<Longrightarrow> i < length os \<Longrightarrow>
   m \<notin> set (map username (users (fold (\<lambda>(j, n) os. os[j := snd (removeUserFromLobby n (os ! j))]) L os ! i)))"
proof (induction L arbitrary: os)
  case Nil
  then show ?case by simp
next
  case (Cons x L)
  obtain j n where x: "x = (j, n)" by fastforce
  let ?os1 = "os[j := snd (removeUserFromLobby n (os ! j))]"
  show ?case
  proof (cases "x = (i, m)")
    case True
    then have "m \<notin> set (map username (users (?os1 ! i)))"
      using Cons.prems(2) x by (simp add: removeUserFromLobby_users)
    then show ?thesis using fold_remove_keeps_absent x by simp
  next
    case False
    then have "(i, m) \<in> set L" using Cons.prems(1) by simp
    with Cons.IH [of ?os1] Cons.prems(2) x show ?thesis by simp
  qed
qed

lemma addNewLobby_inv:
  assumes "addNewLobby C w = Some (c, w1)" and "worldInv w"
  shows "worldInv w1 \<and> (enginesInv w \<longrightarrow> enginesInv w1)"
proof -
  from addNewLobby_Some [OF assms(1)] have o: "objs w1 = objs w @ [newLobby C ''AAAA'']"
    and l: "lobbies w1 = lobbies w @ [length (objs w)]" by blast+
  from assms(2) have "length (objs w) \<notin> set (lobbies w)"
    by (auto simp: worldInv_def refsOk_def)
  with assms(2) show ?thesis
    by (auto simp: worldInv_def enginesInv_def refsOk_def o l newLobby_def initServer_def engineInv_newEngine)
qed

lemma worldInv_step:
  assumes inv: "worldInv w" and st: "worldStep C s ev w = Some (Inr w')"
  shows "worldInv w'"
proof (cases ev)
  case (CreateLobby name)
  with st obtain c w1 where a: "addNewLobby C w = Some (c, w1)" and w': "w' = addUserToLobbyList c name s w1"
    by (auto simp: worldStep_def split: option.splits)
  from addNewLobby_inv [OF a inv] have i1: "worldInv w1" by blast
  have "\<forall>l \<in> set (objs (addUserToLobbyList c name s w1)). lobbyCode l = ''AAAA''"
    by (rule objs_all_addUserToLobbyList) (use i1 in \<open>simp_all add: worldInv_def\<close>)
  with i1 show ?thesis by (simp add: w' worldInv_def refsOk_addUserToLobbyList)
next
  case (JoinLobby code name)
  with st have w': "w' = addUserToLobbyList (CodeString code) name s w" by (simp add: worldStep_def)
  have "\<forall>l \<in> set (objs (addUserToLobbyList (CodeString code) name s w)). lobbyCode l = ''AAAA''"
    by (rule objs_all_addUserToLobbyList) (use inv in \<open>simp_all add: worldInv_def\<close>)
  with inv show ?thesis by (simp add: w' worldInv_def refsOk_addUserToLobbyList)
next
  case (LeaveLobby name)
  with st have w': "w' = fireLeave s (removeUserFromLobbies name w)" by (simp add: worldStep_def)
  from inv have ok: "refsOk w" and codes: "\<forall>l \<in> set (objs w). lobbyCode l = ''AAAA''"
    by (simp_all add: worldInv_def)
  have "\<forall>l \<in> set (objs (removeUserFromLobbies name w)). lobbyCode l = ''AAAA''"
    by (rule objs_all_removeUserFromLobbies [OF ok codes]) simp
  then have "\<forall>l \<in> set (objs (fireLeave s (removeUserFromLobbies name w))). lobbyCode l = ''AAAA''"
    by (rule objs_all_fireLeave) simp
  then show ?thesis
    using refsOk_removeUserFromLobbies [OF ok, of name]
    by (simp add: w' worldInv_def refsOk_fireLeave)
next
  case (Game m)
  with st obtain os' where f: "fireGame C m (gameRegs s (listeners w)) (objs w) = Inr os'"
    and w': "w' = w\<lparr>objs := os'\<rparr>"
    by (auto simp: worldStep_def)
  from fireGame_frame [OF f] have len: "length os' = length (objs w)" by blast
  from inv have codes: "\<forall>l \<in> set (objs w). lobbyCode l = ''AAAA''" by (simp add: worldInv_def)
  have "\<forall>l \<in> set os'. lobbyCode l = ''AAAA''"
    by (rule objs_all_fireGame [OF f codes]) simp
  with inv len show ?thesis by (simp add: w' worldInv_def refsOk_def)
qed

lemma enginesInv_step:
  assumes kb: "keeps_board C" and inv: "worldInv w" and ei: "enginesInv w"
    and st: "worldStep C s ev w = Some (Inr w')"
  shows "enginesInv w'"
proof (cases ev)
  case (CreateLobby name)
  with st obtain c w1 where a: "addNewLobby C w = Some (c, w1)" and w': "w' = addUserToLobbyList c name s w1"
    by (auto simp: worldStep_def split: option.splits)
  from addNewLobby_inv [OF a inv] ei have e1: "enginesInv w1" by blast
  have "\<forall>l \<in> set (objs (addUserToLobbyList c name s w1)). engineInv (eng (lgame l))"
    by (rule objs_all_addUserToLobbyList) (use e1 in \<open>simp_all add: enginesInv_def\<close>)
  then show ?thesis by (simp add: w' enginesInv_def)
next
  case (JoinLobby code name)
  with st have w': "w' = addUserToLobbyList (CodeString code) name s w" by (simp add: worldStep_def)
  have "\<forall>l \<in> set (objs (addUserToLobbyList (CodeString code) name s w)). engineInv (eng (lgame l))"
    by (rule objs_all_addUserToLobbyList) (use ei in \<open>simp_all add: enginesInv_def\<close>)
  then show ?thesis by (simp add: w' enginesInv_def)
next
  case (LeaveLobby name)
  with st have w': "w' = fireLeave s (removeUserFromLobbies name w)" by (simp add: worldStep_def)
  from inv have ok: "refsOk w" by (simp add: worldInv_def)
  from ei have all: "\<forall>l \<in> set (objs w). engineInv (eng (lgame l))" by (simp add: enginesInv_def)
  have "\<forall>l \<in> set (objs (removeUserFromLobbies name w)). engineInv (eng (lgame l))"
    by (rule objs_all_removeUserFromLobbies [OF ok all]) simp
  then have "\<forall>l \<in> set (objs (fireLeave s (removeUserFromLobbies name w))). engineInv (eng (lgame l))"
    by (rule objs_all_fireLeave) simp
  then show ?thesis by (simp add: w' enginesInv_def)
next
  case (Game m)
  with st obtain os' where f: "fireGame C m (gameRegs s (listeners w)) (objs w) = Inr os'"
    and w': "w' = w\<lparr>objs := os'\<rparr>"
    by (auto simp: worldStep_def)
  from ei have all: "\<forall>l \<in> set (objs w). engineInv (eng (lgame l))" by (simp add: enginesInv_def)
  have "\<forall>l \<in> set os'. engineInv (eng (lgame l))"
  proof (rule objs_all_fireGame [OF f all])
    fix l ev sv
    assume "engineInv (eng (lgame l))" and "dispatch C ev (lgame l) = Inr sv"
    then show "engineInv (eng (lgame (l\<lparr>lgame := sv\<rparr>)))" using engineInv_dispatch [OF kb] by simp
  qed
  then show ?thesis by (simp add: w' enginesInv_def)
qed

lemma startWorld_inv:
  assumes "startWorld C rnd = Some w"
  shows "worldInv w \<and> enginesInv w"
proof -
  from assms obtain c where a: "addNewLobby C (emptyWorld rnd) = Some (c, w)"
    by (auto simp: startWorld_def)
  have "worldInv (emptyWorld rnd) \<and> enginesInv (emptyWorld rnd)"
    by (simp add: emptyWorld_def worldInv_def enginesInv_def refsOk_def)
  with addNewLobby_inv [OF a] show ?thesis by blast
qed

lemma worldReach_inv: "worldReach C w \<Longrightarrow> worldInv w"
proof (induction rule: worldReach.induct)
  case (init rnd w)
  then show ?case using startWorld_inv by blast
next
  case (step w s ev w')
  then show ?case by (blast intro: worldInv_step)
qed

lemma worldReach_engines: "worldReach C w \<Longrightarrow> keeps_board C \<Longrightarrow> enginesInv w"
proof (induction rule: worldReach.induct)
  case (init rnd w)
  then show ?case using startWorld_inv by blast
next
  case (step w s ev w')
  then show ?case using worldReach_inv enginesInv_step by blast
qed


text \<open>C18. The layers compose: in every state the socket events reach, the list's references are
  valid and unique, and the engine of every lobby object satisfies the engine invariant
  (\<open>Chess_Server.reachable_state_invariant\<close>) when the piece module keeps the board.\<close>

theorem reachable_world_invariant:
  assumes "worldReach C w" and "keeps_board C"
  shows "refsOk w \<and> (\<forall>l \<in> set (objs w). engineInv (eng (lgame l)))"
  using worldReach_inv [OF assms(1)] worldReach_engines [OF assms]
  by (simp add: worldInv_def enginesInv_def)

text \<open>C24. \<open>create-lobby\<close> never puts its sender into a lobby: the listener passes the
  \<open>Promise\<close> that \<open>addNewLobby\<close> returns as the code, no lobby code equals it, and
  the only change is a new empty lobby with the code \<open>AAAA\<close> at the end of the list.\<close>

theorem createLobby_never_joins:
  assumes ok: "refsOk w" and st: "worldStep C s (CreateLobby name) w = Some (Inr w')"
  shows "view w' = view w @ [(''AAAA'', [])] \<and> listeners w' = listeners w \<and> nextReg w' = nextReg w"
proof -
  from st obtain c w1 where a: "addNewLobby C w = Some (c, w1)" and w': "w' = addUserToLobbyList c name s w1"
    by (auto simp: worldStep_def split: option.splits)
  from addNewLobby_Some [OF a] obtain code where c: "c = CodePromise code"
    and o: "objs w1 = objs w @ [newLobby C ''AAAA'']" and l: "lobbies w1 = lobbies w @ [length (objs w)]"
    and ls: "listeners w1 = listeners w" by blast
  have nr: "nextReg w1 = nextReg w" using a by (auto simp: addNewLobby_def split: option.splits)
  from ok have lt: "\<forall>i \<in> set (lobbies w). i < length (objs w)" by (simp add: refsOk_def)
  have "view w1 = view w @ [(''AAAA'', [])]"
    using lt by (simp add: view_def o l nth_append newLobby_def)
  with ls nr show ?thesis by (simp add: w' c)
qed

text \<open>C25. Every lobby in a reachable state has the code \<open>AAAA\<close> (the generated code is
  discarded), so joining with any other code fails, and \<open>join-lobby\<close> with \<open>AAAA\<close> can
  only ever reach the first listed lobby.\<close>

theorem lobbies_share_code:
  assumes "worldReach C w"
  shows "(\<forall>p \<in> set (view w). fst p = ''AAAA'') \<and>
         (c \<noteq> ''AAAA'' \<longrightarrow> addUserToLobbyList (CodeString c) name s w = w)"
proof -
  from worldReach_inv [OF assms] have lt: "\<forall>i \<in> set (lobbies w). i < length (objs w)"
    and codes: "\<forall>l \<in> set (objs w). lobbyCode l = ''AAAA''" by (simp_all add: worldInv_def refsOk_def)
  have code: "lobbyCode (objs w ! i) = ''AAAA''" if "i \<in> set (lobbies w)" for i
    using that lt codes by (simp add: nth_mem)
  have "c \<noteq> ''AAAA'' \<Longrightarrow> find (\<lambda>i. CodeString (lobbyCode (objs w ! i)) = CodeString c) (lobbies w) = None"
    using code by (auto simp: find_None_iff)
  then show ?thesis using code by (auto simp: view_def addUserToLobbyList_def)
qed

text \<open>C26. \<open>leave-lobby\<close> removes every user the socket joined as from the lobby it
  joined, whatever name the message carries, and consumes the socket's one-shot listeners.\<close>

theorem leaveLobby_ignores_name:
  assumes ok: "refsOk w" and st: "worldStep C s (LeaveLobby n) w = Some (Inr w')"
    and reg: "(i, m) \<in> set (leaveOnces s (listeners w))" and lt: "i < length (objs w)"
  shows "m \<notin> set (map username (users (objs w' ! i))) \<and> leaveOnces s (listeners w') = []"
proof -
  let ?w1 = "removeUserFromLobbies n w"
  have w': "w' = fireLeave s ?w1" using st by (simp add: worldStep_def)
  obtain kept os where ls: "listeners ?w1 = listeners w" and o: "objs ?w1 = os" and len: "length os = length (objs w)"
    by (rule removeUserFromLobbies_parts [OF ok, of n]) blast+
  have "m \<notin> set (map username (users (objs w' ! i)))"
    using fold_remove_removes [OF _ lt [folded len], of m "leaveOnces s (listeners w)"] reg
    by (simp add: w' fireLeave_def ls o)
  moreover have "leaveOnces s (listeners w') = []"
    by (auto simp: w' fireLeave_def leaveOnces_def split: listener.splits)
  ultimately show ?thesis by blast
qed

theorem leaveLobby_ignores_name_witness:
  "''bob'' \<notin> set (map username (users (objs (projr (the (worldStep sampleCap 1 (LeaveLobby ''alice'') (projr (the (worldStep sampleCap 1 (JoinLobby ''AAAA'' ''bob'') sampleStart)))))) ! 0))) \<and>
   leaveOnces 1 (listeners (projr (the (worldStep sampleCap 1 (LeaveLobby ''alice'') (projr (the (worldStep sampleCap 1 (JoinLobby ''AAAA'' ''bob'') sampleStart))))))) = []"
proof -
  have ok: "refsOk (projr (the (worldStep sampleCap 1 (JoinLobby ''AAAA'' ''bob'') sampleStart)))" by code_simp
  have "case worldStep sampleCap 1 (LeaveLobby ''alice'') (projr (the (worldStep sampleCap 1 (JoinLobby ''AAAA'' ''bob'') sampleStart))) of Some (Inr _) \<Rightarrow> True | _ \<Rightarrow> False"
    by code_simp
  then have st: "worldStep sampleCap 1 (LeaveLobby ''alice'') (projr (the (worldStep sampleCap 1 (JoinLobby ''AAAA'' ''bob'') sampleStart))) =
                 Some (Inr (projr (the (worldStep sampleCap 1 (LeaveLobby ''alice'') (projr (the (worldStep sampleCap 1 (JoinLobby ''AAAA'' ''bob'') sampleStart)))))))"
    by (rule Some_Inr_projr)
  have reg: "(0, ''bob'') \<in> set (leaveOnces 1 (listeners (projr (the (worldStep sampleCap 1 (JoinLobby ''AAAA'' ''bob'') sampleStart)))))" by code_simp
  have lt: "0 < length (objs (projr (the (worldStep sampleCap 1 (JoinLobby ''AAAA'' ''bob'') sampleStart))))" by code_simp
  show ?thesis using leaveLobby_ignores_name [OF ok st reg lt] .
qed

section \<open>Witnesses\<close>

lemma sampleStart_eq: "startWorld sampleCap (\<lambda>k. k mod 36) = Some sampleStart"
  by (simp add: sampleStart_def startWorld_def addNewLobby_def createNewLobbyCode_unfold newCodeLoop_unfold
      emptyWorld_def lobbyCodes_def)

theorem reachable_world_invariant_witness:
  "distinct (lobbies sampleStart) \<and> playersTurn (game (eng (lgame (objs sampleStart ! 0)))) \<noteq> Null"
proof -
  have r: "worldReach sampleCap sampleStart" by (rule worldReach.init [OF sampleStart_eq])
  from reachable_world_invariant [OF r sampleCap_keeps_board]
  have d: "distinct (lobbies sampleStart)" and e: "\<forall>l \<in> set (objs sampleStart). engineInv (eng (lgame l))"
    by (simp_all add: refsOk_def)
  have "0 < length (objs sampleStart)" by code_simp
  then have "objs sampleStart ! 0 \<in> set (objs sampleStart)" by (rule nth_mem)
  with d e show ?thesis by (simp add: engineInv_def)
qed

theorem createLobby_never_joins_witness:
  "let w' = projr (the (worldStep sampleCap 1 (CreateLobby ''bob'') sampleStart)) in
   worldStep sampleCap 1 (CreateLobby ''bob'') sampleStart = Some (Inr w') \<and>
   view w' = view sampleStart @ [(''AAAA'', [])] \<and> listeners w' = listeners sampleStart \<and>
   nextReg w' = nextReg sampleStart"
proof -
  define w' where "w' = projr (the (worldStep sampleCap 1 (CreateLobby ''bob'') sampleStart))"
  have ok: "refsOk sampleStart" by code_simp
  have "case worldStep sampleCap 1 (CreateLobby ''bob'') sampleStart of Some (Inr _) \<Rightarrow> True | _ \<Rightarrow> False"
    by code_simp
  then have st: "worldStep sampleCap 1 (CreateLobby ''bob'') sampleStart = Some (Inr w')"
    unfolding w'_def by (rule Some_Inr_projr)
  show ?thesis
    unfolding Let_def w'_def [symmetric] using createLobby_never_joins [OF ok st] st by blast
qed

theorem lobbies_share_code_witness:
  "fst (hd (view sampleStart)) = ''AAAA'' \<and>
   addUserToLobbyList (CodeString ''BBBB'') ''bob'' 1 sampleStart = sampleStart"
proof -
  have r: "worldReach sampleCap sampleStart" by (rule worldReach.init [OF sampleStart_eq])
  have ne: "view sampleStart \<noteq> []" by code_simp
  from lobbies_share_code [OF r, of "''BBBB''" "''bob''" 1] have
    a: "\<forall>p \<in> set (view sampleStart). fst p = ''AAAA''"
    and b: "addUserToLobbyList (CodeString ''BBBB'') ''bob'' 1 sampleStart = sampleStart" by simp_all
  from ne have "hd (view sampleStart) \<in> set (view sampleStart)" by (rule hd_in_set)
  with a b show ?thesis by blast
qed

end
