(* ===== verification/Chess_Rooms.thy ===== *)
theory Chess_Rooms
  imports Chess_Sockets
begin

text \<open>
  What the sockets receive. Every message of the server is either a direct
  \<open>socket.emit\<close> to one socket, an \<open>io.emit\<close> to every connected socket, or a broadcast
  \<open>sendMessageToAllUsers\<close> of a lobby (\<open>src/Lobby.ts\<close>, lines 75--80), which is
  \<open>io.to(lobbyCode).emit\<close>: it reaches the sockets in the socket.io room named by the
  lobby's code, not the lobby's users (the loop over the users, line 78, is commented
  out). Rooms are joined in \<open>addUserToLobby\<close> (line 44) and left in
  \<open>removeUserFromLobby\<close> (line 59) by the socket of the user found, which need not be the
  socket that asked to leave.

  The room table is a list of (socket, room) memberships, kept without duplicates as
  socket.io keeps a set. \<open>roomsStep\<close> computes, from the state before an event, the room
  table after it and the messages sent, in the order the code sends them; it follows the
  same listeners, in the same order, as \<open>worldStep\<close> (theory \<open>Chess_Sockets\<close>), which
  computes the rest of the state. \<open>netStep\<close> pairs the two and \<open>netReach\<close> is the set of
  states the events reach. Payloads are not modelled, only the event name each message
  carries; the \<open>console.log\<close> calls print and send nothing.
\<close>

text \<open>The events the server emits to the clients, by their names in the code.\<close>

datatype outbound =
    Test
  | VanguardsPlaced bool
  | GameUpdate
  | LogUpdate
  | MakeGame
  | JoinedLobby
  | LobbyUpdated
  | JoinLobbyErr

text \<open>A message goes to one socket, or to every connected socket (\<open>io.emit\<close>).\<close>

datatype recipient = Sock nat | AllSockets

type_synonym delivery = "recipient \<times> outbound"

type_synonym rooms = "(nat \<times> string) list"

text \<open>\<open>socket.join\<close> and \<open>socket.leave\<close>: a room is a JavaScript \<open>Set\<close> of sockets,
  iterated in insertion order; joining twice changes nothing.\<close>

definition joinRoom :: "nat \<Rightarrow> string \<Rightarrow> rooms \<Rightarrow> rooms" where
  "joinRoom s r rs = (if (s, r) \<in> set rs then rs else rs @ [(s, r)])"

definition leaveRoom :: "nat \<Rightarrow> string \<Rightarrow> rooms \<Rightarrow> rooms" where
  "leaveRoom s r rs = removeAll (s, r) rs"

definition roomMembers :: "string \<Rightarrow> rooms \<Rightarrow> nat list" where
  "roomMembers r rs = map fst (filter (\<lambda>p. snd p = r) rs)"

text \<open>\<open>Lobby.sendMessageToAllUsers\<close> (lines 75--80): \<open>this.io\<close> is the server's \<open>io\<close>,
  which \<open>LobbyList\<close> passes to every lobby, so the broadcast always happens.\<close>

definition sendMessageToAllUsers :: "lobby \<Rightarrow> outbound \<Rightarrow> rooms \<Rightarrow> delivery list" where
  "sendMessageToAllUsers l c rs = map (\<lambda>s. (Sock s, c)) (roomMembers (lobbyCode l) rs)"

text \<open>The messages of a new lobby: the engine's constructor sends \<open>test\<close>
  (\<open>src/ChessGameEngine.ts\<close> line 13) and its \<open>createGame\<close> sends
  \<open>vanguards-placed\<close> (line 243), both to the lobby's room, which other lobbies with the
  same code may already fill; then the lobby's constructor emits \<open>test\<close> to every socket
  (\<open>src/Lobby.ts\<close> line 22).\<close>

definition newLobbyOut :: "lobby \<Rightarrow> rooms \<Rightarrow> delivery list" where
  "newLobbyOut l rs =
     sendMessageToAllUsers l Test rs @ sendMessageToAllUsers l (VanguardsPlaced False) rs @
     [(AllSockets, Test)]"

text \<open>\<open>Lobby.addUserToLobby\<close> (lines 41--53): the socket joins the room before the
  broadcast, so it receives its own \<open>lobby-updated\<close>; \<open>setupSocketConnectionsForUser\<close>
  sends \<open>make-game\<close> to it (\<open>src/ChessGameEngine.ts\<close> line 121).\<close>

definition addUserRooms :: "nat \<Rightarrow> lobby \<Rightarrow> rooms \<Rightarrow> rooms \<times> delivery list" where
  "addUserRooms s l rs =
     (let rs1 = joinRoom s (lobbyCode l) rs in
      (rs1, [(Sock s, JoinedLobby)] @ sendMessageToAllUsers l LobbyUpdated rs1 @ [(Sock s, MakeGame)]))"

text \<open>\<open>Lobby.removeUserFromLobby\<close> (lines 55--63): the socket of the first user of that
  name leaves the room, then the room is told.\<close>

definition removeUserRooms :: "string \<Rightarrow> lobby \<Rightarrow> rooms \<Rightarrow> rooms \<times> delivery list" where
  "removeUserRooms name l rs =
     (case find (\<lambda>u. username u = name) (users l) of
        None \<Rightarrow> (rs, [])
      | Some u \<Rightarrow>
          (let rs1 = leaveRoom (usock u) (lobbyCode l) rs in
           (rs1, sendMessageToAllUsers l LobbyUpdated rs1)))"

text \<open>\<open>LobbyList.addUserToLobby\<close> (lines 59--68): the same search as
  \<open>addUserToLobbyList\<close>; \<open>join-lobby-err\<close> to the socket when no lobby matches.\<close>

definition joinOut :: "code_value \<Rightarrow> nat \<Rightarrow> world \<Rightarrow> rooms \<Rightarrow> rooms \<times> delivery list" where
  "joinOut code s w rs =
     (case find (\<lambda>i. CodeString (lobbyCode (objs w ! i)) = code) (lobbies w) of
        None \<Rightarrow> (rs, [(Sock s, JoinLobbyErr)])
      | Some i \<Rightarrow> addUserRooms s (objs w ! i) rs)"

text \<open>A sequence of \<open>removeUserFromLobby\<close> calls, each on a lobby reference with a user
  name, over the lobby objects as the calls before it left them: the \<open>filter\<close> of
  \<open>removeUserFromLobbies\<close> (\<open>src/LobbyList.ts\<close> lines 74--83) followed by the
  one-shot listeners (\<open>src/Lobby.ts\<close> line 47).\<close>

fun leaveOut :: "(nat \<times> string) list \<Rightarrow> lobby list \<Rightarrow> rooms \<Rightarrow> rooms \<times> delivery list" where
  "leaveOut [] os rs = (rs, [])"
| "leaveOut ((i, n) # rest) os rs =
     (case removeUserRooms n (os ! i) rs of
        (rs1, d1) \<Rightarrow>
          (case leaveOut rest (os[i := snd (removeUserFromLobby n (os ! i))]) rs1 of
             (rs2, d2) \<Rightarrow> (rs2, d1 @ d2)))"

text \<open>The messages a game listener broadcasts when it returns, from the engine before
  and after it: \<open>start-game\<close> (lines 129--135), \<open>quit-game\<close> and \<open>reset\<close> through
  \<open>createGame\<close> (lines 138--152, 243), an accepted move through \<open>addLogMessage\<close> and
  line 213, a vanguard placement (lines 233--238). A handler that throws has sent
  nothing: both throws come before the first broadcast.\<close>

definition moveSends :: "piece_capability \<Rightarrow> coord \<Rightarrow> coord \<Rightarrow> engine \<Rightarrow> outbound list" where
  "moveSends C src dest e =
     (let b = board e in
      if blackVanguards b < vanguards b \<or> whiteVanguards b < vanguards b then []
      else
        case js_index (tiles b) (fst src) of
          None \<Rightarrow> []
        | Some row \<Rightarrow>
            (case js_index row (snd src) of
               None \<Rightarrow> []
             | Some t \<Rightarrow>
                 (if playersTurn (game e) = pcolor (piece t) \<and> tryMove C b dest (piece t) then
                    (case makeMove C b dest (piece t) of
                       (b1, p1, captured) \<Rightarrow>
                         if captured \<noteq> None then []
                         else (if pcolor p1 = Null then [] else [LogUpdate]) @ [GameUpdate])
                  else [])))"

fun engineSends :: "piece_capability \<Rightarrow> game_msg \<Rightarrow> engine \<Rightarrow> engine \<Rightarrow> outbound list" where
  "engineSends C (MChooseTeam c) e e' = []"
| "engineSends C MStartGame e e' = [VanguardsPlaced False, GameUpdate, LogUpdate]"
| "engineSends C MQuitGame e e' = [VanguardsPlaced False, GameUpdate, LogUpdate]"
| "engineSends C (MReset sz) e e' = [VanguardsPlaced False, GameUpdate, LogUpdate]"
| "engineSends C (MMakeMove src dest) e e' = moveSends C src dest e"
| "engineSends C (MPlaceVanguard pos) e e' =
     GameUpdate #
     (if vanguards (board e') \<le> blackVanguards (board e') \<and> vanguards (board e') \<le> whiteVanguards (board e')
      then [VanguardsPlaced True] else [])"

text \<open>The game listeners of a socket in registration order, as \<open>fireGame\<close> runs them; each
  broadcasts to the room of its lobby.\<close>

fun gameOut :: "piece_capability \<Rightarrow> game_msg \<Rightarrow> (nat \<times> nat) list \<Rightarrow> lobby list \<Rightarrow> rooms \<Rightarrow> delivery list" where
  "gameOut C m [] os rs = []"
| "gameOut C m ((i, r) # rest) os rs =
     (case dispatch C (toEvent r m) (lgame (os ! i)) of
        Inl err \<Rightarrow> []
      | Inr sv \<Rightarrow>
          concat (map (\<lambda>c. sendMessageToAllUsers (os ! i) c rs) (engineSends C m (eng (lgame (os ! i))) (eng sv))) @
          gameOut C m rest (os[i := (os ! i)\<lparr>lgame := sv\<rparr>]) rs)"

text \<open>\<open>src/index.ts\<close> lines 18--32, the rooms and the messages.\<close>

definition roomsStep :: "piece_capability \<Rightarrow> nat \<Rightarrow> client_event \<Rightarrow> world \<Rightarrow> rooms \<Rightarrow> rooms \<times> delivery list" where
  "roomsStep C s ev w rs =
     (case ev of
        CreateLobby name \<Rightarrow>
          (case addNewLobby C w of
             None \<Rightarrow> (rs, [])
           | Some (code, w1) \<Rightarrow>
               (case joinOut code s w1 rs of (rs1, d) \<Rightarrow> (rs1, newLobbyOut (newLobby C ''AAAA'') rs @ d)))
      | JoinLobby code name \<Rightarrow> joinOut (CodeString code) s w rs
      | LeaveLobby name \<Rightarrow>
          leaveOut (map (\<lambda>i. (i, name)) (lobbies w) @ leaveOnces s (listeners w)) (objs w) rs
      | Game m \<Rightarrow> (rs, gameOut C m (gameRegs s (listeners w)) (objs w) rs))"

definition netStep :: "piece_capability \<Rightarrow> nat \<Rightarrow> client_event \<Rightarrow> world \<times> rooms \<Rightarrow>
                       ((error + world \<times> rooms) \<times> delivery list) option" where
  "netStep C s ev n =
     (case n of (w, rs) \<Rightarrow>
        (case worldStep C s ev w of
           None \<Rightarrow> None
         | Some r \<Rightarrow>
             (case roomsStep C s ev w rs of
                (rs', d) \<Rightarrow> Some (map_sum id (\<lambda>w'. (w', rs')) r, d))))"

text \<open>Start-up: no socket is in a room; the first lobby's constructor sends only to the
  empty room and to the sockets connected so far, of which there are none.\<close>

inductive netReach :: "piece_capability \<Rightarrow> world \<times> rooms \<Rightarrow> bool" for C where
  init: "startWorld C rnd = Some w \<Longrightarrow> netReach C (w, [])"
| step: "netReach C n \<Longrightarrow> netStep C s ev n = Some (Inr n', d) \<Longrightarrow> netReach C n'"

text \<open>The invariant of the room table: no duplicate membership, every room named
  \<open>AAAA\<close>, and every member a socket that joined a lobby (its game listeners stay).\<close>

definition roomsOk :: "world \<Rightarrow> rooms \<Rightarrow> bool" where
  "roomsOk w rs \<longleftrightarrow> distinct rs \<and>
     (\<forall>p \<in> set rs. snd p = ''AAAA'' \<and> (\<exists>i r. (fst p, GameListener i r) \<in> set (listeners w)))"

text \<open>The state after socket 1 joins the start-up lobby as bob, for the witnesses.\<close>

definition sampleNet :: "world \<times> rooms" where
  "sampleNet = projr (fst (the (netStep sampleCap 1 (JoinLobby ''AAAA'' ''bob'') (sampleStart, []))))"

section \<open>Lemmas\<close>

lemma Some_Inr_fst_projr:
  "(case x of Some (Inr _, _) \<Rightarrow> True | _ \<Rightarrow> False) \<Longrightarrow> x = Some (Inr (projr (fst (the x))), snd (the x))"
  by (auto split: option.splits sum.splits prod.splits)

lemma distinct_roomMembers: "distinct rs \<Longrightarrow> distinct (roomMembers r rs)"
  by (induction rs) (auto simp: roomMembers_def)

lemma sendMessageToAllUsers_to:
  "p \<in> set (sendMessageToAllUsers l c rs) \<Longrightarrow> \<exists>s'. p = (Sock s', c) \<and> (s', lobbyCode l) \<in> set rs"
  by (auto simp: sendMessageToAllUsers_def roomMembers_def)

lemma gameOut_to:
  "p \<in> set (gameOut C m regs os rs) \<Longrightarrow> \<exists>s' r. fst p = Sock s' \<and> (s', r) \<in> set rs"
proof (induction C m regs os rs rule: gameOut.induct)
  case (1 C m os rs)
  then show ?case by simp
next
  case (2 C m i r rest os rs)
  then show ?case
    by (cases "dispatch C (toEvent r m) (lgame (os ! i))") (auto dest!: sendMessageToAllUsers_to)
qed

lemma sampleNet_reach: "netReach sampleCap sampleNet"
proof -
  have "case netStep sampleCap 1 (JoinLobby ''AAAA'' ''bob'') (sampleStart, []) of Some (Inr _, _) \<Rightarrow> True | _ \<Rightarrow> False"
    by code_simp
  then have "netStep sampleCap 1 (JoinLobby ''AAAA'' ''bob'') (sampleStart, []) =
             Some (Inr sampleNet, snd (the (netStep sampleCap 1 (JoinLobby ''AAAA'' ''bob'') (sampleStart, []))))"
    unfolding sampleNet_def by (rule Some_Inr_fst_projr)
  then show ?thesis by (rule netReach.step [OF netReach.init [OF sampleStart_eq]])
qed

lemma removeUserRooms_sub:
  "distinct rs \<Longrightarrow> distinct (fst (removeUserRooms n l rs)) \<and> set (fst (removeUserRooms n l rs)) \<subseteq> set rs"
  by (auto simp: removeUserRooms_def leaveRoom_def Let_def distinct_removeAll split: option.split)

lemma leaveOut_sub:
  "distinct rs \<Longrightarrow> distinct (fst (leaveOut xs os rs)) \<and> set (fst (leaveOut xs os rs)) \<subseteq> set rs"
proof (induction xs os rs rule: leaveOut.induct)
  case (1 os rs)
  then show ?case by simp
next
  case (2 i n rest os rs)
  obtain rs1 d1 where r: "removeUserRooms n (os ! i) rs = (rs1, d1)" by fastforce
  have d: "distinct rs1 \<and> set rs1 \<subseteq> set rs" using removeUserRooms_sub [OF "2.prems", of n "os ! i"] r by simp
  with "2.IH" [OF r [symmetric]] show ?case by (auto simp: r split: prod.split)
qed

lemma joinOut_cases:
  "fst (joinOut code s w rs) = rs \<or>
   (\<exists>i. find (\<lambda>i. CodeString (lobbyCode (objs w ! i)) = code) (lobbies w) = Some i \<and>
        fst (joinOut code s w rs) = joinRoom s (lobbyCode (objs w ! i)) rs)"
  by (auto simp: joinOut_def addUserRooms_def Let_def split: option.split)

lemma worldStep_keeps_game_listeners:
  assumes "worldStep C s ev w = Some (Inr w')" and "(x, GameListener i r) \<in> set (listeners w)"
  shows "(x, GameListener i r) \<in> set (listeners w')"
  using assms
proof (cases ev)
  case (CreateLobby name)
  then show ?thesis using assms
    by (auto simp: worldStep_def dest!: addNewLobby_Some split: option.splits)
next
  case (JoinLobby code name)
  then show ?thesis using assms
    by (auto simp: worldStep_def addUserToLobbyList_def split: option.splits prod.splits)
next
  case (LeaveLobby name)
  then show ?thesis using assms
    by (auto simp: worldStep_def fireLeave_def removeUserFromLobbies_def split: prod.splits)
next
  case (Game m)
  then show ?thesis using assms
    by (auto simp: worldStep_def split: sum.splits)
qed

lemma lobbyCode_update_lgame:
  "lobbyCode ((os[i := (os ! i)\<lparr>lgame := sv\<rparr>]) ! j) = lobbyCode (os ! j)"
  by (cases "i < length os"; cases "j = i") (auto simp: list_update_beyond not_less)

lemma netStep_Inr:
  "netStep C s ev (w, rs) = Some (Inr (w', rs'), d) \<longleftrightarrow>
   worldStep C s ev w = Some (Inr w') \<and> roomsStep C s ev w rs = (rs', d)"
  by (auto simp: netStep_def split: option.splits prod.splits sum.splits)

lemma roomsOk_sub:
  assumes ok: "roomsOk w rs" and st: "worldStep C s ev w = Some (Inr w')"
    and d: "distinct rs'" and sub: "set rs' \<subseteq> set rs"
  shows "roomsOk w' rs'"
  using ok d sub worldStep_keeps_game_listeners [OF st] unfolding roomsOk_def by blast

lemma roomsOk_join:
  assumes inv: "worldInv w" and ok: "roomsOk w rs"
    and f: "find (\<lambda>i. CodeString (lobbyCode (objs w ! i)) = CodeString code) (lobbies w) = Some i"
  shows "roomsOk (addUserToLobbyList (CodeString code) name s w) (joinRoom s (lobbyCode (objs w ! i)) rs)"
proof -
  have i: "i \<in> set (lobbies w)" using find_SomeD [OF f] by simp
  then have "objs w ! i \<in> set (objs w)" using inv by (auto simp: worldInv_def refsOk_def)
  then have code: "lobbyCode (objs w ! i) = ''AAAA''" using inv by (simp add: worldInv_def)
  have ls: "listeners (addUserToLobbyList (CodeString code) name s w) =
            listeners w @ [(s, LeaveOnce i name), (s, GameListener i (nextReg w))]"
    using f by (simp add: addUserToLobbyList_def addUserToLobby_def)
  show ?thesis using ok unfolding roomsOk_def joinRoom_def ls code by (auto split: if_splits; fastforce)
qed

lemma roomsOk_step:
  assumes inv: "worldInv w" and ok: "roomsOk w rs"
    and st: "netStep C s ev (w, rs) = Some (Inr (w', rs'), d)"
  shows "roomsOk w' rs'"
proof -
  have ws: "worldStep C s ev w = Some (Inr w')" and rs: "roomsStep C s ev w rs = (rs', d)"
    using st by (simp_all add: netStep_Inr)
  have drs: "distinct rs" using ok by (simp add: roomsOk_def)
  show ?thesis
  proof (cases ev)
    case (CreateLobby name)
    then obtain c w1 where a: "addNewLobby C w = Some (c, w1)"
      using ws by (auto simp: worldStep_def split: option.splits)
    then obtain code where "c = CodePromise code" using addNewLobby_Some by blast
    moreover have "find (\<lambda>i. False) (lobbies w1) = None" by (simp add: find_None_iff)
    ultimately have "rs' = rs" using rs a CreateLobby by (simp add: roomsStep_def joinOut_def)
    then show ?thesis using roomsOk_sub [OF ok ws drs] by simp
  next
    case (JoinLobby code name)
    then have w': "w' = addUserToLobbyList (CodeString code) name s w" using ws by (simp add: worldStep_def)
    have j: "rs' = fst (joinOut (CodeString code) s w rs)" using rs JoinLobby by (simp add: roomsStep_def)
    show ?thesis
    proof (cases "find (\<lambda>i. CodeString (lobbyCode (objs w ! i)) = CodeString code) (lobbies w)")
      case None
      then show ?thesis using j roomsOk_sub [OF ok ws drs] by (simp add: joinOut_def)
    next
      case (Some i)
      then show ?thesis using j w' roomsOk_join [OF inv ok Some, of name s]
        by (simp add: joinOut_def addUserRooms_def Let_def)
    qed
  next
    case (LeaveLobby name)
    then have "rs' = fst (leaveOut (map (\<lambda>i. (i, name)) (lobbies w) @ leaveOnces s (listeners w)) (objs w) rs)"
      using rs by (simp add: roomsStep_def)
    then show ?thesis using leaveOut_sub [OF drs] roomsOk_sub [OF ok ws] by simp
  next
    case (Game m)
    then show ?thesis using rs roomsOk_sub [OF ok ws drs] by (simp add: roomsStep_def)
  qed
qed

lemma netReach_inv: "netReach C n \<Longrightarrow> worldReach C (fst n) \<and> roomsOk (fst n) (snd n)"
proof (induction rule: netReach.induct)
  case (init rnd w)
  then show ?case by (simp add: worldReach.init roomsOk_def)
next
  case (step n s ev n' d)
  obtain w rs where n: "n = (w, rs)" by fastforce
  obtain w' rs' where n': "n' = (w', rs')" by fastforce
  have st: "netStep C s ev (w, rs) = Some (Inr (w', rs'), d)" using step.hyps(2) n n' by simp
  then have "worldStep C s ev w = Some (Inr w')" by (simp add: netStep_Inr)
  then have "worldReach C w'" using step.IH n worldReach.step by auto
  moreover have "worldInv w" using step.IH n worldReach_inv by auto
  then have "roomsOk w' rs'" using roomsOk_step [OF _ _ st] step.IH n by simp
  ultimately show ?case using n' by simp
qed

lemma addLogMessage_same: "addLogMessage msg c l = l \<longleftrightarrow> c = Null"
  by (cases l) (auto simp: addLogMessage_def)

lemma otherColor_neq: "otherColor c \<noteq> c"
  by (cases c) (simp_all add: otherColor_def)

section \<open>Properties\<close>

text \<open>C28: in every state the events reach, a room lists each socket once, so every broadcast
  reaches a socket at most once; only the room \<open>AAAA\<close> has members; and
  every member is a socket that joined a lobby and still has that lobby's game
  listeners.\<close>

theorem reachable_rooms_invariant:
  assumes "netReach C (w, rs)"
  shows "distinct (roomMembers r rs) \<and>
         (\<forall>s' \<in> set (roomMembers r rs). r = ''AAAA'' \<and> (\<exists>i reg. (s', GameListener i reg) \<in> set (listeners w)))"
proof -
  have ok: "roomsOk w rs" using netReach_inv [OF assms] by simp
  then have "distinct (roomMembers r rs)" by (simp add: roomsOk_def distinct_roomMembers)
  moreover have "\<forall>s' \<in> set (roomMembers r rs). r = ''AAAA'' \<and> (\<exists>i reg. (s', GameListener i reg) \<in> set (listeners w))"
    using ok by (fastforce simp: roomsOk_def roomMembers_def)
  ultimately show ?thesis by blast
qed

theorem reachable_rooms_invariant_witness:
  "distinct (roomMembers ''AAAA'' (snd sampleNet)) \<and> roomMembers ''AAAA'' (snd sampleNet) = [1] \<and>
   (\<exists>i reg. (1, GameListener i reg) \<in> set (listeners (fst sampleNet)))"
proof -
  have r: "netReach sampleCap (fst sampleNet, snd sampleNet)" using sampleNet_reach by simp
  have m: "roomMembers ''AAAA'' (snd sampleNet) = [1]" by code_simp
  from reachable_rooms_invariant [OF r, of "''AAAA''"] m show ?thesis by simp
qed

text \<open>C29: \<open>create-lobby\<close>, whenever its code loop returns, sends
  \<open>test\<close> and \<open>vanguards-placed false\<close> to every socket of the
  room \<open>AAAA\<close>, that is to the players of the other lobbies,
  \<open>test\<close> to every socket, and \<open>join-lobby-err\<close> to its sender;
  the rooms do not change.\<close>

theorem createLobby_broadcasts:
  assumes "addNewLobby C w = Some (c, w1)"
  shows "netStep C s (CreateLobby name) (w, rs) =
         Some (Inr (w1, rs),
               map (\<lambda>s'. (Sock s', Test)) (roomMembers ''AAAA'' rs) @
               map (\<lambda>s'. (Sock s', VanguardsPlaced False)) (roomMembers ''AAAA'' rs) @
               [(AllSockets, Test), (Sock s, JoinLobbyErr)])"
proof -
  obtain code where c: "c = CodePromise code" using addNewLobby_Some [OF assms] by blast
  have f: "find (\<lambda>i. False) (lobbies w1) = None" by (simp add: find_None_iff)
  show ?thesis using assms f
    by (simp add: c netStep_def worldStep_def roomsStep_def joinOut_def newLobbyOut_def
                  sendMessageToAllUsers_def newLobby_def)
qed

theorem createLobby_broadcasts_witness:
  "snd (the (netStep sampleCap 2 (CreateLobby ''eve'') sampleNet)) =
   [(Sock 1, Test), (Sock 1, VanguardsPlaced False), (AllSockets, Test), (Sock 2, JoinLobbyErr)]"
proof -
  have "case addNewLobby sampleCap (fst sampleNet) of Some _ \<Rightarrow> True | None \<Rightarrow> False" by code_simp
  then obtain c w1 where a: "addNewLobby sampleCap (fst sampleNet) = Some (c, w1)"
    by (auto split: option.splits)
  have m: "roomMembers ''AAAA'' (snd sampleNet) = [1]" by code_simp
  from createLobby_broadcasts [OF a, where s = 2 and name = "''eve''" and rs = "snd sampleNet"] m show ?thesis by simp
qed

text \<open>C30: joining a lobby found by its code puts the socket in the lobby's room, sends it
  \<open>joined-lobby\<close>, then \<open>lobby-updated\<close> to every room member,
  the new socket included, then \<open>make-game\<close> to it.\<close>

theorem joinLobby_broadcasts:
  assumes "find (\<lambda>i. CodeString (lobbyCode (objs w ! i)) = CodeString code) (lobbies w) = Some i"
  shows "netStep C s (JoinLobby code name) (w, rs) =
         Some (Inr (addUserToLobbyList (CodeString code) name s w, joinRoom s code rs),
               (Sock s, JoinedLobby) # map (\<lambda>s'. (Sock s', LobbyUpdated)) (roomMembers code (joinRoom s code rs)) @
               [(Sock s, MakeGame)]) \<and>
         s \<in> set (roomMembers code (joinRoom s code rs))"
proof -
  have code: "lobbyCode (objs w ! i) = code" using find_SomeD [OF assms] by simp
  have "s \<in> set (roomMembers code (joinRoom s code rs))"
    by (force simp: roomMembers_def joinRoom_def)
  then show ?thesis using assms
    by (simp add: code netStep_def worldStep_def roomsStep_def joinOut_def addUserRooms_def
                  sendMessageToAllUsers_def Let_def)
qed

theorem joinLobby_broadcasts_witness:
  "snd (the (netStep sampleCap 2 (JoinLobby ''AAAA'' ''eve'') sampleNet)) =
   [(Sock 2, JoinedLobby), (Sock 1, LobbyUpdated), (Sock 2, LobbyUpdated), (Sock 2, MakeGame)]"
proof -
  have f: "find (\<lambda>i. CodeString (lobbyCode (objs (fst sampleNet) ! i)) = CodeString ''AAAA'') (lobbies (fst sampleNet)) = Some 0"
    by code_simp
  have m: "roomMembers ''AAAA'' (joinRoom 2 ''AAAA'' (snd sampleNet)) = [1, 2]" by code_simp
  from joinLobby_broadcasts [OF f, where C = sampleCap and s = 2 and name = "''eve''" and rs = "snd sampleNet"] m show ?thesis by simp
qed

text \<open>C31. \<open>removeUserFromLobby\<close> takes the socket of the first user of that name out
  of the room, while the users of other names on the same socket stay in the lobby: after
  the removal that socket receives no broadcast of the lobby, though it may still be one of
  its users.\<close>

theorem leave_by_name_mutes_user:
  assumes "find (\<lambda>v. username v = n) (users l) = Some u"
  shows "(Sock (usock u), c) \<notin> set (sendMessageToAllUsers (snd (removeUserFromLobby n l)) c (fst (removeUserRooms n l rs))) \<and>
         users (snd (removeUserFromLobby n l)) = filter (\<lambda>v. username v \<noteq> n) (users l)"
  using assms
  by (auto simp: removeUserFromLobby_def removeUserRooms_def leaveRoom_def sendMessageToAllUsers_def roomMembers_def Let_def)

theorem leave_by_name_mutes_user_witness:
  "let l = \<lparr>lobbyCode = ''AAAA'', users = [\<lparr>username = ''bob'', usock = 1\<rparr>, \<lparr>username = ''carol'', usock = 1\<rparr>],
            lgame = initServer sampleCap\<rparr> in
   (Sock 1, GameUpdate) \<notin> set (sendMessageToAllUsers (snd (removeUserFromLobby ''bob'' l)) GameUpdate
                                   (fst (removeUserRooms ''bob'' l [(1, ''AAAA'')]))) \<and>
   users (snd (removeUserFromLobby ''bob'' l)) = [\<lparr>username = ''carol'', usock = 1\<rparr>]"
proof -
  define l where "l = \<lparr>lobbyCode = ''AAAA'', users = [\<lparr>username = ''bob'', usock = 1\<rparr>, \<lparr>username = ''carol'', usock = 1\<rparr>],
                       lgame = initServer sampleCap\<rparr>"
  have f: "find (\<lambda>v. username v = ''bob'') (users l) = Some \<lparr>username = ''bob'', usock = 1\<rparr>"
    by (simp add: l_def)
  from leave_by_name_mutes_user [OF f, where c = GameUpdate and rs = "[(1, ''AAAA'')]"]
  show ?thesis unfolding Let_def l_def [symmetric] by (simp add: l_def)
qed

text \<open>C32. A \<open>start-game\<close> message is broadcast to the room once per registration of
  the sending socket: a socket that joined twice, having two registrations, makes every
  member receive each of the three messages twice.\<close>

theorem double_join_doubles_broadcasts:
  assumes "\<forall>(i, r) \<in> set regs. lobbyCode (os ! i) = ''AAAA''"
  shows "gameOut C MStartGame regs os rs =
           concat (replicate (length regs)
             (concat (map (\<lambda>c. map (\<lambda>s'. (Sock s', c)) (roomMembers ''AAAA'' rs))
                          [VanguardsPlaced False, GameUpdate, LogUpdate])))"
  using assms
proof (induction regs arbitrary: os)
  case Nil
  then show ?case by simp
next
  case (Cons x regs)
  obtain i r where x: "x = (i, r)" by fastforce
  have "\<forall>(j, r') \<in> set regs. lobbyCode ((os[i := (os ! i)\<lparr>lgame := sv\<rparr>]) ! j) = ''AAAA''" for sv
    using Cons.prems x by (auto simp: lobbyCode_update_lgame)
  then show ?case using Cons.IH Cons.prems x by (simp add: sendMessageToAllUsers_def)
qed

theorem double_join_doubles_broadcasts_witness:
  "gameOut sampleCap MStartGame
     (gameRegs 1 (listeners (projr (the (worldStep sampleCap 1 (JoinLobby ''AAAA'' ''carol'') (fst sampleNet))))))
     (objs (projr (the (worldStep sampleCap 1 (JoinLobby ''AAAA'' ''carol'') (fst sampleNet))))) (snd sampleNet) =
   [(Sock 1, VanguardsPlaced False), (Sock 1, GameUpdate), (Sock 1, LogUpdate),
    (Sock 1, VanguardsPlaced False), (Sock 1, GameUpdate), (Sock 1, LogUpdate)]"
proof -
  define w2 where "w2 = projr (the (worldStep sampleCap 1 (JoinLobby ''AAAA'' ''carol'') (fst sampleNet)))"
  have h: "\<forall>(i, r) \<in> set (gameRegs 1 (listeners w2)). lobbyCode (objs w2 ! i) = ''AAAA''"
    unfolding w2_def by code_simp
  have n: "length (gameRegs 1 (listeners w2)) = 2" unfolding w2_def by code_simp
  have m: "roomMembers ''AAAA'' (snd sampleNet) = [1]" by code_simp
  show ?thesis unfolding w2_def [symmetric]
    using double_join_doubles_broadcasts [OF h, where C = sampleCap and rs = "snd sampleNet"] n m
    by (simp add: numeral_2_eq_2)
qed

text \<open>C33: in every state the events reach, every message a game event sends goes to a single
  socket, never to every connected socket, and to a socket that joined a lobby.\<close>

theorem gameMsg_recipients:
  assumes "netReach C (w, rs)" and "netStep C s (Game m) (w, rs) = Some (r, d)" and "p \<in> set d"
  shows "\<exists>s' i reg. fst p = Sock s' \<and> (s', GameListener i reg) \<in> set (listeners w)"
proof -
  have ok: "roomsOk w rs" using netReach_inv [OF assms(1)] by simp
  have "d = gameOut C m (gameRegs s (listeners w)) (objs w) rs"
    using assms(2) by (auto simp: netStep_def roomsStep_def split: option.splits)
  then obtain s' r' where "fst p = Sock s'" and "(s', r') \<in> set rs" using gameOut_to assms(3) by blast
  then show ?thesis using ok unfolding roomsOk_def by fastforce
qed

theorem gameMsg_recipients_witness:
  "snd (the (netStep sampleCap 1 (Game MStartGame) sampleNet)) \<noteq> [] \<and>
   (\<exists>s' i reg. fst (hd (snd (the (netStep sampleCap 1 (Game MStartGame) sampleNet)))) = Sock s' \<and>
               (s', GameListener i reg) \<in> set (listeners (fst sampleNet)))"
proof -
  have r: "netReach sampleCap (fst sampleNet, snd sampleNet)" using sampleNet_reach by simp
  have "case netStep sampleCap 1 (Game MStartGame) sampleNet of Some _ \<Rightarrow> True | None \<Rightarrow> False" by code_simp
  then obtain x d where st: "netStep sampleCap 1 (Game MStartGame) (fst sampleNet, snd sampleNet) = Some (x, d)"
    by (auto split: option.splits)
  have ne: "snd (the (netStep sampleCap 1 (Game MStartGame) sampleNet)) \<noteq> []" by code_simp
  then have "d \<noteq> []" using st by simp
  then have "hd d \<in> set d" by (rule hd_in_set)
  from gameMsg_recipients [OF r st this] ne st show ?thesis by simp
qed

text \<open>C34: a make-move that returns either changed nothing and sent nothing, so a rejected
  move gets no answer, or passed the turn and broadcast \<open>game-update\<close> last, preceded by
  \<open>log-update\<close> exactly when it logged the move.\<close>

theorem makeMove_announces_turn:
  assumes "makeMoveHandler C color src dest e = Inr e'"
  shows "if playersTurn (game e') = playersTurn (game e) then e' = e \<and> moveSends C src dest e = []
         else moveSends C src dest e = (if mlog e' = mlog e then [] else [LogUpdate]) @ [GameUpdate]"
proof (cases "blackVanguards (board e) < vanguards (board e) \<or> whiteVanguards (board e) < vanguards (board e)")
  case True
  then have "e' = e" using assms by (simp add: makeMoveHandler_def Let_def)
  moreover have "moveSends C src dest e = []" using True by (simp add: moveSends_def Let_def)
  ultimately show ?thesis by simp
next
  case gate: False
  obtain row where row: "js_index (tiles (board e)) (fst src) = Some row"
    using assms gate by (auto simp: makeMoveHandler_def Let_def split: option.splits)
  obtain t where t: "js_index row (snd src) = Some t"
    using assms gate row by (auto simp: makeMoveHandler_def Let_def split: option.splits)
  show ?thesis
  proof (cases "playersTurn (game e) = pcolor (piece t) \<and> tryMove C (board e) dest (piece t)")
    case False
    then have "e' = e" using assms gate row t by (auto simp: makeMoveHandler_def Let_def split: if_splits)
    moreover have "moveSends C src dest e = []" using False gate row t by (auto simp: moveSends_def Let_def)
    ultimately show ?thesis by simp
  next
    case acc: True
    obtain b1 p1 cap where mm: "makeMove C (board e) dest (piece t) = (b1, p1, cap)"
      by (cases "makeMove C (board e) dest (piece t)") auto
    have cap: "cap = None" using assms gate row t acc mm by (auto simp: makeMoveHandler_def Let_def split: if_splits)
    have e': "e' = afterMove C color p1 dest (e\<lparr>board := b1\<rparr>)"
      using assms gate row t acc mm cap by (simp add: makeMoveHandler_def Let_def)
    have turn: "playersTurn (game e') \<noteq> playersTurn (game e)" by (simp add: e' afterMove_sel otherColor_neq)
    have log: "mlog e' = mlog e \<longleftrightarrow> pcolor p1 = Null" by (simp add: e' afterMove_def Let_def addLogMessage_same)
    have "moveSends C src dest e = (if pcolor p1 = Null then [] else [LogUpdate]) @ [GameUpdate]"
      using gate row t acc mm cap by (simp add: moveSends_def Let_def)
    then show ?thesis using turn log by simp
  qed
qed

theorem makeMove_announces_turn_witness:
  "moveSends sampleCap (1, 0) (1, 1) pinnedEngine = [LogUpdate, GameUpdate]"
proof -
  define e' where "e' = projr (makeMoveHandler sampleCap White (1, 0) (1, 1) pinnedEngine)"
  have "case makeMoveHandler sampleCap White (1, 0) (1, 1) pinnedEngine of Inr _ \<Rightarrow> True | Inl _ \<Rightarrow> False"
    by code_simp
  then have st: "makeMoveHandler sampleCap White (1, 0) (1, 1) pinnedEngine = Inr e'"
    unfolding e'_def by (auto split: sum.splits)
  have turn: "playersTurn (game e') \<noteq> playersTurn (game pinnedEngine)" unfolding e'_def by code_simp
  have log: "mlog e' \<noteq> mlog pinnedEngine" unfolding e'_def by code_simp
  from makeMove_announces_turn [OF st] turn log show ?thesis by simp
qed

end
