(* ===== verification/Spec2Isabelle.thy ===== *)
theory Spec2Isabelle
  imports Chess_Rooms
begin

text \<open>
  \<^bold>\<open>A verification library for the chess-backend engine.\<close>

  The repository is the server of a networked chess variant: \<open>src/ChessGameEngine.ts\<close>
  holds one game (board, game record, move log) and the socket handlers that change it;
  \<open>src/Lobby.ts\<close> and \<open>src/LobbyList.ts\<close> group users into lobbies, each with its own
  engine; \<open>src/index.ts\<close> wires the sockets. The engine calls a piece module
  (\<open>./piece\<close>) and a type module (\<open>./types\<close>) that are not part of \<open>src/\<close>.

  \<^bold>\<open>Theories and the code they model.\<close>
  \<^item> \<open>Chess_Prelude\<close>: the JavaScript semantics the model needs. \<open>js_index\<close> is
    array indexing (\<open>None\<close> is \<open>undefined\<close>; negative and too large indices included),
    \<open>grid_get\<close> and \<open>grid_map_at\<close> read and update a tile grid, \<open>cells\<close> is the
    row-major order of two nested \<open>forEach\<close> loops, \<open>int_to_string\<close> the decimal
    rendering of a template literal. Shared lemmas on grids, folds over cells and decimal
    strings.
  \<^item> \<open>Chess_Types\<close>: the data model of \<open>./types\<close> (from the specification): colours,
    piece types, the records \<open>piece\<close>, \<open>tile\<close>, \<open>board\<close>, \<open>game\<close>, \<open>move_log\<close>, and the
    record \<open>engine\<close> for the fields of \<open>ChessGameEngine\<close> (lines 6--9).
  \<^item> \<open>Chess_Piece\<close>: the piece module as an interface, the record \<open>piece_capability\<close>
    of \<open>tryMove\<close>, \<open>makeMove\<close> and \<open>moveMade\<close> that every engine operation takes as a
    parameter, with the two promises the engine relies on (\<open>spaces_blind\<close>,
    \<open>keeps_board\<close>); \<open>assignCoords\<close> models lines 481--485. \<open>sampleCap\<close> (kings, rooks,
    knights) implements the interface and proves both promises; the witnesses run on it.
  \<^item> \<open>Chess_MoveGen\<close>: \<open>populateAvailableMoves\<close> (lines 29--71) with its in-place loop
    \<open>forEachTile\<close>, the board copy \<open>hypothetical\<close>, and \<open>inCheck\<close> (lines 74--104).
  \<^item> \<open>Chess_Setup\<close>: \<open>createGame\<close> (lines 242--486), its size switch \<open>boardSetup\<close> and
    the six starting layouts.
  \<^item> \<open>Chess_Notation\<close>: the log notation \<open>moveString\<close> (lines 194--208) and a reader
    \<open>parseMove\<close> for it.
  \<^item> \<open>Chess_Engine\<close>: the handlers of \<open>setupSocketConnectionsForUser\<close> (lines 117--240)
    as functions to \<open>error + engine\<close>: \<open>makeMoveHandler\<close> (with \<open>afterMove\<close>, the end of
    turn), \<open>placeVanguard\<close>, \<open>startGame\<close>, \<open>quitGame\<close>, \<open>resetGame\<close>; the constructor
    \<open>newEngine\<close>; \<open>addTakenPiece\<close> and \<open>addLogMessage\<close>.
  \<^item> \<open>Chess_Server\<close>: the engine as a state machine over socket events: one colour
    variable per registration (\<open>server\<close>), \<open>dispatch\<close>, the inductive set \<open>reachable\<close>
    and the invariant \<open>engineInv\<close>.
  \<^item> \<open>Chess_Lobby\<close>: the class \<open>Lobby\<close> of \<open>src/Lobby.ts\<close> (record \<open>lobby\<close>,
    \<open>newLobby\<close>, \<open>addUserToLobby\<close>, \<open>removeUserFromLobby\<close>, \<open>lobbySize\<close>,
    \<open>getLobbyInfo\<close>); joining returns the listeners it registers on the socket.
  \<^item> \<open>Chess_LobbyList\<close>: the class \<open>LobbyList\<close> of \<open>src/LobbyList.ts\<close> over an explicit
    store of lobby objects (\<open>world\<close>: the objects, the listed references, the socket
    listener table, the draws of \<open>Math.random\<close>): \<open>makeId\<close>, the loop
    \<open>createNewLobbyCode\<close>, \<open>addNewLobby\<close>, \<open>addUserToLobbyList\<close>,
    \<open>removeUserFromLobbies\<close>; the clients' \<open>view\<close> of the list and the specifications
    \<open>leaveAll\<close> and \<open>joinFirst\<close>.
  \<^item> \<open>Chess_Sockets\<close>: \<open>src/index.ts\<close>: the start-up state, the three listeners of a
    connection and the listeners lobbies add, run in registration order (\<open>worldStep\<close>);
    the inductive set \<open>worldReach\<close> of the states the events reach.
  \<^item> \<open>Chess_Rooms\<close>: what the sockets receive. The socket.io rooms (\<open>socket.join\<close>,
    \<open>socket.leave\<close>) as a table of memberships, and every \<open>socket.emit\<close>, \<open>io.emit\<close> and
    \<open>sendMessageToAllUsers\<close> (\<open>io.to(lobbyCode).emit\<close>) as a delivery of an event name,
    in the order the code sends them: \<open>addUserRooms\<close>, \<open>removeUserRooms\<close> and
    \<open>newLobbyOut\<close> for the class \<open>Lobby\<close>, \<open>joinOut\<close> and \<open>leaveOut\<close> for
    \<open>LobbyList\<close>, \<open>engineSends\<close> and \<open>gameOut\<close> for the engine's handlers;
    \<open>netStep\<close> pairs them with \<open>worldStep\<close> and \<open>netReach\<close> is its reachable set.

  \<^bold>\<open>What is proved.\<close>
  \<^item> Legal moves (\<open>Chess_MoveGen\<close>): every cached destination is pseudo-legal and leaves
    the mover's king unattacked (C1); the in-place tile-by-tile loop equals the simultaneous
    recomputation of the specification for every capability that ignores the caches (C2),
    by a fold lemma over the row-major cells; on a refreshed copy with a single opposing king
    the check detector means "that king is attacked" (C13).
  \<^item> Initialisation (\<open>Chess_Setup\<close>): every size gives a square, mirror-symmetric,
    colour-consistent layout with one king per colour, the quota of the size table, cleared
    game and log (C3); the result depends only on the size and the started flag, so nothing
    of the previous game survives (C4); the fallback size keeps the requested number as
    \<open>boardLength\<close> (C5).
  \<^item> State machine (\<open>Chess_Server\<close>): an invariant of every reachable state, by rule
    induction over \<open>reachable\<close> with one preservation lemma per handler (C6); the
    deployment gate (C7); turn alternation (C8); the log is append-only (C11); the board stays
    a square of a supported size (C27).
  \<^item> Handlers (\<open>Chess_Engine\<close>): the end-of-turn outcome, with check taken from the
    socket's colour (C9); the effect of a vanguard placement (C10); acceptance of every move
    \<open>tryMove\<close> accepts, whatever the caches and the end of the game say (C14); the error
    paths (C15, C16); reset (C17).
  \<^item> Notation: \<open>parseMove\<close> inverts \<open>moveString\<close> on boards up to 16 columns (C12).
  \<^item> Lobbies (\<open>Chess_LobbyList\<close>, \<open>Chess_Sockets\<close>): leaving and joining refine their
    specifications on the clients' view (C19, C20); the code loop returns a fresh code as
    soon as the draws produce one and never returns when they do not (C21, C22); codes are
    four characters of the alphabet (C23); the invariant of the composed system, valid
    references and the engine invariant in every lobby (C18); and the lobby behaviours that
    defeat their purpose: \<open>create-lobby\<close> never joins its sender (C24), every lobby has
    the code \<open>AAAA\<close> (C25), \<open>leave-lobby\<close> removes the users the socket joined as,
    whatever name it carries (C26).
  \<^item> Rooms and messages (\<open>Chess_Rooms\<close>): by rule induction over \<open>netReach\<close>, rooms hold
    each socket once, only the room \<open>AAAA\<close> is used, and only sockets that joined are
    members (C28), so game messages reach only such sockets (C33); the messages of
    \<open>create-lobby\<close> (C29) and \<open>join-lobby\<close> (C30) in full; removing a user by name
    takes that user's socket out of the room even when the socket still holds another user of
    the lobby (C31); \<open>start-game\<close> is broadcast once per registration of the sender, so
    twice after a double join (C32); a make-move that returns either sent nothing or passed
    the turn and sent \<open>game-update\<close>, with \<open>log-update\<close> exactly when it logged (C34).

  \<^bold>\<open>Choices.\<close> Coordinates are \<open>int\<close> pairs because the handlers index with numbers from
  the network; counters are \<open>nat\<close> because they only grow from 0. No loop of the engine
  is unbounded: every iteration is over the grid or the destination candidates, so all
  definitions are total and executable, and the witnesses are evaluated by \<open>code_simp\<close>.
  The one loop that may not end, the lobby-code loop, is a \<open>partial_function (option)\<close>;
  its termination is proved as such (C21), and its divergence on unlucky draws too (C22).
  \<open>Math.random\<close> is an arbitrary sequence of draws, so every property holds for all
  of them. Lobby objects are kept in a store because listeners keep references to lobbies
  that have left the list.

  \<^bold>\<open>Not modelled.\<close> The payloads of the messages (only their event names and
  recipients are); \<open>console.log\<close> prints and sends nothing. The piece module is an
  interface: its rules are not part of the repository. When a handler throws, the state it
  had partly mutated before the throw is not modelled; \<open>reachable\<close> only follows events
  that return. Persistence (the MongoDB client in \<open>src/index.ts\<close>) is never called:
  \<open>main()\<close> is commented out. The express/HTTP server (lines 1--10 and 36--37 of
  \<open>src/index.ts\<close>) only carries the sockets. The set of connected sockets is not
  kept: a message to all of them is the recipient \<open>AllSockets\<close>.
\<close>

end
